(* ===== verification/Prelude.thy ===== *)
theory Prelude
  imports Main "HOL-Library.Word"
begin

text \<open>
  Shared vocabulary of the development: the types every component uses (bytes, machine
  integers, Go strings, fallible results), the generic operations Go programs are built
  from (loops with an early error return, bounded retry loops, map-backed sets), the
  collections of lemmas the component proofs rewrite with, and the interfaces that several
  components implement: self-delimiting codecs, keyed stores, and middleware that gates a handler.

  A Go \<open>string\<close> is a sequence of bytes, and so is the HOL type \<^typ>\<open>string\<close>: a
  \<^typ>\<open>char\<close> is one of 256 values.  A Go \<open>[]byte\<close> whose bits matter is a list of
  8-bit words.  A pair \<open>(value, error)\<close> of which exactly one is meaningful is a sum, with
  the error on the left.
\<close>

section \<open>Types\<close>

type_synonym byte = "8 word"
type_synonym u32 = "32 word"
type_synonym u64 = "64 word"
type_synonym ('e, 'a) result = "'e + 'a"

named_theorems codec_laws "round-trip laws of encoders and decoders"
named_theorems frame_simps "what an operation leaves unchanged"

section \<open>Results\<close>

definition is_ok :: "('e, 'a) result \<Rightarrow> bool" where
  "is_ok r = (case r of Inl _ \<Rightarrow> False | Inr _ \<Rightarrow> True)"

lemma is_ok_simps [simp]: "is_ok (Inr x)" "\<not> is_ok (Inl e)"
  by (simp_all add: is_ok_def)

lemma is_ok_iff: "is_ok r \<longleftrightarrow> (\<exists>x. r = Inr x)"
  by (cases r) (simp_all add: is_ok_def)

lemma case_ok_iff: "(case r of Inl _ \<Rightarrow> False | Inr x \<Rightarrow> P x) \<longleftrightarrow> (\<exists>x. r = Inr x \<and> P x)"
  by (cases r) auto

text \<open>\<open>v, err := m; if err != nil { return err }; k(v)\<close>.\<close>

fun rbind :: "('e, 'a) result \<Rightarrow> ('a \<Rightarrow> ('e, 'b) result) \<Rightarrow> ('e, 'b) result" where
  "rbind (Inl e) k = Inl e"
| "rbind (Inr x) k = k x"

text \<open>\<open>fmt.Errorf("...: %w", err)\<close>: the error changes, the value does not.\<close>

fun wrap_err :: "('e \<Rightarrow> 'f) \<Rightarrow> ('e, 'a) result \<Rightarrow> ('f, 'a) result" where
  "wrap_err f (Inl e) = Inl (f e)"
| "wrap_err f (Inr x) = Inr x"

lemma rbind_Inr_iff: "rbind m k = Inr y \<longleftrightarrow> (\<exists>x. m = Inr x \<and> k x = Inr y)"
  by (cases m) auto

lemma rbind_Inl_iff: "rbind m k = Inl e \<longleftrightarrow> m = Inl e \<or> (\<exists>x. m = Inr x \<and> k x = Inl e)"
  by (cases m) auto

lemma rbind_assoc: "rbind (rbind m f) g = rbind m (\<lambda>x. rbind (f x) g)"
  by (cases m) auto

lemma wrap_err_Inr_iff [simp]: "wrap_err f m = Inr y \<longleftrightarrow> m = Inr y"
  by (cases m) auto

lemma rbind_cong [fundef_cong]:
  "m = m' \<Longrightarrow> (\<And>x. m' = Inr x \<Longrightarrow> k x = k' x) \<Longrightarrow> rbind m k = rbind m' k'"
  by (cases m') auto

text \<open>
  The loop \<^verbatim>\<open>for _, x := range xs { if err := f(&s, x); err != nil { return err } }\<close>
  over a state: it stops at the first error and reports it with the state reached.
\<close>

fun fold_err :: "('s \<Rightarrow> 'a \<Rightarrow> ('e, 's) result) \<Rightarrow> 's \<Rightarrow> 'a list \<Rightarrow> ('e, 's) result" where
  "fold_err f s [] = Inr s"
| "fold_err f s (x # xs) = (case f s x of Inl e \<Rightarrow> Inl e | Inr s' \<Rightarrow> fold_err f s' xs)"

lemma fold_err_append:
  "fold_err f s (xs @ ys) = (case fold_err f s xs of Inl e \<Rightarrow> Inl e | Inr s' \<Rightarrow> fold_err f s' ys)"
  by (induction xs arbitrary: s) (auto split: sum.splits)

lemma fold_err_invariant:
  assumes "\<And>s x s'. I s \<Longrightarrow> x \<in> set xs \<Longrightarrow> f s x = Inr s' \<Longrightarrow> I s'"
    and "I s" and "fold_err f s xs = Inr s'"
  shows "I s'"
  using assms
proof (induction xs arbitrary: s)
  case Nil
  then show ?case by simp
next
  case (Cons x xs)
  from Cons.prems(3) obtain t where t: "f s x = Inr t" "fold_err f t xs = Inr s'"
    by (auto split: sum.splits)
  have "I t" using Cons.prems(1)[OF Cons.prems(2) _ t(1)] by simp
  moreover have "\<And>s y s'. I s \<Longrightarrow> y \<in> set xs \<Longrightarrow> f s y = Inr s' \<Longrightarrow> I s'"
    by (rule Cons.prems(1)) simp_all
  ultimately show ?case using Cons.IH t(2) by blast
qed

section \<open>Sets built by a loop\<close>

text \<open>
  Go has no set type: the source writes \<^verbatim>\<open>set := make(map[T]bool); for _, x := range b { set[x] = true }\<close>
  and then asks \<^verbatim>\<open>set[x]\<close>.  The map is a function from keys to \<^typ>\<open>bool\<close>, absent keys
  reading \<open>False\<close>, as Go's zero value does.
\<close>

definition set_of_loop :: "'a list \<Rightarrow> 'a \<Rightarrow> bool" where
  "set_of_loop xs = fold (\<lambda>x m. m(x := True)) xs (\<lambda>_. False)"

lemma fold_upd_True: "fold (\<lambda>x m. m(x := True)) xs m y \<longleftrightarrow> m y \<or> y \<in> set xs"
  by (induction xs arbitrary: m) auto

lemma set_of_loop_iff [simp]: "set_of_loop xs y \<longleftrightarrow> y \<in> set xs"
  by (simp add: set_of_loop_def fold_upd_True)

section \<open>Bounded retry\<close>

text \<open>
  The retry loops of the source share one shape: at most \<open>n\<close> attempts, the world threaded
  through them, a pause between two attempts, the last error reported when all fail.
  \<open>retry n att pause w\<close> is that loop; \<open>prev\<close> is the error variable, which starts unset.
\<close>

fun retry :: "nat \<Rightarrow> ('w \<Rightarrow> ('e, 'a) result \<times> 'w) \<Rightarrow> ('w \<Rightarrow> 'w) \<Rightarrow> 'e option \<Rightarrow> 'w
    \<Rightarrow> ('e option, 'a) result \<times> 'w" where
  "retry 0 att pause prev w = (Inl prev, w)"
| "retry (Suc n) att pause prev w =
     (case att w of
        (Inr x, w') \<Rightarrow> (Inr x, w')
      | (Inl e, w') \<Rightarrow> retry n att pause (Some e) (pause w'))"

text \<open>The world in which the \<open>k\<close>-th attempt starts, when all before it failed.\<close>

fun retry_world :: "('w \<Rightarrow> ('e, 'a) result \<times> 'w) \<Rightarrow> ('w \<Rightarrow> 'w) \<Rightarrow> 'w \<Rightarrow> nat \<Rightarrow> 'w" where
  "retry_world att pause w 0 = w"
| "retry_world att pause w (Suc k) = retry_world att pause (pause (snd (att w))) k"

lemma retry_first_success:
  "k < n \<Longrightarrow> (\<And>j. j < k \<Longrightarrow> \<not> is_ok (fst (att (retry_world att pause w j)))) \<Longrightarrow>
   att (retry_world att pause w k) = (Inr x, w') \<Longrightarrow> retry n att pause prev w = (Inr x, w')"
proof (induction n arbitrary: k prev w)
  case (Suc n)
  show ?case
  proof (cases k)
    case (Suc k')
    obtain r v where r: "att w = (r, v)" by (metis surj_pair)
    obtain e where "r = Inl e" using Suc.prems(2)[of 0] r Suc by (cases r) simp_all
    moreover have "retry n att pause (Some e) (pause v) = (Inr x, w')"
      using Suc.IH[of k' "pause v" "Some e"] Suc.prems(1,3) Suc.prems(2)[of "Suc j" for j] Suc r by simp
    ultimately show ?thesis using r by simp
  qed (use Suc.prems in simp)
qed simp

lemma retry_all_fail:
  "(\<And>j. j < n \<Longrightarrow> \<not> is_ok (fst (att (retry_world att pause w j)))) \<Longrightarrow>
   \<exists>e w'. retry n att pause prev w = (Inl e, w') \<and> (e = None \<longleftrightarrow> n = 0 \<and> prev = None)"
proof (induction n arbitrary: prev w)
  case (Suc n)
  obtain r v where r: "att w = (r, v)" by (metis surj_pair)
  obtain e where e: "r = Inl e" using Suc.prems[of 0] r by (cases r) simp_all
  have "\<not> is_ok (fst (att (retry_world att pause (pause v) j)))" if "j < n" for j
    using Suc.prems[of "Suc j"] that r by simp
  then show ?case using Suc.IH[of "pause v" "Some e"] r e by simp
qed simp

lemma retry_ok_iff:
  "(\<exists>x w'. retry n att pause prev w = (Inr x, w')) \<longleftrightarrow> (\<exists>k<n. is_ok (fst (att (retry_world att pause w k))))"
proof
  assume "\<exists>k<n. is_ok (fst (att (retry_world att pause w k)))"
  then obtain k where k: "k < n" "is_ok (fst (att (retry_world att pause w k)))"
    and least: "\<And>j. j < k \<Longrightarrow> \<not> is_ok (fst (att (retry_world att pause w j)))"
    using exists_least_iff[of "\<lambda>k. k < n \<and> is_ok (fst (att (retry_world att pause w k)))"] by (metis less_trans)
  obtain x w' where "att (retry_world att pause w k) = (Inr x, w')" using k(2) by (metis is_ok_iff prod.collapse)
  then show "\<exists>x w'. retry n att pause prev w = (Inr x, w')" using retry_first_success[of k n att pause w] k(1) least by blast
next
  assume "\<exists>x w'. retry n att pause prev w = (Inr x, w')"
  then show "\<exists>k<n. is_ok (fst (att (retry_world att pause w k)))" using retry_all_fail[of n att pause w prev] by (metis Pair_inject sum.distinct(1))
qed

section \<open>Words and bytes\<close>

definition byte_of_char :: "char \<Rightarrow> byte" where
  "byte_of_char c = word_of_nat (of_char c)"

definition char_of_byte :: "byte \<Rightarrow> char" where
  "char_of_byte b = char_of (unat b)"

lemma of_char_less_256: "(of_char c :: nat) < 256"
  by (metis char_of_mod_256 mod_less_divisor nat_of_char_less_256 of_char_of)

lemma char_of_byte_of_char [simp]: "char_of_byte (byte_of_char c) = c"
proof -
  have "(of_char c :: nat) < 2 ^ LENGTH(8)"
    using of_char_less_256[of c] by simp
  then have "unat (word_of_nat (of_char c) :: byte) = of_char c"
    by (simp add: unat_of_nat)
  then show ?thesis by (simp add: char_of_byte_def byte_of_char_def)
qed

text \<open>\<open>[]byte(s)\<close> and \<open>string(b)\<close>.\<close>

definition bytes_of_string :: "string \<Rightarrow> byte list" where
  "bytes_of_string s = map byte_of_char s"

definition string_of_bytes :: "byte list \<Rightarrow> string" where
  "string_of_bytes b = map char_of_byte b"

lemma string_of_bytes_of_string [simp]: "string_of_bytes (bytes_of_string s) = s"
  by (simp add: string_of_bytes_def bytes_of_string_def comp_def)

lemma byte_of_char_of_byte [simp]: "byte_of_char (char_of_byte b) = b"
proof -
  have "unat b < 256" using unsigned_less[of b, where 'a = nat] by simp
  then show ?thesis by (simp add: char_of_byte_def byte_of_char_def of_char_of)
qed

lemma bytes_of_string_of_bytes [simp]: "bytes_of_string (string_of_bytes b) = b"
  by (simp add: string_of_bytes_def bytes_of_string_def comp_def)

section \<open>Self-delimiting codecs\<close>

text \<open>
  An encoding is self-delimiting when the decoder, given the encoding of a value followed by
  anything, returns the value and hands the rest back.  \<open>ok\<close> says which values the encoder
  is used on.  The archive format of \<^verbatim>\<open>backup/sqldump\<close> and the DER integers of
  \<^verbatim>\<open>middleware/audit\<close> are made of such pieces.
\<close>

locale self_delimiting =
  fixes enc :: "'a \<Rightarrow> byte list"
    and dec :: "byte list \<Rightarrow> ('e, 'a \<times> byte list) result"
    and ok :: "'a \<Rightarrow> bool"
  assumes dec_enc: "ok x \<Longrightarrow> dec (enc x @ rest) = Inr (x, rest)"
begin

lemma dec_enc_all: "ok x \<Longrightarrow> dec (enc x) = Inr (x, [])"
  using dec_enc[of x "[]"] by simp

lemma enc_prefix_free: "ok x \<Longrightarrow> ok y \<Longrightarrow> enc x @ r = enc y @ s \<Longrightarrow> x = y \<and> r = s"
  by (metis dec_enc prod.inject sum.inject(2))

lemma enc_inj: "ok x \<Longrightarrow> ok y \<Longrightarrow> enc x = enc y \<Longrightarrow> x = y"
  using enc_prefix_free[of x y "[]" "[]"] by simp

end

section \<open>Keyed stores\<close>

text \<open>
  A component that keeps entries under a key (\<open>sync.Map\<close>, a guarded map) promises that a
  lookup after an insert or a removal sees exactly that change.  The router's handler table,
  the transcoder's connection table and the bus manager are such stores.
\<close>

locale keyed_store =
  fixes lookup :: "'s \<Rightarrow> 'k \<Rightarrow> 'v option"
    and insert :: "'k \<Rightarrow> 'v \<Rightarrow> 's \<Rightarrow> 's"
    and remove :: "'k \<Rightarrow> 's \<Rightarrow> 's"
  assumes lookup_insert: "lookup (insert k v s) = (lookup s)(k \<mapsto> v)"
    and lookup_remove: "lookup (remove k s) = (lookup s)(k := None)"
begin

lemma insert_same: "lookup (insert k v s) k = Some v"
  by (simp add: lookup_insert)

lemma insert_other: "k' \<noteq> k \<Longrightarrow> lookup (insert k v s) k' = lookup s k'"
  by (simp add: lookup_insert)

lemma insert_remove: "lookup (remove k (insert k v s)) k = None"
  by (simp add: lookup_remove)

lemma dom_fold_insert: "dom (lookup (fold (\<lambda>(k, v). insert k v) kvs s)) = fst ` set kvs \<union> dom (lookup s)"
  by (induction kvs arbitrary: s) (auto simp: lookup_insert split: prod.splits)

end

section \<open>Server middleware\<close>

text \<open>
  A Kratos server middleware turns a handler into a handler.  The middleware that guard a service
  have one shape: they look at the call, and either answer it themselves or pass it to the
  handler once, with a context of their choice.  \<open>admit\<close> is that decision.
\<close>

locale gate_middleware =
  fixes mw :: "('ctx \<Rightarrow> 'req \<Rightarrow> 'res) \<Rightarrow> 'ctx \<Rightarrow> 'req \<Rightarrow> 'res"
    and admit :: "'ctx \<Rightarrow> 'res + 'ctx"
  assumes gate: "mw h ctx req = (case admit ctx of Inl r \<Rightarrow> r | Inr ctx' \<Rightarrow> h ctx' req)"
begin

text \<open>
  The result depends on the handler only at admitted contexts: if every admitted context
  satisfies \<open>P\<close>, then handlers that agree where \<open>P\<close> holds cannot be told apart behind
  the middleware.  In other words, the handler is never run where \<open>P\<close> fails.
\<close>

lemma handler_runs_only_if:
  assumes "\<And>ctx'. admit ctx = Inr ctx' \<Longrightarrow> P ctx'" and "\<And>ctx'. P ctx' \<Longrightarrow> h ctx' req = h' ctx' req"
  shows "mw h ctx req = mw h' ctx req"
  using assms by (auto simp: gate split: sum.splits)

lemma rejected: "admit ctx = Inl r \<Longrightarrow> mw h ctx req = r"
  by (simp add: gate)

lemma admitted: "admit ctx = Inr ctx' \<Longrightarrow> mw h ctx req = h ctx' req"
  by (simp add: gate)

end

text \<open>
  A server runs its middleware in a chain, the outer one first.  Two gates in a row are a gate, whose
  decision is the inner one's on what the outer one passes.
\<close>

definition chain_admit :: "('ctx \<Rightarrow> 'res + 'ctx) \<Rightarrow> ('ctx \<Rightarrow> 'res + 'ctx) \<Rightarrow> 'ctx \<Rightarrow> 'res + 'ctx" where
  "chain_admit admit admit' ctx = rbind (admit ctx) admit'"

locale gate_chain = outer: gate_middleware mw admit + inner: gate_middleware mw' admit'
  for mw :: "('ctx \<Rightarrow> 'req \<Rightarrow> 'res) \<Rightarrow> 'ctx \<Rightarrow> 'req \<Rightarrow> 'res" and admit :: "'ctx \<Rightarrow> 'res + 'ctx"
    and mw' :: "('ctx \<Rightarrow> 'req \<Rightarrow> 'res) \<Rightarrow> 'ctx \<Rightarrow> 'req \<Rightarrow> 'res" and admit' :: "'ctx \<Rightarrow> 'res + 'ctx"

sublocale gate_chain \<subseteq> chain: gate_middleware "\<lambda>h. mw (mw' h)" "chain_admit admit admit'"
  by unfold_locales (simp add: outer.gate inner.gate chain_admit_def split: sum.split)

end
