(* ===== verification/Frame.thy ===== *)
theory Frame
  imports Prelude
begin

unbundle bit_operations_syntax

text \<open>
  The framing layer of the dump archives (\<^verbatim>\<open>backup/sqldump/frame.go\<close>): big-endian 32-bit
  lengths, length-prefixed blocks with their size cap, the magic, the chunked stream of a
  table with its zero-length terminator, and the reader that turns chunks back into one
  stream.  A writer is a state \<open>'w\<close> with a fallible append; a reader is the list of bytes it
  still holds, and what \<open>io.ReadFull\<close> reports at its end is part of the model.
\<close>

section \<open>Readers, writers and 32-bit lengths\<close>

datatype io_err =
    EOF
  | UnexpectedEOF
  | BlockTooLarge u32
  | BadMagic
  | DecodeManifest string

type_synonym 'w writer = "'w \<Rightarrow> byte list \<Rightarrow> (io_err, 'w) result"

text \<open>The writer that appends to a byte buffer and never fails.\<close>

definition buf_write :: "byte list writer" where
  "buf_write w b = Inr (w @ b)"

text \<open>\<open>io.ReadFull\<close>: \<open>EOF\<close> when nothing could be read, \<open>UnexpectedEOF\<close> when too little.\<close>

definition ReadFull :: "nat \<Rightarrow> byte list \<Rightarrow> (io_err, byte list) result \<times> byte list" where
  "ReadFull n r =
     (if n \<le> length r then (Inr (take n r), drop n r)
      else if r = [] then (Inl EOF, [])
      else (Inl UnexpectedEOF, []))"

text \<open>\<open>binary.Write\<close> and \<open>binary.Read\<close> of a \<open>uint32\<close> in big-endian order.\<close>

definition be32 :: "u32 \<Rightarrow> byte list" where
  "be32 n = [ucast (drop_bit 24 n), ucast (drop_bit 16 n), ucast (drop_bit 8 n), ucast n]"

fun de32 :: "byte list \<Rightarrow> u32" where
  "de32 [a, b, c, d] =
     push_bit 24 (ucast a) OR push_bit 16 (ucast b) OR push_bit 8 (ucast c) OR ucast d"
| "de32 _ = 0"

lemma length_be32 [simp]: "length (be32 n) = 4"
  by (simp add: be32_def)

lemma de32_be32 [simp]: "de32 (be32 n) = n"
proof (rule bit_word_eqI)
  fix k :: nat
  assume "k < LENGTH(32)"
  then consider "k < 8" | "8 \<le> k" "k < 16" | "16 \<le> k" "k < 24" | "24 \<le> k" "k < 32"
    by fastforce
  then show "bit (de32 (be32 n)) k = bit n k"
    by cases (auto simp: be32_def bit_simps)
qed

lemma be32_not_Nil [simp]: "be32 n \<noteq> []"
  by (simp add: be32_def)

lemma ReadFull_append: "n = length a \<Longrightarrow> ReadFull n (a @ b) = (Inr a, b)"
  by (simp add: ReadFull_def)

lemma ReadFull_be32 [simp]: "ReadFull 4 (be32 n @ r) = (Inr (be32 n), r)"
  by (simp add: ReadFull_append)

definition maxBlock :: u32 where
  "maxBlock = push_bit 20 256"

lemma maxBlock_eq: "maxBlock = 268435456"
  by (simp add: maxBlock_def push_bit_eq_mult)

lemma unat_maxBlock: "unat maxBlock = 2 ^ 28"
  by (simp add: maxBlock_eq)

text \<open>What a length fits: the sizes the readers accept never wrap.\<close>

lemma word_len_le_maxBlock:
  assumes "n \<le> 2 ^ 28"
  shows "unat (word_of_nat n :: u32) = n" and "word_of_nat n \<le> maxBlock"
    and "(word_of_nat n :: u32) = 0 \<longleftrightarrow> n = 0"
proof -
  show u: "unat (word_of_nat n :: u32) = n"
    using assms by (simp add: unat_of_nat)
  then show "word_of_nat n \<le> maxBlock"
    using assms by (simp add: word_le_nat_alt unat_maxBlock)
  show "(word_of_nat n :: u32) = 0 \<longleftrightarrow> n = 0"
  proof
    assume "(word_of_nat n :: u32) = 0"
    then have "unat (word_of_nat n :: u32) = 0" by (simp only: unat_0)
    then show "n = 0" by (simp only: u)
  qed simp
qed

section \<open>Length-prefixed blocks\<close>

definition writeBlock :: "'w writer \<Rightarrow> 'w \<Rightarrow> byte list \<Rightarrow> (io_err, 'w) result" where
  "writeBlock wr w b =
     (case wr w (be32 (word_of_nat (length b))) of
        Inl e \<Rightarrow> Inl e
      | Inr w' \<Rightarrow> wr w' b)"

definition readBlock :: "byte list \<Rightarrow> (io_err, byte list \<times> byte list) result" where
  "readBlock r =
     (case ReadFull 4 r of
        (Inl e, _) \<Rightarrow> Inl e
      | (Inr h, r') \<Rightarrow>
          let n = de32 h in
          if maxBlock < n then Inl (BlockTooLarge n)
          else (case ReadFull (unat n) r' of
                  (Inl e, _) \<Rightarrow> Inl e
                | (Inr b, r'') \<Rightarrow> Inr (b, r'')))"

definition block_bytes :: "byte list \<Rightarrow> byte list" where
  "block_bytes b = be32 (word_of_nat (length b)) @ b"

lemma writeBlock_buf: "writeBlock buf_write w b = Inr (w @ block_bytes b)"
  by (simp add: writeBlock_def buf_write_def block_bytes_def)

lemma readBlock_block_bytes:
  "length b \<le> 2 ^ 28 \<Longrightarrow> readBlock (block_bytes b @ rest) = Inr (b, rest)"
  using word_len_le_maxBlock[of "length b"]
  by (simp add: readBlock_def block_bytes_def Let_def ReadFull_append not_less)

interpretation block: self_delimiting block_bytes readBlock "\<lambda>b. length b \<le> 2 ^ 28"
  by unfold_locales (rule readBlock_block_bytes)

lemma readBlock_length: "readBlock r = Inr (b, r') \<Longrightarrow> length b \<le> 2 ^ 28 \<and> length r' + length b + 4 = length r"
  using unat_maxBlock
  by (auto simp: readBlock_def ReadFull_def Let_def not_less word_le_nat_alt
      split: sum.splits prod.splits if_splits)

section \<open>The chunked stream of a table\<close>

text \<open>\<^verbatim>\<open>chunkWriter.Write\<close> and \<^verbatim>\<open>chunkWriter.Close\<close>.\<close>

definition chunk_Write :: "'w writer \<Rightarrow> 'w \<Rightarrow> byte list \<Rightarrow> (io_err, 'w) result" where
  "chunk_Write wr w p =
     (if p = [] then Inr w
      else case wr w (be32 (word_of_nat (length p))) of
             Inl e \<Rightarrow> Inl e
           | Inr w' \<Rightarrow> wr w' p)"

definition chunk_Close :: "'w writer \<Rightarrow> 'w \<Rightarrow> (io_err, 'w) result" where
  "chunk_Close wr w = wr w (be32 0)"

text \<open>
  What \<open>CopyTo\<close> does with the destination: a sequence of \<open>Write\<close>s, then the source closes the
  stream itself.
\<close>

definition write_table :: "'w writer \<Rightarrow> 'w \<Rightarrow> byte list list \<Rightarrow> (io_err, 'w) result" where
  "write_table wr w ps =
     (case fold_err (chunk_Write wr) w ps of Inl e \<Rightarrow> Inl e | Inr w' \<Rightarrow> chunk_Close wr w')"

definition chunk_bytes :: "byte list \<Rightarrow> byte list" where
  "chunk_bytes p = (if p = [] then [] else be32 (word_of_nat (length p)) @ p)"

lemma write_chunks_buf:
  "fold_err (chunk_Write buf_write) w ps = Inr (w @ concat (map chunk_bytes ps))"
  by (induction ps arbitrary: w) (auto simp: chunk_Write_def buf_write_def chunk_bytes_def)

lemma chunk_Close_buf: "chunk_Close buf_write w = Inr (w @ be32 0)"
  by (simp add: chunk_Close_def buf_write_def)

lemma write_table_buf:
  "write_table buf_write w ps = Inr (w @ concat (map chunk_bytes ps) @ be32 0)"
  by (simp add: write_table_def write_chunks_buf chunk_Close_buf)

record chunkReader =
  cr_r :: "byte list"
  cr_buf :: "byte list"
  cr_eof :: bool

definition new_chunkReader :: "byte list \<Rightarrow> chunkReader" where
  "new_chunkReader r = \<lparr>cr_r = r, cr_buf = [], cr_eof = False\<rparr>"

text \<open>
  \<^verbatim>\<open>chunkReader.Read\<close> into a buffer of \<open>k\<close> bytes.  When the data of a chunk cannot be read
  in full, the buffer allocated for it stays in the reader, filled with what was read and
  zeros.
\<close>

definition chunk_Read :: "nat \<Rightarrow> chunkReader \<Rightarrow> (io_err, byte list) result \<times> chunkReader" where
  "chunk_Read k c =
     (if cr_buf c = [] then
        if cr_eof c then (Inl EOF, c)
        else
          (case ReadFull 4 (cr_r c) of
             (Inl e, r') \<Rightarrow> (Inl e, c\<lparr>cr_r := r'\<rparr>)
           | (Inr h, r') \<Rightarrow>
               let n = de32 h in
               if n = 0 then (Inl EOF, c\<lparr>cr_r := r', cr_eof := True\<rparr>)
               else if maxBlock < n then (Inl (BlockTooLarge n), c\<lparr>cr_r := r'\<rparr>)
               else
                 (case ReadFull (unat n) r' of
                    (Inl e, r'') \<Rightarrow>
                      (Inl e, c\<lparr>cr_r := r'', cr_buf := r' @ replicate (unat n - length r') 0\<rparr>)
                  | (Inr d, r'') \<Rightarrow>
                      (Inr (take k d), c\<lparr>cr_r := r'', cr_buf := drop k d\<rparr>)))
      else (Inr (take k (cr_buf c)), c\<lparr>cr_buf := drop k (cr_buf c)\<rparr>))"

definition cr_size :: "chunkReader \<Rightarrow> nat" where
  "cr_size c = length (cr_r c) + length (cr_buf c)"

lemma chunk_Read_smaller:
  assumes "chunk_Read k c = (Inr d, c')" and "0 < k"
  shows "cr_size c' < cr_size c"
proof (cases "cr_buf c = []")
  case True
  with assms(1) obtain h r' where h: "ReadFull 4 (cr_r c) = (Inr h, r')" and
    d: "\<exists>x r''. ReadFull (unat (de32 h)) r' = (Inr x, r'') \<and> c' = c\<lparr>cr_r := r'', cr_buf := drop k x\<rparr>"
    by (auto simp: chunk_Read_def Let_def split: if_splits sum.splits prod.splits)
  then show ?thesis using True
    by (auto simp: cr_size_def ReadFull_def split: if_splits)
next
  case False
  then have "c' = c\<lparr>cr_buf := drop k (cr_buf c)\<rparr>" using assms(1) by (simp add: chunk_Read_def)
  then show ?thesis using False assms(2) by (simp add: cr_size_def)
qed

text \<open>\<^verbatim>\<open>chunkReader.drain\<close>: reads 32 KiB at a time until the stream ends.\<close>

definition drain_buf :: nat where
  "drain_buf = 32 * 1024"

lemma drain_buf_pos [simp]: "0 < drain_buf"
  by (simp add: drain_buf_def)

function drain :: "chunkReader \<Rightarrow> (io_err, unit) result \<times> chunkReader" where
  "drain c =
     (case chunk_Read drain_buf c of
        (Inl e, c') \<Rightarrow> (if e = EOF then (Inr (), c') else (Inl e, c'))
      | (Inr _, c') \<Rightarrow> drain c')"
  by pat_completeness auto
termination
  by (relation "measure cr_size") (auto dest!: chunk_Read_smaller[OF sym])

declare drain.simps [simp del]

text \<open>
  What a consumer of the reader obtains by reading into a buffer of \<open>k\<close> bytes until
  \<open>io.EOF\<close>, as \<open>CopyFrom\<close> does with its own buffer.
\<close>

function read_stream :: "nat \<Rightarrow> chunkReader \<Rightarrow> (io_err, byte list) result \<times> chunkReader" where
  "read_stream k c =
     (case chunk_Read (Suc k) c of
        (Inl e, c') \<Rightarrow> (if e = EOF then (Inr [], c') else (Inl e, c'))
      | (Inr d, c') \<Rightarrow>
          (case read_stream k c' of
             (Inl e, c'') \<Rightarrow> (Inl e, c'')
           | (Inr ds, c'') \<Rightarrow> (Inr (d @ ds), c'')))"
  by pat_completeness auto
termination
  by (relation "measure (cr_size \<circ> snd)") (auto dest!: chunk_Read_smaller[OF sym])

declare read_stream.simps [simp del]

section \<open>Reading back what was written\<close>

text \<open>\<open>prepend d\<close> puts data in front of what a consumer obtains.\<close>

definition prepend :: "byte list \<Rightarrow> (io_err, byte list) result \<times> chunkReader
    \<Rightarrow> (io_err, byte list) result \<times> chunkReader" where
  "prepend d x = (case x of (Inl e, c) \<Rightarrow> (Inl e, c) | (Inr ds, c) \<Rightarrow> (Inr (d @ ds), c))"

lemma prepend_Nil [simp]: "prepend [] x = x"
  and prepend_prepend [simp]: "prepend a (prepend b x) = prepend (a @ b) x"
  and prepend_Inr [simp]: "prepend d (Inr ds, c) = (Inr (d @ ds), c)"
  and prepend_Inl [simp]: "prepend d (Inl e, c) = (Inl e, c)"
  by (auto simp: prepend_def split: prod.splits sum.splits)

lemma read_stream_step:
  "chunk_Read (Suc k) c = (Inr d, c') \<Longrightarrow> read_stream k c = prepend d (read_stream k c')"
  by (subst read_stream.simps) (auto simp: prepend_def split: prod.splits sum.splits)

lemma read_stream_stop:
  "chunk_Read (Suc k) c = (Inl e, c') \<Longrightarrow>
     read_stream k c = (if e = EOF then Inr [] else Inl e, c')"
  by (subst read_stream.simps) auto

text \<open>Whatever is buffered comes out first, whatever the consumer's buffer size.\<close>

lemma read_stream_buffered:
  "read_stream k c = prepend (cr_buf c) (read_stream k (c\<lparr>cr_buf := []\<rparr>))"
proof (induction "length (cr_buf c)" arbitrary: c rule: less_induct)
  case less
  show ?case
  proof (cases "cr_buf c = []")
    case True
    then show ?thesis by (cases c) simp
  next
    case False
    let ?c' = "c\<lparr>cr_buf := drop (Suc k) (cr_buf c)\<rparr>"
    have "read_stream k c = prepend (take (Suc k) (cr_buf c)) (read_stream k ?c')"
      using False by (intro read_stream_step) (simp add: chunk_Read_def)
    also have "read_stream k ?c' = prepend (cr_buf ?c') (read_stream k (?c'\<lparr>cr_buf := []\<rparr>))"
      using False by (intro less) simp
    finally show ?thesis by simp
  qed
qed

lemma chunk_Read_chunk:
  assumes "p \<noteq> []" and "length p \<le> 2 ^ 28"
  shows "chunk_Read k (new_chunkReader (chunk_bytes p @ r)) =
    (Inr (take k p), (new_chunkReader r)\<lparr>cr_buf := drop k p\<rparr>)"
  using assms word_len_le_maxBlock[of "length p"]
  by (simp add: chunk_Read_def new_chunkReader_def chunk_bytes_def Let_def ReadFull_append not_less)

lemma read_stream_chunk:
  assumes "length p \<le> 2 ^ 28"
  shows "read_stream k (new_chunkReader (chunk_bytes p @ r)) = prepend p (read_stream k (new_chunkReader r))"
proof (cases "p = []")
  case True
  then show ?thesis by (simp add: chunk_bytes_def)
next
  case False
  have [simp]: "(new_chunkReader r)\<lparr>cr_buf := []\<rparr> = new_chunkReader r"
    by (simp add: new_chunkReader_def)
  show ?thesis
    using read_stream_step[OF chunk_Read_chunk[OF False assms]]
      read_stream_buffered[of k "(new_chunkReader r)\<lparr>cr_buf := drop (Suc k) p\<rparr>"]
    by simp
qed

lemma read_stream_chunks:
  "\<forall>p \<in> set ps. length p \<le> 2 ^ 28 \<Longrightarrow>
   read_stream k (new_chunkReader (concat (map chunk_bytes ps) @ r)) =
     prepend (concat ps) (read_stream k (new_chunkReader r))"
  by (induction ps) (simp_all add: read_stream_chunk)

lemma read_stream_terminator:
  "read_stream k (new_chunkReader (be32 0 @ r)) =
     (Inr [], \<lparr>cr_r = r, cr_buf = [], cr_eof = True\<rparr>)"
  by (rule read_stream_stop[where e = EOF, simplified])
    (simp add: chunk_Read_def new_chunkReader_def Let_def)

text \<open>\<open>drain\<close> consumes exactly what a consumer with a 32 KiB buffer would.\<close>

lemma drain_read_stream:
  "drain c = (case read_stream (drain_buf - 1) c of
     (Inl e, c') \<Rightarrow> (Inl e, c') | (Inr _, c') \<Rightarrow> (Inr (), c'))"
proof (induction c rule: drain.induct)
  case (1 c)
  have k: "Suc (drain_buf - 1) = drain_buf" by (simp add: drain_buf_def)
  obtain res c' where r: "chunk_Read drain_buf c = (res, c')" by (cases "chunk_Read drain_buf c") auto
  show ?case
  proof (cases res)
    case (Inl e)
    with r have "read_stream (drain_buf - 1) c = (if e = EOF then Inr [] else Inl e, c')"
      by (intro read_stream_stop) (simp only: k)
    with r Inl show ?thesis by (subst drain.simps) simp
  next
    case (Inr d)
    with r have "read_stream (drain_buf - 1) c = prepend d (read_stream (drain_buf - 1) c')"
      by (intro read_stream_step) (simp only: k)
    moreover have "drain c = drain c'" using r Inr by (subst drain.simps) simp
    ultimately show ?thesis using 1 r Inr
      by (auto simp: prepend_def split: prod.splits sum.splits)
  qed
qed

text \<open>Reading a chunk that the archive does not hold in full.\<close>

lemma read_stream_cut:
  assumes "length p \<le> 2 ^ 28" and "j < length (chunk_bytes p)"
  shows "fst (read_stream k (new_chunkReader (take j (chunk_bytes p)))) =
    (if j = 0 \<or> j = 4 then Inr [] else Inl UnexpectedEOF)"
proof -
  have p: "p \<noteq> []" using assms(2) by (auto simp: chunk_bytes_def)
  then have b: "take j (chunk_bytes p) = take j (be32 (word_of_nat (length p))) @ take (j - 4) p"
    by (simp add: chunk_bytes_def)
  note w = word_len_le_maxBlock[OF assms(1)]
  have j: "j < 4 + length p" using assms(2) p by (simp add: chunk_bytes_def)
  have "\<exists>c'. chunk_Read (Suc k) (new_chunkReader (take j (chunk_bytes p))) =
    (Inl (if j = 0 \<or> j = 4 then EOF else UnexpectedEOF), c')"
  proof (cases "j < 4")
    case True
    then have "take j (chunk_bytes p) = take j (be32 (word_of_nat (length p)))" using b by simp
    moreover have "ReadFull 4 (take j (be32 (word_of_nat (length p)))) =
        (Inl (if j = 0 then EOF else UnexpectedEOF), [])"
      using True by (auto simp: ReadFull_def)
    ultimately show ?thesis using True
      by (simp add: chunk_Read_def new_chunkReader_def)
  next
    case False
    then have t: "take j (chunk_bytes p) = be32 (word_of_nat (length p)) @ take (j - 4) p" using b by simp
    have "ReadFull (length p) (take (j - 4) p) = (Inl (if j = 4 then EOF else UnexpectedEOF), [])"
      using j p False by (auto simp: ReadFull_def)
    then show ?thesis using p w False
      by (simp add: t chunk_Read_def new_chunkReader_def Let_def not_less)
  qed
  then show ?thesis by (auto dest: read_stream_stop)
qed

section \<open>Properties\<close>

text \<open>
  C6 (\<open>table_stream_roundtrip\<close>): whatever sequence of writes a table's COPY stream arrives
  in, as long as no single write exceeds the block cap, the framed bytes read back, with any
  consumer buffer size and anything following, to exactly the concatenated data, and the
  reader stops right behind the terminator, so that the next table starts where it should.
\<close>

theorem table_stream_roundtrip:
  assumes "\<forall>p \<in> set ps. length p \<le> 2 ^ 28"
  shows "\<exists>bs. write_table buf_write w ps = Inr (w @ bs) \<and>
    read_stream k (new_chunkReader (bs @ rest)) =
      (Inr (concat ps), \<lparr>cr_r = rest, cr_buf = [], cr_eof = True\<rparr>)"
  using assms by (simp add: write_table_buf read_stream_chunks read_stream_terminator)

theorem table_stream_roundtrip_witness:
  "\<exists>bs. write_table buf_write [] [[1, 2], [], [3]] = Inr bs \<and>
    read_stream 0 (new_chunkReader (bs @ [9])) =
      (Inr [1, 2, 3], \<lparr>cr_r = [9], cr_buf = [], cr_eof = True\<rparr>)"
  using table_stream_roundtrip[of "[[1, 2], [], [3]]" "[]" 0 "[9]"] by simp

text \<open>
  \<open>drain_skips_table\<close>: skipping a table on restore consumes its whole stream, the
  terminator included, and nothing of what follows, and reports no error.
\<close>

theorem drain_skips_table:
  assumes "\<forall>p \<in> set ps. length p \<le> 2 ^ 28"
    and "write_table buf_write [] ps = Inr bs"
  shows "drain (new_chunkReader (bs @ rest)) =
    (Inr (), \<lparr>cr_r = rest, cr_buf = [], cr_eof = True\<rparr>)"
  using assms by (auto simp: drain_read_stream write_table_buf read_stream_chunks read_stream_terminator)

theorem drain_skips_table_witness:
  "drain (new_chunkReader ([0, 0, 0, 2, 5, 6, 0, 0, 0, 0] @ [7])) =
    (Inr (), \<lparr>cr_r = [7], cr_buf = [], cr_eof = True\<rparr>)"
  by (rule drain_skips_table[of "[[5, 6]]"])
    (simp_all add: write_table_buf chunk_bytes_def be32_def)

text \<open>
  C29 (\<open>truncated_table_stream\<close>): which truncations of an archive the chunk reader detects.  A
  stream cut inside a length word or inside a chunk's data is reported as an unexpected end;
  but a stream that ends between two chunks, or right behind a length word, is
  indistinguishable from a finished one: the consumer gets a normal end of data although the
  terminator was never read.
\<close>

theorem truncated_table_stream:
  assumes "\<forall>q \<in> set ps. length q \<le> 2 ^ 28" and "length p \<le> 2 ^ 28"
    and "j < length (chunk_bytes p)"
  shows "fst (read_stream k (new_chunkReader (concat (map chunk_bytes ps) @ take j (chunk_bytes p)))) =
    (if j = 0 \<or> j = 4 then Inr (concat ps) else Inl UnexpectedEOF)"
  using read_stream_cut[OF assms(2,3), of k]
  by (auto simp: read_stream_chunks[OF assms(1)] prepend_def split: prod.splits sum.splits if_splits)

theorem truncated_table_stream_witness:
  "fst (read_stream 3 (new_chunkReader
     (concat (map chunk_bytes [[1]]) @ take 4 (chunk_bytes [2, 3])))) = Inr [1]"
  using truncated_table_stream[of "[[1]]" "[2, 3]" 4 3] by (simp add: chunk_bytes_def)

text \<open>
  \<open>block_roundtrip_iff\<close>: a block (a manifest or an extra) written by \<open>writeBlock\<close> reads
  back unchanged when it has at most 256 MiB; a larger one is written all the same and then
  refused by \<open>readBlock\<close>, which does not look at its data.
\<close>

theorem block_roundtrip_iff:
  assumes "length b < 2 ^ 32" and "writeBlock buf_write [] b = Inr bs"
  shows "readBlock (bs @ rest) =
    (if length b \<le> 2 ^ 28 then Inr (b, rest) else Inl (BlockTooLarge (word_of_nat (length b))))"
proof (cases "length b \<le> 2 ^ 28")
  case True
  then show ?thesis using assms(2) by (auto simp: writeBlock_buf readBlock_block_bytes)
next
  case False
  have "unat (word_of_nat (length b) :: u32) = length b"
    using assms(1) by (simp add: unat_of_nat)
  then have "maxBlock < word_of_nat (length b)"
    using False by (simp add: word_less_nat_alt unat_maxBlock)
  then show ?thesis using False assms(2)
    by (auto simp: writeBlock_buf readBlock_def block_bytes_def Let_def)
qed

theorem block_roundtrip_iff_witness:
  "readBlock ([0, 0, 0, 2, 8, 9] @ [1]) = Inr ([8, 9], [1])"
  using block_roundtrip_iff[of "[8, 9]" "[0, 0, 0, 2, 8, 9]" "[1]"]
  by (simp add: writeBlock_buf block_bytes_def be32_def)

end
