(* ===== verification/GoStrings.thy ===== *)
theory GoStrings
  imports Prelude
begin

text \<open>
  The part of Go's standard packages \<^verbatim>\<open>strings\<close> and \<^verbatim>\<open>strconv\<close> that the source calls,
  as executable functions on byte strings, with the algebra the component proofs use:
  splitting and joining, trimming, prefixes, searching, ASCII case mapping, and the decimal
  conversions with their round trips and range checks.

  The letter mappings (\<open>ToLower\<close>, \<open>ToUpper\<close>, \<open>EqualFold\<close>) and \<open>TrimSpace\<close> act on ASCII
  bytes and leave the others alone; the strings the source applies them to are header names,
  HTTP methods, hexadecimal fingerprints, module identifiers and configuration values.
\<close>

section \<open>Prefixes and suffixes\<close>

definition HasPrefix :: "string \<Rightarrow> string \<Rightarrow> bool" where
  "HasPrefix s p = (length p \<le> length s \<and> take (length p) s = p)"

definition HasSuffix :: "string \<Rightarrow> string \<Rightarrow> bool" where
  "HasSuffix s p = (length p \<le> length s \<and> drop (length s - length p) s = p)"

definition TrimPrefix :: "string \<Rightarrow> string \<Rightarrow> string" where
  "TrimPrefix s p = (if HasPrefix s p then drop (length p) s else s)"

definition TrimSuffix :: "string \<Rightarrow> string \<Rightarrow> string" where
  "TrimSuffix s p = (if HasSuffix s p then take (length s - length p) s else s)"

lemma HasPrefix_iff: "HasPrefix s p \<longleftrightarrow> (\<exists>t. s = p @ t)"
  by (auto simp: HasPrefix_def) (metis append_take_drop_id)

lemma HasSuffix_iff: "HasSuffix s p \<longleftrightarrow> (\<exists>t. s = t @ p)"
  by (auto simp: HasSuffix_def) (metis append_take_drop_id)

lemma HasPrefix_append [simp]: "HasPrefix (p @ s) p"
  by (simp add: HasPrefix_def)

lemma HasSuffix_append [simp]: "HasSuffix (s @ p) p"
  by (simp add: HasSuffix_def)

lemma TrimPrefix_append [simp]: "TrimPrefix (p @ s) p = s"
  by (simp add: TrimPrefix_def)

lemma TrimSuffix_append [simp]: "TrimSuffix (s @ p) p = s"
  by (simp add: TrimSuffix_def)

section \<open>Searching\<close>

text \<open>\<open>strings.Index\<close>: the first position, \<open>None\<close> where Go returns -1.\<close>

fun Index :: "string \<Rightarrow> string \<Rightarrow> nat option" where
  "Index [] p = (if p = [] then Some 0 else None)"
| "Index (c # s) p = (if HasPrefix (c # s) p then Some 0 else map_option Suc (Index s p))"

definition Contains :: "string \<Rightarrow> string \<Rightarrow> bool" where
  "Contains s p = (Index s p \<noteq> None)"

lemma Index_Some_le: "Index s p = Some i \<Longrightarrow> i + length p \<le> length s"
  by (induction s p arbitrary: i rule: Index.induct)
    (auto simp: HasPrefix_def split: if_splits)

lemma Index_char_None: "Index s [c] = None \<longleftrightarrow> c \<notin> set s"
  by (induction s) (auto simp: HasPrefix_def)

lemma Index_char_Some:
  "Index s [c] = Some i \<longleftrightarrow> i < length s \<and> s ! i = c \<and> c \<notin> set (take i s)"
proof (induction s arbitrary: i)
  case Nil
  then show ?case by simp
next
  case (Cons d s)
  then show ?case by (cases i) (auto simp: HasPrefix_def)
qed

lemma Contains_iff: "Contains s p \<longleftrightarrow> (\<exists>a b. s = a @ p @ b)"
proof (induction s)
  case Nil
  then show ?case by (auto simp: Contains_def)
next
  case (Cons c s)
  have "(\<exists>a b. c # s = a @ p @ b) \<longleftrightarrow> (\<exists>b. c # s = p @ b) \<or> (\<exists>a b. s = a @ p @ b)"
    by (metis append_Cons append_eq_Cons_conv append_self_conv2)
  then show ?case using Cons.IH by (auto simp: Contains_def HasPrefix_iff)
qed

text \<open>\<open>strings.LastIndex\<close> for a one-byte separator.\<close>

definition LastIndexByte :: "string \<Rightarrow> char \<Rightarrow> nat option" where
  "LastIndexByte s c = map_option (\<lambda>i. length s - 1 - i) (Index (rev s) [c])"

section \<open>Splitting and joining\<close>

text \<open>\<open>strings.Split\<close> with a one-byte separator: never empty.\<close>

fun Split :: "char \<Rightarrow> string \<Rightarrow> string list" where
  "Split c [] = [[]]"
| "Split c (x # xs) =
     (if x = c then [] # Split c xs else (x # hd (Split c xs)) # tl (Split c xs))"

fun Join :: "string \<Rightarrow> string list \<Rightarrow> string" where
  "Join sep [] = []"
| "Join sep [p] = p"
| "Join sep (p # q # ps) = p @ sep @ Join sep (q # ps)"

lemma Split_not_Nil [simp]: "Split c s \<noteq> []"
  by (cases s) auto

lemma Split_no_sep: "p \<in> set (Split c s) \<Longrightarrow> c \<notin> set p"
proof (induction s arbitrary: p)
  case Nil
  then show ?case by simp
next
  case (Cons x xs)
  have "hd (Split c xs) \<in> set (Split c xs)" by simp
  moreover have "set (tl (Split c xs)) \<subseteq> set (Split c xs)"
    by (meson list.set_sel(2) subsetI Split_not_Nil)
  ultimately show ?case using Cons by (auto split: if_splits)
qed

lemma Join_Cons_char [simp]: "Join sep ((x # p) # ps) = x # Join sep (p # ps)"
  by (cases ps) auto

lemma Join_Split [simp]: "Join [c] (Split c s) = s"
proof (induction s)
  case Nil
  then show ?case by simp
next
  case (Cons x xs)
  then show ?case
    by (cases "Split c xs") auto
qed

lemma Split_sep_free: "c \<notin> set s \<Longrightarrow> Split c s = [s]"
  by (induction s) auto

lemma Split_append_sep: "c \<notin> set p \<Longrightarrow> Split c (p @ c # s) = p # Split c s"
  by (induction p) auto

lemma Split_Join:
  "ps \<noteq> [] \<Longrightarrow> (\<And>p. p \<in> set ps \<Longrightarrow> c \<notin> set p) \<Longrightarrow> Split c (Join [c] ps) = ps"
  by (induction ps rule: induct_list012) (auto simp: Split_sep_free Split_append_sep)

lemma Split_inj: "Split c s = Split c t \<Longrightarrow> s = t"
  by (metis Join_Split)

section \<open>Trimming\<close>

text \<open>\<open>strings.Trim(s, c)\<close> for a one-byte cutset, and \<open>strings.TrimSpace\<close>.\<close>

definition TrimByte :: "char \<Rightarrow> string \<Rightarrow> string" where
  "TrimByte c s = rev (dropWhile (\<lambda>x. x = c) (rev (dropWhile (\<lambda>x. x = c) s)))"

definition is_space :: "char \<Rightarrow> bool" where
  "is_space c = (c \<in> {CHR '' '', CHR 0x09, CHR 0x0A, CHR 0x0B, CHR 0x0C, CHR 0x0D})"

definition TrimSpace :: "string \<Rightarrow> string" where
  "TrimSpace s = rev (dropWhile is_space (rev (dropWhile is_space s)))"

lemma TrimByte_id: "s \<noteq> [] \<Longrightarrow> hd s \<noteq> c \<Longrightarrow> last s \<noteq> c \<Longrightarrow> TrimByte c s = s"
proof -
  assume a: "s \<noteq> []" "hd s \<noteq> c" "last s \<noteq> c"
  have "dropWhile (\<lambda>x. x = c) s = s"
    using a(1,2) by (cases s) auto
  moreover have "dropWhile (\<lambda>x. x = c) (rev s) = rev s"
    using a(1,3) by (cases "rev s") (auto simp: last_rev[symmetric] hd_rev)
  ultimately show ?thesis by (simp add: TrimByte_def)
qed

lemma TrimByte_Cons [simp]: "TrimByte c (c # s) = TrimByte c s"
  by (simp add: TrimByte_def)

section \<open>ASCII case mapping\<close>

definition is_upper :: "char \<Rightarrow> bool" where
  "is_upper c = (65 \<le> (of_char c :: nat) \<and> (of_char c :: nat) \<le> 90)"

definition is_lower :: "char \<Rightarrow> bool" where
  "is_lower c = (97 \<le> (of_char c :: nat) \<and> (of_char c :: nat) \<le> 122)"

definition lower_char :: "char \<Rightarrow> char" where
  "lower_char c = (if is_upper c then char_of ((of_char c :: nat) + 32) else c)"

definition upper_char :: "char \<Rightarrow> char" where
  "upper_char c = (if is_lower c then char_of ((of_char c :: nat) - 32) else c)"

definition ToLower :: "string \<Rightarrow> string" where
  "ToLower s = map lower_char s"

definition ToUpper :: "string \<Rightarrow> string" where
  "ToUpper s = map upper_char s"

definition EqualFold :: "string \<Rightarrow> string \<Rightarrow> bool" where
  "EqualFold s t = (ToLower s = ToLower t)"

lemma lower_char_idem [simp]: "lower_char (lower_char c) = lower_char c"
  by (simp add: lower_char_def is_upper_def of_char_of)

lemma ToLower_idem [simp]: "ToLower (ToLower s) = ToLower s"
  by (simp add: ToLower_def)

lemma length_ToLower [simp]: "length (ToLower s) = length s"
  by (simp add: ToLower_def)

lemma EqualFold_refl [simp]: "EqualFold s s"
  and EqualFold_sym: "EqualFold s t \<Longrightarrow> EqualFold t s"
  and EqualFold_trans: "EqualFold s t \<Longrightarrow> EqualFold t u \<Longrightarrow> EqualFold s u"
  by (simp_all add: EqualFold_def)

lemma EqualFold_length: "EqualFold s t \<Longrightarrow> length s = length t"
  by (metis EqualFold_def length_ToLower)

section \<open>Decimal conversions\<close>

definition digit_char :: "nat \<Rightarrow> char" where
  "digit_char d = char_of (48 + d)"

definition digit_val :: "char \<Rightarrow> nat option" where
  "digit_val c = (let n = (of_char c :: nat) in if 48 \<le> n \<and> n \<le> 57 then Some (n - 48) else None)"

text \<open>\<open>strconv.FormatUint(n, 10)\<close> and \<open>strconv.FormatInt(n, 10)\<close>.\<close>

fun FormatUint :: "nat \<Rightarrow> string" where
  "FormatUint n = (if n < 10 then [digit_char n] else FormatUint (n div 10) @ [digit_char (n mod 10)])"

declare FormatUint.simps [simp del]

definition FormatInt :: "int \<Rightarrow> string" where
  "FormatInt i = (if i < 0 then CHR ''-'' # FormatUint (nat (- i)) else FormatUint (nat i))"

text \<open>
  \<open>strconv.ParseUint(s, 10, bits)\<close> and \<open>strconv.ParseInt(s, 10, bits)\<close>: a syntax error and
  a value out of range both yield \<open>None\<close>, which is all the callers look at.
\<close>

fun parse_digits :: "nat \<Rightarrow> string \<Rightarrow> nat option" where
  "parse_digits acc [] = Some acc"
| "parse_digits acc (c # s) =
     (case digit_val c of None \<Rightarrow> None | Some d \<Rightarrow> parse_digits (10 * acc + d) s)"

definition ParseUint :: "nat \<Rightarrow> string \<Rightarrow> nat option" where
  "ParseUint bits s =
     (if s = [] then None
      else case parse_digits 0 s of
             None \<Rightarrow> None
           | Some n \<Rightarrow> if n < 2 ^ bits then Some n else None)"

definition ParseInt :: "nat \<Rightarrow> string \<Rightarrow> int option" where
  "ParseInt bits s =
     (let neg = (s \<noteq> [] \<and> hd s = CHR ''-'');
          t = (if s \<noteq> [] \<and> (hd s = CHR ''-'' \<or> hd s = CHR ''+'') then tl s else s)
      in case ParseUint bits t of
           None \<Rightarrow> None
         | Some n \<Rightarrow>
             if \<not> neg \<and> 2 ^ (bits - 1) \<le> n then None
             else if neg \<and> 2 ^ (bits - 1) < n then None
             else Some (if neg then - int n else int n))"

text \<open>\<open>strconv.ParseBool\<close>.\<close>

definition ParseBool :: "string \<Rightarrow> bool option" where
  "ParseBool s =
     (if s \<in> {''1'', ''t'', ''T'', ''TRUE'', ''true'', ''True''} then Some True
      else if s \<in> {''0'', ''f'', ''F'', ''FALSE'', ''false'', ''False''} then Some False
      else None)"

definition FormatBool :: "bool \<Rightarrow> string" where
  "FormatBool b = (if b then ''true'' else ''false'')"

lemma digit_val_digit_char [simp]: "d < 10 \<Longrightarrow> digit_val (digit_char d) = Some d"
  by (simp add: digit_val_def digit_char_def Let_def of_char_of)

lemma digit_val_not_special:
  "digit_val c \<noteq> None \<Longrightarrow> c \<noteq> CHR ''-'' \<and> c \<noteq> CHR ''+'' \<and> c \<noteq> CHR 0x0A \<and> c \<noteq> CHR '',''"
  by (auto simp: digit_val_def)

lemma parse_digits_append:
  "parse_digits acc (s @ t) = (case parse_digits acc s of None \<Rightarrow> None | Some n \<Rightarrow> parse_digits n t)"
  by (induction s arbitrary: acc) (auto split: option.splits)

lemma FormatUint_not_Nil [simp]: "FormatUint n \<noteq> []"
  by (subst FormatUint.simps) simp

lemma parse_digits_FormatUint: "parse_digits 0 (FormatUint n) = Some n"
proof (induction n rule: FormatUint.induct)
  case (1 n)
  then show ?case
    by (cases "n < 10") (auto simp: FormatUint.simps[of n] parse_digits_append)
qed

lemma FormatUint_digits: "c \<in> set (FormatUint n) \<Longrightarrow> digit_val c \<noteq> None"
proof (induction n rule: FormatUint.induct)
  case (1 n)
  then show ?case
    by (cases "n < 10") (auto simp: FormatUint.simps[of n])
qed

lemma ParseUint_FormatUint: "n < 2 ^ bits \<Longrightarrow> ParseUint bits (FormatUint n) = Some n"
  by (simp add: ParseUint_def parse_digits_FormatUint)

lemma ParseUint_bound: "ParseUint bits s = Some n \<Longrightarrow> n < 2 ^ bits"
  by (auto simp: ParseUint_def split: if_splits option.splits)

lemma ParseInt_bounds:
  assumes "ParseInt bits s = Some i"
  shows "- (2 ^ (bits - 1)) \<le> i \<and> i < 2 ^ (bits - 1)"
proof -
  obtain n :: nat where "i = int n \<and> n < 2 ^ (bits - 1) \<or> i = - int n \<and> n \<le> 2 ^ (bits - 1)"
    using assms by (auto simp: ParseInt_def Let_def not_le not_less split: if_splits option.splits)
  then have "i = int n \<and> int n < 2 ^ (bits - 1) \<or> i = - int n \<and> int n \<le> 2 ^ (bits - 1)"
    by simp
  moreover have "(0::int) < 2 ^ (bits - 1)" by simp
  ultimately show ?thesis by linarith
qed

lemma FormatUint_hd: "hd (FormatUint n) \<noteq> CHR ''-'' \<and> hd (FormatUint n) \<noteq> CHR ''+''"
  using FormatUint_digits[of "hd (FormatUint n)" n] digit_val_not_special by auto

lemma FormatUint_inj: "FormatUint m = FormatUint n \<Longrightarrow> m = n"
  by (metis parse_digits_FormatUint option.inject)

lemma FormatInt_inj: "FormatInt i = FormatInt j \<Longrightarrow> i = j"
proof (cases "i < 0"; cases "j < 0")
  assume "FormatInt i = FormatInt j" "i < 0" "j < 0"
  then show ?thesis by (auto simp: FormatInt_def dest!: FormatUint_inj)
next
  assume "FormatInt i = FormatInt j" "i < 0" "\<not> j < 0"
  then show ?thesis using FormatUint_hd[of "nat j"] by (auto simp: FormatInt_def dest: arg_cong[of _ _ hd])
next
  assume "FormatInt i = FormatInt j" "\<not> i < 0" "j < 0"
  then show ?thesis using FormatUint_hd[of "nat i"] by (auto simp: FormatInt_def dest: arg_cong[of _ _ hd])
next
  assume "FormatInt i = FormatInt j" "\<not> i < 0" "\<not> j < 0"
  then show ?thesis by (auto simp: FormatInt_def dest!: FormatUint_inj)
qed

lemma FormatInt_no_newline: "CHR 0x0A \<notin> set (FormatInt i)"
proof
  assume "CHR 0x0A \<in> set (FormatInt i)"
  then obtain n where "CHR 0x0A \<in> set (FormatUint n)"
    by (auto simp: FormatInt_def split: if_splits)
  then have "digit_val (CHR 0x0A) \<noteq> None" by (rule FormatUint_digits)
  then show False by (simp add: digit_val_def)
qed

lemma ParseInt_FormatInt:
  assumes "0 < bits" and "- (2 ^ (bits - 1)) \<le> i" and "i < 2 ^ (bits - 1)"
  shows "ParseInt bits (FormatInt i) = Some i"
proof (cases "i < 0")
  case True
  have k: "nat (- i) \<le> 2 ^ (bits - 1)" using assms(2) by (simp add: nat_le_iff)
  moreover have "(2::nat) ^ (bits - 1) < 2 ^ bits" using assms(1) by simp
  ultimately have "ParseUint bits (FormatUint (nat (- i))) = Some (nat (- i))"
    by (intro ParseUint_FormatUint) linarith
  then show ?thesis using True k by (simp add: ParseInt_def FormatInt_def Let_def)
next
  case False
  then have k: "nat i < 2 ^ (bits - 1)" using assms(3) by (simp add: nat_less_iff)
  moreover have "(2::nat) ^ (bits - 1) < 2 ^ bits" using assms(1) by simp
  ultimately have "ParseUint bits (FormatUint (nat i)) = Some (nat i)"
    by (intro ParseUint_FormatUint) linarith
  then show ?thesis using False k FormatUint_hd[of "nat i"]
    by (simp add: ParseInt_def FormatInt_def Let_def)
qed

section \<open>Host and port\<close>

text \<open>
  \<open>net.SplitHostPort\<close>: the port stands behind the last colon; a host that contains colons is
  in square brackets.  \<open>None\<close> is any of its errors.
\<close>

definition SplitHostPort :: "string \<Rightarrow> (string \<times> string) option" where
  "SplitHostPort hp =
     (case LastIndexByte hp CHR '':'' of
        None \<Rightarrow> None
      | Some i \<Rightarrow>
          if hd hp = CHR ''['' then
            (case Index hp '']'' of
               None \<Rightarrow> None
             | Some e \<Rightarrow>
                 if e + 1 = i \<and> CHR ''['' \<notin> set (drop 1 hp) \<and> CHR '']'' \<notin> set (drop (e + 1) hp)
                 then Some (take (e - 1) (drop 1 hp), drop (i + 1) hp) else None)
          else if CHR '':'' \<in> set (take i hp) then None
          else if CHR ''['' \<in> set hp \<or> CHR '']'' \<in> set hp then None
          else Some (take i hp, drop (i + 1) hp))"

lemma LastIndexByte_append:
  assumes "c \<notin> set t"
  shows "LastIndexByte (s @ c # t) c = Some (length s)"
proof -
  have "Index (rev t @ c # rev s) [c] = Some (length t)"
    using assms nth_append_length[of "rev t" c "rev s"] by (simp add: Index_char_Some)
  then show ?thesis by (simp add: LastIndexByte_def)
qed

lemma LastIndexByte_None: "LastIndexByte s c = None \<longleftrightarrow> c \<notin> set s"
  by (simp add: LastIndexByte_def Index_char_None)

lemma SplitHostPort_plain:
  assumes "set h \<inter> {CHR '':'', CHR ''['', CHR '']''} = {}" and "set p \<inter> {CHR '':'', CHR ''['', CHR '']''} = {}"
  shows "SplitHostPort (h @ CHR '':'' # p) = Some (h, p)"
proof -
  have "LastIndexByte (h @ CHR '':'' # p) CHR '':'' = Some (length h)"
    using assms(2) by (intro LastIndexByte_append) auto
  moreover have "hd (h @ CHR '':'' # p) \<noteq> CHR ''[''" using assms(1) by (cases h) auto
  ultimately show ?thesis using assms by (auto simp: SplitHostPort_def)
qed

end
