(* ===== verification/SqlDump.thy ===== *)
theory SqlDump
  imports Frame GoStrings "HOL-Library.List_Lexorder" "HOL-Library.Char_ord"
begin

text \<open>
  The dump and restore engine (\<^verbatim>\<open>backup/sqldump\<close>): table metadata and its introspection, the
  manifest and archive header, \<open>Dump\<close>, \<open>Restore\<close> with the staging-table merge, and the
  column-set helpers.

  PostgreSQL and its driver are not part of the repository: the operations the engine asks of
  them are the fields of a record \<open>pg\<close>, over an abstract transaction state \<open>'tx\<close> and
  database state \<open>'db\<close>.  JSON encoding of the manifest is a parameter too.  The SQL text is
  built here exactly as the source builds it.
\<close>

section \<open>Data\<close>

record Column =
  c_Name :: string
  c_Type :: string
  c_Serial :: bool

record TableMeta =
  tm_Name :: string
  tm_Columns :: "Column list"
  tm_PK :: "string list"

record Manifest =
  mf_Module :: string
  mf_Format :: string
  mf_CreatedAt :: string
  mf_Tables :: "TableMeta list"
  mf_Extras :: "string list"

datatype RestoreMode = RestoreMerge | RestoreFullSync

definition mode_String :: "RestoreMode \<Rightarrow> string" where
  "mode_String m = (if m = RestoreFullSync then ''full-sync'' else ''merge'')"

record Options =
  o_Module :: string
  o_Tables :: "string list"
  o_Exclude :: "string list"

record Engine =
  e_dsn :: string
  e_opts :: Options

record TableResult =
  tr_Table :: string
  tr_Rows :: int
  tr_Deleted :: int
  tr_Skipped :: bool
  tr_Note :: string

record Result =
  r_Mode :: string
  r_Tables :: "TableResult list"
  r_Warnings :: "string list"

datatype sd_err =
    Err string
  | ErrIO string io_err
  | ErrDB string string
  | ErrWrap string sd_err

definition archiveFormat :: string where
  "archiveFormat = ''copy-text-v1''"

definition colNames :: "TableMeta \<Rightarrow> string list" where
  "colNames t = map c_Name (tm_Columns t)"

section \<open>The database as the engine sees it\<close>

datatype key_query = PrimaryKeyQuery | UniqueKeyQuery

text \<open>
  The rows of a query as its cursor gives them: what scanning each row yields, and the error, if
  any, that the cursor reports at the end.
\<close>

record 'a Rows =
  rw_scans :: "(string, 'a) result list"
  rw_Err :: "string option"

text \<open>The connection (\<^verbatim>\<open>pgx.Conn\<close>), its transactions and what the engine asks of them (\<^verbatim>\<open>querier\<close>).\<close>

record ('db, 'tx) pg =
  pg_connect :: "'db \<Rightarrow> string \<Rightarrow> (string, unit) result"
  pg_begin :: "'db \<Rightarrow> (string, 'tx) result"
  pg_commit :: "'tx \<Rightarrow> (string, 'db) result"
  pg_rollback :: "'tx \<Rightarrow> (string, unit) result"
  pg_exec :: "'tx \<Rightarrow> string \<Rightarrow> string list \<Rightarrow> (string, int \<times> 'tx) result"
  pg_regclass :: "'tx \<Rightarrow> string \<Rightarrow> (string, u32) result \<times> 'tx"
  pg_columns :: "'tx \<Rightarrow> string \<Rightarrow> u32 \<Rightarrow> (string, Column Rows) result \<times> 'tx"
  pg_strings :: "'tx \<Rightarrow> key_query \<Rightarrow> u32 \<Rightarrow> (string, string Rows) result \<times> 'tx"
  pg_copy_to :: "'tx \<Rightarrow> string \<Rightarrow> (string, byte list list) result \<times> 'tx"
  pg_copy_from :: "'tx \<Rightarrow> string \<Rightarrow> byte list \<Rightarrow> (string, 'tx) result"
  pg_quote :: "string \<Rightarrow> string"

section \<open>Engine\<close>

definition new_Engine :: "string \<Rightarrow> Options \<Rightarrow> Engine" where
  "new_Engine dsn opts = \<lparr>e_dsn = dsn, e_opts = opts\<rparr>"

definition connect :: "('db, 'tx) pg \<Rightarrow> 'db \<Rightarrow> Engine \<Rightarrow> (sd_err, unit) result" where
  "connect pg db e = wrap_err (ErrDB ''sqldump: connect'') (pg_connect pg db (e_dsn e))"

definition effectiveTables :: "Engine \<Rightarrow> string list" where
  "effectiveTables e =
     (if o_Exclude (e_opts e) = [] then o_Tables (e_opts e)
      else let skip = set_of_loop (o_Exclude (e_opts e))
           in filter (\<lambda>t. \<not> skip t) (o_Tables (e_opts e)))"

definition quoteCols :: "(string \<Rightarrow> string) \<Rightarrow> string list \<Rightarrow> string" where
  "quoteCols q cols = Join '', '' (map q cols)"

section \<open>Introspection\<close>

definition tableOID :: "('db, 'tx) pg \<Rightarrow> 'tx \<Rightarrow> string \<Rightarrow> (sd_err, u32) result \<times> 'tx" where
  "tableOID pg tx table =
     (case pg_regclass pg tx (''public.'' @ table) of
        (Inl e, tx') \<Rightarrow> (Inl (ErrDB (''sqldump: resolve table '' @ table) e), tx')
      | (Inr oid, tx') \<Rightarrow>
          if oid = 0 then (Inl (Err (''sqldump: table '' @ table @ '' does not exist'')), tx')
          else (Inr oid, tx'))"

text \<open>The loop over a cursor: it stops at the first row that cannot be scanned.\<close>

fun scan_rows :: "(string, 'a) result list \<Rightarrow> string option \<Rightarrow> (string, 'a list) result" where
  "scan_rows [] None = Inr []"
| "scan_rows [] (Some e) = Inl e"
| "scan_rows (Inl e # rs) err = Inl e"
| "scan_rows (Inr x # rs) err = rbind (scan_rows rs err) (\<lambda>xs. Inr (x # xs))"

definition scanStrings :: "('db, 'tx) pg \<Rightarrow> 'tx \<Rightarrow> key_query \<Rightarrow> u32 \<Rightarrow> (sd_err, string list) result \<times> 'tx" where
  "scanStrings pg tx q oid =
     (case pg_strings pg tx q oid of
        (Inl e, tx') \<Rightarrow> (Inl (ErrDB [] e), tx')
      | (Inr rows, tx') \<Rightarrow> (wrap_err (ErrDB []) (scan_rows (rw_scans rows) (rw_Err rows)), tx'))"

definition keyColumns :: "('db, 'tx) pg \<Rightarrow> 'tx \<Rightarrow> u32 \<Rightarrow> (sd_err, string list) result \<times> 'tx" where
  "keyColumns pg tx oid =
     (case scanStrings pg tx PrimaryKeyQuery oid of
        (Inl e, tx') \<Rightarrow> (Inl e, tx')
      | (Inr cols, tx') \<Rightarrow>
          if cols \<noteq> [] then (Inr cols, tx') else scanStrings pg tx' UniqueKeyQuery oid)"

definition introspect :: "('db, 'tx) pg \<Rightarrow> 'tx \<Rightarrow> string \<Rightarrow> (sd_err, TableMeta) result \<times> 'tx" where
  "introspect pg tx table =
     (case tableOID pg tx table of
        (Inl e, tx1) \<Rightarrow> (Inl e, tx1)
      | (Inr oid, tx1) \<Rightarrow>
          (case pg_columns pg tx1 (''public.'' @ table) oid of
             (Inl e, tx2) \<Rightarrow> (Inl (ErrDB (''sqldump: columns for '' @ table) e), tx2)
           | (Inr rows, tx2) \<Rightarrow>
               (case scan_rows (rw_scans rows) (rw_Err rows) of
                  Inl e \<Rightarrow> (Inl (ErrDB [] e), tx2)
                | Inr cols \<Rightarrow>
                    if cols = [] then (Inl (Err (''sqldump: table '' @ table @ '' has no columns'')), tx2)
                    else (case keyColumns pg tx2 oid of
                            (Inl e, tx3) \<Rightarrow> (Inl e, tx3)
                          | (Inr pk, tx3) \<Rightarrow>
                              (Inr \<lparr>tm_Name = table, tm_Columns = cols, tm_PK = pk\<rparr>, tx3)))))"

fun introspect_all :: "('db, 'tx) pg \<Rightarrow> 'tx \<Rightarrow> string list \<Rightarrow> (sd_err, TableMeta list \<times> 'tx) result" where
  "introspect_all pg tx [] = Inr ([], tx)"
| "introspect_all pg tx (t # ts) =
     (case introspect pg tx t of
        (Inl e, _) \<Rightarrow> Inl e
      | (Inr m, tx') \<Rightarrow> rbind (introspect_all pg tx' ts) (\<lambda>(ms, tx''). Inr (m # ms, tx'')))"

section \<open>Archive header\<close>

definition magic :: "byte list" where
  "magic = bytes_of_string ''TNGSQLD1''"

lemma length_magic [simp]: "length magic = 8"
  by (simp add: magic_def bytes_of_string_def)

type_synonym marshal = "Manifest \<Rightarrow> (string, byte list) result"
type_synonym unmarshal = "byte list \<Rightarrow> (string, Manifest) result"

definition writeHeader :: "marshal \<Rightarrow> 'w writer \<Rightarrow> 'w \<Rightarrow> Manifest \<Rightarrow> (sd_err, 'w) result" where
  "writeHeader mj wr w m =
     rbind (wrap_err (ErrIO []) (wr w magic)) (\<lambda>w1.
     rbind (wrap_err (ErrDB []) (mj m)) (\<lambda>b.
     wrap_err (ErrIO []) (writeBlock wr w1 b)))"

definition readHeader :: "unmarshal \<Rightarrow> byte list \<Rightarrow> (sd_err, Manifest \<times> byte list) result" where
  "readHeader uj r =
     (case ReadFull 8 r of
        (Inl e, _) \<Rightarrow> Inl (ErrIO ''sqldump: read magic'' e)
      | (Inr got, r1) \<Rightarrow>
          if got \<noteq> magic then Inl (ErrIO ''sqldump'' BadMagic)
          else
            rbind (wrap_err (ErrIO ''sqldump: read manifest'') (readBlock r1)) (\<lambda>(b, r2).
            rbind (wrap_err (ErrDB ''sqldump: decode manifest'') (uj b)) (\<lambda>m.
            Inr (m, r2))))"

section \<open>Dump\<close>

definition copy_out_sql :: "(string \<Rightarrow> string) \<Rightarrow> TableMeta \<Rightarrow> string" where
  "copy_out_sql q m =
     ''COPY public.'' @ q (tm_Name m) @ '' ('' @ quoteCols q (colNames m) @ '') TO STDOUT (FORMAT text)''"

fun dump_tables :: "('db, 'tx) pg \<Rightarrow> 'w writer \<Rightarrow> 'tx \<Rightarrow> 'w \<Rightarrow> TableMeta list
    \<Rightarrow> (sd_err, 'w \<times> 'tx) result" where
  "dump_tables pg wr tx w [] = Inr (w, tx)"
| "dump_tables pg wr tx w (m # ms) =
     (case pg_copy_to pg tx (copy_out_sql (pg_quote pg) m) of
        (Inl e, _) \<Rightarrow> Inl (ErrDB (''sqldump: copy out '' @ tm_Name m) e)
      | (Inr chunks, tx') \<Rightarrow>
          rbind (wrap_err (ErrIO (''sqldump: copy out '' @ tm_Name m)) (fold_err (chunk_Write wr) w chunks)) (\<lambda>w1.
          rbind (wrap_err (ErrIO []) (chunk_Close wr w1)) (\<lambda>w2.
          dump_tables pg wr tx' w2 ms)))"

text \<open>\<open>extras[name]\<close> reads the zero value, an empty slice, for an absent name.\<close>

definition extra_get :: "(string \<times> byte list) list \<Rightarrow> string \<Rightarrow> byte list" where
  "extra_get extras name = (case map_of extras name of None \<Rightarrow> [] | Some b \<Rightarrow> b)"

definition dump_extras :: "'w writer \<Rightarrow> 'w \<Rightarrow> (string \<times> byte list) list \<Rightarrow> string list \<Rightarrow> (sd_err, 'w) result" where
  "dump_extras wr w extras names =
     fold_err (\<lambda>w name. wrap_err (ErrIO (''sqldump: write extra '' @ name)) (writeBlock wr w (extra_get extras name)))
       w names"

text \<open>
  \<open>extras\<close> is the map of named blobs in some iteration order; the manifest lists the names
  sorted.  The transaction is read-only, so the database is not an output.
\<close>

definition Dump :: "('db, 'tx) pg \<Rightarrow> marshal \<Rightarrow> string \<Rightarrow> Engine \<Rightarrow> 'db \<Rightarrow> 'w writer \<Rightarrow> 'w
    \<Rightarrow> (string \<times> byte list) list \<Rightarrow> (sd_err, 'w) result" where
  "Dump pg mj now e db wr w extras =
     rbind (connect pg db e) (\<lambda>_.
     rbind (wrap_err (ErrDB ''sqldump: begin'') (pg_begin pg db)) (\<lambda>tx.
     rbind (introspect_all pg tx (effectiveTables e)) (\<lambda>(metas, tx1).
     let m = \<lparr>mf_Module = o_Module (e_opts e), mf_Format = archiveFormat, mf_CreatedAt = now,
              mf_Tables = metas, mf_Extras = sort (map fst extras)\<rparr> in
     rbind (wrap_err (ErrWrap ''sqldump: write header'') (writeHeader mj wr w m)) (\<lambda>w1.
     rbind (dump_tables pg wr tx1 w1 (mf_Tables m)) (\<lambda>(w2, tx2).
     rbind (dump_extras wr w2 extras (mf_Extras m)) (\<lambda>w3.
     rbind (wrap_err (ErrDB []) (pg_rollback pg tx2)) (\<lambda>_. Inr w3)))))))"

section \<open>Column sets\<close>

definition intersect :: "string list \<Rightarrow> string list \<Rightarrow> string list" where
  "intersect a b = (let s = set_of_loop b in filter (\<lambda>x. s x) a)"

definition diff :: "string list \<Rightarrow> string list \<Rightarrow> string list" where
  "diff a remove = (let s = set_of_loop remove in filter (\<lambda>x. \<not> s x) a)"

definition filterPresent :: "string list \<Rightarrow> string list \<Rightarrow> string list" where
  "filterPresent want got = (let s = set_of_loop got in filter (\<lambda>x. s x) want)"

definition assignExcluded :: "(string \<Rightarrow> string) \<Rightarrow> string list \<Rightarrow> string" where
  "assignExcluded q cols = Join '', '' (map (\<lambda>c. q c @ '' = EXCLUDED.'' @ q c) cols)"

section \<open>Restore\<close>

definition stg :: string where
  "stg = ''_sqldump_stg''"

definition exec :: "('db, 'tx) pg \<Rightarrow> string \<Rightarrow> 'tx \<Rightarrow> string \<Rightarrow> string list \<Rightarrow> (sd_err, int \<times> 'tx) result" where
  "exec pg ctx tx sql args = wrap_err (ErrDB ctx) (pg_exec pg tx sql args)"

definition insert_select_sql :: "string \<Rightarrow> string \<Rightarrow> string" where
  "insert_select_sql tbl colList =
     ''INSERT INTO '' @ tbl @ '' ('' @ colList @ '') SELECT '' @ colList @ '' FROM '' @ stg"

definition upsert_sql :: "(string \<Rightarrow> string) \<Rightarrow> string \<Rightarrow> string list \<Rightarrow> string list \<Rightarrow> string" where
  "upsert_sql q tbl cols pk =
     (let setList = assignExcluded q (diff cols pk) in
      if setList = [] then
        insert_select_sql tbl (quoteCols q cols) @ '' ON CONFLICT ('' @ quoteCols q pk @ '') DO NOTHING''
      else
        insert_select_sql tbl (quoteCols q cols) @ '' ON CONFLICT ('' @ quoteCols q pk @ '') DO UPDATE SET '' @ setList)"

definition delete_sql :: "(string \<Rightarrow> string) \<Rightarrow> string \<Rightarrow> string list \<Rightarrow> string" where
  "delete_sql q tbl pk =
     ''DELETE FROM '' @ tbl @ '' WHERE ('' @ quoteCols q pk @ '') NOT IN (SELECT '' @ quoteCols q pk @ '' FROM '' @ stg @ '')''"

definition merge :: "('db, 'tx) pg \<Rightarrow> 'tx \<Rightarrow> string \<Rightarrow> string list \<Rightarrow> string list \<Rightarrow> RestoreMode \<Rightarrow> TableResult
    \<Rightarrow> (sd_err, TableResult \<times> 'tx) result" where
  "merge pg tx table cols pk mode tr =
     (let q = pg_quote pg; tbl = ''public.'' @ q table in
      if pk = [] then
        if mode = RestoreFullSync then
          rbind (exec pg [] tx (''TRUNCATE '' @ tbl) []) (\<lambda>(_, tx1).
          rbind (exec pg [] tx1 (insert_select_sql tbl (quoteCols q cols)) []) (\<lambda>(n, tx2).
          Inr (tr\<lparr>tr_Rows := n\<rparr>, tx2)))
        else
          Inr (tr\<lparr>tr_Skipped := True,
                 tr_Note := ''no primary/unique key; cannot merge (use full-sync)''\<rparr>, tx)
      else
        rbind (exec pg (''sqldump: upsert '' @ table) tx (upsert_sql q tbl cols pk) []) (\<lambda>(n, tx1).
        if mode = RestoreFullSync then
          rbind (exec pg (''sqldump: full-sync delete '' @ table) tx1 (delete_sql q tbl pk) []) (\<lambda>(d, tx2).
          Inr (tr\<lparr>tr_Rows := n, tr_Deleted := d\<rparr>, tx2))
        else Inr (tr\<lparr>tr_Rows := n\<rparr>, tx1)))"

definition setval_sql :: "(string \<Rightarrow> string) \<Rightarrow> string \<Rightarrow> Column \<Rightarrow> string" where
  "setval_sql q table c =
     ''SELECT setval(pg_get_serial_sequence($1, $2), GREATEST(COALESCE((SELECT MAX('' @ q (c_Name c)
       @ '') FROM public.'' @ q table @ ''), 0), 1))''"

definition resetSequences :: "('db, 'tx) pg \<Rightarrow> 'tx \<Rightarrow> string \<Rightarrow> TableMeta \<Rightarrow> (sd_err, 'tx) result" where
  "resetSequences pg tx table live =
     fold_err (\<lambda>tx c.
         if \<not> c_Serial c then Inr tx
         else rbind (exec pg (''sqldump: reset sequence '' @ table @ ''.'' @ c_Name c) tx
                       (setval_sql (pg_quote pg) table c) [table, c_Name c]) (\<lambda>(_, tx'). Inr tx'))
       tx (tm_Columns live)"

definition drop_staging_sql :: string where
  "drop_staging_sql = ''DROP TABLE IF EXISTS '' @ stg"

definition dropStaging :: "('db, 'tx) pg \<Rightarrow> 'tx \<Rightarrow> (sd_err, 'tx) result" where
  "dropStaging pg tx = rbind (exec pg [] tx drop_staging_sql []) (\<lambda>(_, tx'). Inr tx')"

definition create_staging_sql :: "(string \<Rightarrow> string) \<Rightarrow> TableMeta \<Rightarrow> string" where
  "create_staging_sql q tm =
     ''CREATE TEMP TABLE '' @ stg @ '' ('' @
       Join '', '' (map (\<lambda>c. q (c_Name c) @ '' '' @ c_Type c) (tm_Columns tm)) @ '') ON COMMIT DROP''"

definition load_sql :: "(string \<Rightarrow> string) \<Rightarrow> TableMeta \<Rightarrow> string" where
  "load_sql q tm = ''COPY '' @ stg @ '' ('' @ quoteCols q (colNames tm) @ '') FROM STDIN (FORMAT text)''"

definition table_result :: "string \<Rightarrow> TableResult" where
  "table_result t = \<lparr>tr_Table = t, tr_Rows = 0, tr_Deleted = 0, tr_Skipped = False, tr_Note = []\<rparr>"

text \<open>The second half of \<open>restoreTable\<close>: the staging table is loaded and is merged into the live one.\<close>

definition merge_staged :: "('db, 'tx) pg \<Rightarrow> 'tx \<Rightarrow> TableMeta \<Rightarrow> TableMeta \<Rightarrow> RestoreMode \<Rightarrow> TableResult
    \<Rightarrow> (sd_err, TableResult \<times> 'tx) result" where
  "merge_staged pg tx tm live mode tr =
     (let cols = intersect (colNames tm) (colNames live) in
      if cols = [] then
        rbind (dropStaging pg tx) (\<lambda>tx1.
        Inr (tr\<lparr>tr_Skipped := True, tr_Note := ''no overlapping columns; skipped''\<rparr>, tx1))
      else
        let pk = filterPresent (tm_PK live) cols in
        rbind (merge pg tx (tm_Name tm) cols pk mode tr) (\<lambda>(tr', tx1).
        rbind (resetSequences pg tx1 (tm_Name tm) live) (\<lambda>tx2.
        rbind (dropStaging pg tx2) (\<lambda>tx3.
        Inr (tr', tx3)))))"

text \<open>
  \<open>restoreTable\<close>.  \<open>k\<close> is the size, less one, of the buffer the driver reads the COPY stream
  with.  The reader is returned where the stream of the next table starts.
\<close>

definition restoreTable :: "nat \<Rightarrow> ('db, 'tx) pg \<Rightarrow> 'tx \<Rightarrow> byte list \<Rightarrow> TableMeta \<Rightarrow> RestoreMode
    \<Rightarrow> (sd_err, TableResult \<times> 'tx \<times> byte list) result" where
  "restoreTable k pg tx r tm mode =
     (let tr = table_result (tm_Name tm); q = pg_quote pg in
      case introspect pg tx (tm_Name tm) of
        (Inl _, tx1) \<Rightarrow>
          (case drain (new_chunkReader r) of
             (Inl e, _) \<Rightarrow> Inl (ErrIO [] e)
           | (Inr _, cr) \<Rightarrow>
               Inr (tr\<lparr>tr_Skipped := True, tr_Note := ''not present on target; skipped''\<rparr>, tx1, cr_r cr))
      | (Inr live, tx1) \<Rightarrow>
          rbind (exec pg [] tx1 drop_staging_sql []) (\<lambda>(_, tx2).
          rbind (exec pg (''sqldump: create staging for '' @ tm_Name tm) tx2 (create_staging_sql q tm) []) (\<lambda>(_, tx3).
          case read_stream k (new_chunkReader r) of
            (Inl e, _) \<Rightarrow> Inl (ErrIO (''sqldump: copy into staging '' @ tm_Name tm) e)
          | (Inr data, cr) \<Rightarrow>
              rbind (wrap_err (ErrDB (''sqldump: copy into staging '' @ tm_Name tm))
                       (pg_copy_from pg tx3 (load_sql q tm) data)) (\<lambda>tx4.
              rbind (merge_staged pg tx4 tm live mode tr) (\<lambda>(tr', tx5).
              Inr (tr', tx5, cr_r cr))))))"

definition add_result :: "Result \<Rightarrow> TableMeta \<Rightarrow> TableResult \<Rightarrow> Result" where
  "add_result res tm tr =
     res\<lparr>r_Tables := r_Tables res @ [tr],
         r_Warnings := (if tr_Note tr \<noteq> [] then r_Warnings res @ [tm_Name tm @ '': '' @ tr_Note tr]
                        else r_Warnings res)\<rparr>"

definition restore_tables :: "nat \<Rightarrow> ('db, 'tx) pg \<Rightarrow> RestoreMode \<Rightarrow> Result \<times> 'tx \<times> byte list \<Rightarrow> TableMeta list
    \<Rightarrow> (sd_err, Result \<times> 'tx \<times> byte list) result" where
  "restore_tables k pg mode =
     fold_err (\<lambda>(res, tx, r) tm.
       rbind (restoreTable k pg tx r tm mode) (\<lambda>(tr, tx', r'). Inr (add_result res tm tr, tx', r')))"

definition restore_extras :: "(string \<rightharpoonup> byte list) \<times> byte list \<Rightarrow> string list
    \<Rightarrow> (sd_err, (string \<rightharpoonup> byte list) \<times> byte list) result" where
  "restore_extras =
     fold_err (\<lambda>(ex, r) name.
       rbind (wrap_err (ErrIO (''sqldump: read extra '' @ name)) (readBlock r)) (\<lambda>(b, r'). Inr (ex(name \<mapsto> b), r')))"

text \<open>
  The body of \<open>Restore\<close> up to the commit, and \<open>Restore\<close> itself with the database it leaves:
  every early return runs the deferred rollback, so only a successful commit changes it.
\<close>

definition restore_body :: "nat \<Rightarrow> ('db, 'tx) pg \<Rightarrow> unmarshal \<Rightarrow> Engine \<Rightarrow> 'db \<Rightarrow> byte list \<Rightarrow> RestoreMode
    \<Rightarrow> (sd_err, Result \<times> (string \<rightharpoonup> byte list) \<times> 'db) result" where
  "restore_body k pg uj e db r mode =
     rbind (readHeader uj r) (\<lambda>(m, r1).
     rbind (connect pg db e) (\<lambda>_.
     rbind (wrap_err (ErrDB ''sqldump: begin'') (pg_begin pg db)) (\<lambda>tx.
     rbind (exec pg ''sqldump: defer constraints (needs elevated role)'' tx
              ''SET LOCAL session_replication_role = replica'' []) (\<lambda>(_, tx1).
     rbind (restore_tables k pg mode
              (\<lparr>r_Mode = mode_String mode, r_Tables = [], r_Warnings = []\<rparr>, tx1, r1) (mf_Tables m)) (\<lambda>(res, tx2, r2).
     rbind (restore_extras (Map.empty, r2) (mf_Extras m)) (\<lambda>(ex, _).
     rbind (wrap_err (ErrDB ''sqldump: commit'') (pg_commit pg tx2)) (\<lambda>db'.
     Inr (res, ex, db'))))))))"

definition Restore :: "nat \<Rightarrow> ('db, 'tx) pg \<Rightarrow> unmarshal \<Rightarrow> Engine \<Rightarrow> 'db \<Rightarrow> byte list \<Rightarrow> RestoreMode
    \<Rightarrow> (sd_err, Result \<times> (string \<rightharpoonup> byte list)) result \<times> 'db" where
  "Restore k pg uj e db r mode =
     (case restore_body k pg uj e db r mode of
        Inl err \<Rightarrow> (Inl err, db)
      | Inr (res, ex, db') \<Rightarrow> (Inr (res, ex), db'))"

section \<open>The archive as bytes\<close>

definition table_bytes :: "byte list list \<Rightarrow> byte list" where
  "table_bytes cs = concat (map chunk_bytes cs) @ be32 0"

fun copy_out_all :: "('db, 'tx) pg \<Rightarrow> 'tx \<Rightarrow> TableMeta list \<Rightarrow> (sd_err, byte list list list \<times> 'tx) result" where
  "copy_out_all pg tx [] = Inr ([], tx)"
| "copy_out_all pg tx (m # ms) =
     (case pg_copy_to pg tx (copy_out_sql (pg_quote pg) m) of
        (Inl e, _) \<Rightarrow> Inl (ErrDB (''sqldump: copy out '' @ tm_Name m) e)
      | (Inr cs, tx') \<Rightarrow> rbind (copy_out_all pg tx' ms) (\<lambda>(css, tx''). Inr (cs # css, tx'')))"

lemma dump_tables_buf:
  "dump_tables pg buf_write tx w ms =
     rbind (copy_out_all pg tx ms) (\<lambda>(css, tx'). Inr (w @ concat (map table_bytes css), tx'))"
proof (induction ms arbitrary: tx w)
  case Nil
  then show ?case by simp
next
  case (Cons m ms)
  obtain res tx' where c: "pg_copy_to pg tx (copy_out_sql (pg_quote pg) m) = (res, tx')"
    by (cases "pg_copy_to pg tx (copy_out_sql (pg_quote pg) m)") auto
  show ?case
  proof (cases res)
    case (Inl e)
    then show ?thesis using c by simp
  next
    case (Inr cs)
    then show ?thesis using c
      by (cases "copy_out_all pg tx' ms")
        (auto simp: Cons.IH write_chunks_buf chunk_Close_buf table_bytes_def)
  qed
qed

lemma copy_out_all_length: "copy_out_all pg tx ms = Inr (css, tx') \<Longrightarrow> length css = length ms"
  by (induction ms arbitrary: tx css) (auto simp: rbind_Inr_iff split: prod.splits sum.splits)

lemma copy_out_all_sizes:
  assumes "\<forall>tx sql cs tx'. pg_copy_to pg tx sql = (Inr cs, tx') \<longrightarrow> (\<forall>c \<in> set cs. length c \<le> 2 ^ 28)"
    and "copy_out_all pg tx ms = Inr (css, tx')" and "cs \<in> set css"
  shows "\<forall>c \<in> set cs. length c \<le> 2 ^ 28"
  using assms(2,3)
proof (induction ms arbitrary: tx css)
  case Nil
  then show ?case by simp
next
  case (Cons m ms)
  then obtain cs' tx1 css' where "pg_copy_to pg tx (copy_out_sql (pg_quote pg) m) = (Inr cs', tx1)"
    "copy_out_all pg tx1 ms = Inr (css', tx')" "css = cs' # css'"
    by (auto simp: rbind_Inr_iff split: prod.splits sum.splits)
  then show ?case using Cons.IH[of tx1 css'] Cons.prems(2) assms(1) by auto
qed

lemma dump_extras_buf:
  "dump_extras buf_write w extras names =
     Inr (w @ concat (map (\<lambda>n. block_bytes (extra_get extras n)) names))"
  unfolding dump_extras_def
  by (induction names arbitrary: w) (simp_all add: writeBlock_buf)

lemma writeHeader_buf:
  "writeHeader mj buf_write w m = rbind (wrap_err (ErrDB []) (mj m)) (\<lambda>b. Inr (w @ magic @ block_bytes b))"
proof -
  have "buf_write w magic = Inr (w @ magic)" by (simp add: buf_write_def)
  then show ?thesis by (cases "mj m") (simp_all add: writeHeader_def writeBlock_buf)
qed

lemma readHeader_bytes:
  "length b \<le> 2 ^ 28 \<Longrightarrow> uj b = Inr m \<Longrightarrow> readHeader uj (magic @ block_bytes b @ r) = Inr (m, r)"
  by (simp add: readHeader_def ReadFull_append readBlock_block_bytes)

lemma restore_extras_bytes:
  "\<forall>n \<in> set names. length (g n) \<le> 2 ^ 28 \<Longrightarrow>
   restore_extras (ex, concat (map (\<lambda>n. block_bytes (g n)) names) @ r) names =
     Inr (fold (\<lambda>n ex. ex(n \<mapsto> g n)) names ex, r)"
  unfolding restore_extras_def
  by (induction names arbitrary: ex) (simp_all add: readBlock_block_bytes)

lemma fold_map_upd: "fold (\<lambda>n ex. ex(n \<mapsto> g n)) names ex = (\<lambda>x. if x \<in> set names then Some (g x) else ex x)"
  by (induction names arbitrary: ex) (auto simp: fun_eq_iff)

lemma extras_recovered:
  "fold (\<lambda>n ex. ex(n \<mapsto> extra_get extras n)) (sort (map fst extras)) Map.empty = map_of extras"
proof (rule ext)
  fix x
  show "fold (\<lambda>n ex. ex(n \<mapsto> extra_get extras n)) (sort (map fst extras)) Map.empty x = map_of extras x"
  proof (cases "map_of extras x")
    case None
    then have "x \<notin> fst ` set extras" by (simp add: map_of_eq_None_iff)
    with None show ?thesis by (simp add: fold_map_upd)
  next
    case (Some b)
    then have "x \<in> fst ` set extras" by (auto dest: map_of_SomeD intro: rev_image_eqI)
    with Some show ?thesis by (simp add: fold_map_upd extra_get_def)
  qed
qed

section \<open>Restore without the archive\<close>

text \<open>
  The specification \<open>Restore\<close> is measured against: the same database work, given each table's
  data directly, with no archive, no framing and no reader position.
\<close>

definition apply_table :: "('db, 'tx) pg \<Rightarrow> 'tx \<Rightarrow> TableMeta \<Rightarrow> byte list \<Rightarrow> RestoreMode
    \<Rightarrow> (sd_err, TableResult \<times> 'tx) result" where
  "apply_table pg tx tm data mode =
     (let tr = table_result (tm_Name tm); q = pg_quote pg in
      case introspect pg tx (tm_Name tm) of
        (Inl _, tx1) \<Rightarrow> Inr (tr\<lparr>tr_Skipped := True, tr_Note := ''not present on target; skipped''\<rparr>, tx1)
      | (Inr live, tx1) \<Rightarrow>
          rbind (dropStaging pg tx1) (\<lambda>tx2.
          rbind (exec pg (''sqldump: create staging for '' @ tm_Name tm) tx2 (create_staging_sql q tm) []) (\<lambda>(_, tx3).
          rbind (wrap_err (ErrDB (''sqldump: copy into staging '' @ tm_Name tm))
                   (pg_copy_from pg tx3 (load_sql q tm) data)) (\<lambda>tx4.
          merge_staged pg tx4 tm live mode tr))))"

definition apply_tables :: "('db, 'tx) pg \<Rightarrow> RestoreMode \<Rightarrow> Result \<times> 'tx \<Rightarrow> (TableMeta \<times> byte list) list
    \<Rightarrow> (sd_err, Result \<times> 'tx) result" where
  "apply_tables pg mode =
     fold_err (\<lambda>(res, tx) (tm, data).
       rbind (apply_table pg tx tm data mode) (\<lambda>(tr, tx'). Inr (add_result res tm tr, tx')))"

definition restore_work :: "('db, 'tx) pg \<Rightarrow> Engine \<Rightarrow> 'db \<Rightarrow> (TableMeta \<times> byte list) list \<Rightarrow> RestoreMode
    \<Rightarrow> (sd_err, Result \<times> 'db) result" where
  "restore_work pg e db tabs mode =
     rbind (connect pg db e) (\<lambda>_.
     rbind (wrap_err (ErrDB ''sqldump: begin'') (pg_begin pg db)) (\<lambda>tx.
     rbind (exec pg ''sqldump: defer constraints (needs elevated role)'' tx
              ''SET LOCAL session_replication_role = replica'' []) (\<lambda>(_, tx1).
     rbind (apply_tables pg mode
              (\<lparr>r_Mode = mode_String mode, r_Tables = [], r_Warnings = []\<rparr>, tx1) tabs) (\<lambda>(res, tx2).
     rbind (wrap_err (ErrDB ''sqldump: commit'') (pg_commit pg tx2)) (\<lambda>db'. Inr (res, db'))))))"

definition restore_spec :: "('db, 'tx) pg \<Rightarrow> Engine \<Rightarrow> 'db \<Rightarrow> (TableMeta \<times> byte list) list
    \<Rightarrow> (string \<rightharpoonup> byte list) \<Rightarrow> RestoreMode \<Rightarrow> (sd_err, Result \<times> (string \<rightharpoonup> byte list)) result \<times> 'db" where
  "restore_spec pg e db tabs extras mode =
     (case restore_work pg e db tabs mode of
        Inl err \<Rightarrow> (Inl err, db)
      | Inr (res, db') \<Rightarrow> (Inr (res, extras), db'))"

lemma restoreTable_bytes:
  assumes "\<forall>c \<in> set cs. length c \<le> 2 ^ 28"
  shows "restoreTable k pg tx (table_bytes cs @ r) tm mode =
    rbind (apply_table pg tx tm (concat cs) mode) (\<lambda>(tr, tx'). Inr (tr, tx', r))"
proof -
  have rs: "read_stream k' (new_chunkReader (table_bytes cs @ r)) =
      (Inr (concat cs), \<lparr>cr_r = r, cr_buf = [], cr_eof = True\<rparr>)" for k'
    using assms by (simp add: table_bytes_def read_stream_chunks read_stream_terminator)
  show ?thesis
    by (cases "introspect pg tx (tm_Name tm)")
      (auto simp: restoreTable_def apply_table_def Let_def rs drain_read_stream dropStaging_def rbind_assoc
        prod.case_distrib[of "\<lambda>x. rbind x _"] split: sum.splits intro!: rbind_cong)
qed

lemma restore_tables_bytes:
  assumes "\<forall>cs \<in> set css. \<forall>c \<in> set cs. length c \<le> 2 ^ 28" and "length css = length ms"
  shows "restore_tables k pg mode (res, tx, concat (map table_bytes css) @ r) ms =
    rbind (apply_tables pg mode (res, tx) (zip ms (map concat css))) (\<lambda>(res', tx'). Inr (res', tx', r))"
  using assms(2,1)
proof (induction css ms arbitrary: res tx rule: list_induct2)
  case Nil
  then show ?case by (simp add: restore_tables_def apply_tables_def)
next
  case (Cons cs css m ms)
  then show ?case
    by (cases "apply_table pg tx m (concat cs) mode")
      (auto simp: restore_tables_def apply_tables_def restoreTable_bytes)
qed

lemma Dump_buf:
  assumes "Dump pg mj now e db buf_write [] extras = Inr bs"
  obtains tx metas tx1 css tx2 b where
    "pg_begin pg db = Inr tx"
    "introspect_all pg tx (effectiveTables e) = Inr (metas, tx1)"
    "copy_out_all pg tx1 metas = Inr (css, tx2)"
    "mj \<lparr>mf_Module = o_Module (e_opts e), mf_Format = archiveFormat, mf_CreatedAt = now,
        mf_Tables = metas, mf_Extras = sort (map fst extras)\<rparr> = Inr b"
    "bs = magic @ block_bytes b @ concat (map table_bytes css) @
        concat (map (\<lambda>n. block_bytes (extra_get extras n)) (sort (map fst extras)))"
  using assms
  by (auto simp: Dump_def Let_def rbind_Inr_iff writeHeader_buf dump_tables_buf dump_extras_buf)

lemma Restore_bytes:
  assumes "length b \<le> 2 ^ 28" and "uj b = Inr m"
    and "\<forall>cs \<in> set css. \<forall>c \<in> set cs. length c \<le> 2 ^ 28" and "length css = length (mf_Tables m)"
    and "\<forall>n \<in> set (mf_Extras m). length (g n) \<le> 2 ^ 28"
  shows "Restore k pg uj e db (magic @ block_bytes b @ concat (map table_bytes css) @
           concat (map (\<lambda>n. block_bytes (g n)) (mf_Extras m)) @ rest) mode =
    restore_spec pg e db (zip (mf_Tables m) (map concat css))
      (fold (\<lambda>n ex. ex(n \<mapsto> g n)) (mf_Extras m) Map.empty) mode"
proof -
  let ?ex = "fold (\<lambda>n ex. ex(n \<mapsto> g n)) (mf_Extras m) Map.empty"
  let ?tail = "concat (map (\<lambda>n. block_bytes (g n)) (mf_Extras m)) @ rest"
  have x: "restore_extras (Map.empty, ?tail) (mf_Extras m) = Inr (?ex, rest)"
    using assms(5) by (rule restore_extras_bytes)
  have h: "readHeader uj (magic @ block_bytes b @ r) = Inr (m, r)" for r
    using assms(1,2) by (rule readHeader_bytes)
  have "restore_body k pg uj e db (magic @ block_bytes b @ concat (map table_bytes css) @ ?tail) mode =
      rbind (restore_work pg e db (zip (mf_Tables m) (map concat css)) mode) (\<lambda>(res, db'). Inr (res, ?ex, db'))"
    by (auto simp: restore_body_def restore_work_def h restore_tables_bytes[OF assms(3,4)] rbind_assoc x
        prod.case_distrib[of "\<lambda>y. rbind y _"] intro!: rbind_cong split: prod.splits)
  then show ?thesis
    by (cases "restore_work pg e db (zip (mf_Tables m) (map concat css)) mode")
      (auto simp: Restore_def restore_spec_def)
qed

section \<open>Properties\<close>

text \<open>
  C1 (\<open>restore_of_dump\<close>): the archive a dump writes restores to what was dumped.  Whatever
  database the archive is restored into, in either mode, \<open>Restore\<close> does exactly the database
  work of the specification on the dumped tables' metadata and their COPY data (each table
  receives precisely its own bytes, in order), and returns exactly the extras that were
  passed to \<open>Dump\<close>, whatever their iteration order; trailing bytes are ignored.  The JSON
  codec of the manifest is assumed to round-trip, and manifest, extras and COPY chunks to
  respect the 256 MiB cap of the format.
\<close>

theorem restore_of_dump:
  assumes dump: "Dump pg mj now e db buf_write [] extras = Inr bs"
    and json: "\<forall>m b. mj m = Inr b \<longrightarrow> uj b = Inr m \<and> length b \<le> 2 ^ 28"
    and chunks: "\<forall>tx sql cs tx'. pg_copy_to pg tx sql = (Inr cs, tx') \<longrightarrow> (\<forall>c \<in> set cs. length c \<le> 2 ^ 28)"
    and blobs: "\<forall>(n, b) \<in> set extras. length b \<le> 2 ^ 28"
  shows "\<exists>tx metas tx1 css tx2.
    pg_begin pg db = Inr tx \<and>
    introspect_all pg tx (effectiveTables e) = Inr (metas, tx1) \<and>
    copy_out_all pg tx1 metas = Inr (css, tx2) \<and>
    Restore k pg' uj e' db' (bs @ rest) mode =
      restore_spec pg' e' db' (zip metas (map concat css)) (map_of extras) mode"
proof -
  obtain tx metas tx1 css tx2 b where d: "pg_begin pg db = Inr tx"
    "introspect_all pg tx (effectiveTables e) = Inr (metas, tx1)"
    "copy_out_all pg tx1 metas = Inr (css, tx2)"
    and b: "mj \<lparr>mf_Module = o_Module (e_opts e), mf_Format = archiveFormat, mf_CreatedAt = now,
        mf_Tables = metas, mf_Extras = sort (map fst extras)\<rparr> = Inr b" (is "mj ?m = _")
    and bs: "bs = magic @ block_bytes b @ concat (map table_bytes css) @
        concat (map (\<lambda>n. block_bytes (extra_get extras n)) (sort (map fst extras)))"
    using dump by (rule Dump_buf)
  have sizes: "\<forall>cs \<in> set css. \<forall>c \<in> set cs. length c \<le> 2 ^ 28"
    using copy_out_all_sizes[OF chunks d(3)] by blast
  have blobs': "\<forall>n \<in> set (mf_Extras ?m). length (extra_get extras n) \<le> 2 ^ 28"
    using blobs by (auto simp: extra_get_def split: option.splits dest!: map_of_SomeD)
  have "Restore k pg' uj e' db' (bs @ rest) mode =
      restore_spec pg' e' db' (zip metas (map concat css))
        (fold (\<lambda>n ex. ex(n \<mapsto> extra_get extras n)) (sort (map fst extras)) Map.empty) mode"
    using Restore_bytes[of b uj ?m css "extra_get extras" k pg' e' db' rest mode]
      json b sizes blobs' copy_out_all_length[OF d(3)] by (simp add: bs)
  then show ?thesis using d by (simp add: extras_recovered)
qed

text \<open>
  A concrete server for the witnesses: one table with a serial key \<open>id\<close> and a text column
  \<open>v\<close>, whose transaction state is the log of the statements it was sent.
\<close>

definition log_pg :: "(string list, string list) pg" where
  "log_pg = \<lparr>pg_connect = (\<lambda>_ _. Inr ()), pg_begin = Inr, pg_commit = Inr, pg_rollback = (\<lambda>_. Inr ()),
     pg_exec = (\<lambda>tx sql _. Inr (1, tx @ [sql])),
     pg_regclass = (\<lambda>tx _. (Inr 7, tx)),
     pg_columns = (\<lambda>tx _ _. (Inr \<lparr>rw_scans = [Inr \<lparr>c_Name = ''id'', c_Type = ''int4'', c_Serial = True\<rparr>,
                                    Inr \<lparr>c_Name = ''v'', c_Type = ''text'', c_Serial = False\<rparr>], rw_Err = None\<rparr>, tx)),
     pg_strings = (\<lambda>tx _ _. (Inr \<lparr>rw_scans = [Inr ''id''], rw_Err = None\<rparr>, tx)),
     pg_copy_to = (\<lambda>tx _. (Inr [[1, 2], [3]], tx)),
     pg_copy_from = (\<lambda>tx _ _. Inr (tx @ [''COPY''])),
     pg_quote = (\<lambda>s. CHR 0x22 # s @ [CHR 0x22])\<rparr>"

definition demo_meta :: TableMeta where
  "demo_meta = \<lparr>tm_Name = ''t'',
     tm_Columns = [\<lparr>c_Name = ''id'', c_Type = ''int4'', c_Serial = True\<rparr>,
                   \<lparr>c_Name = ''v'', c_Type = ''text'', c_Serial = False\<rparr>], tm_PK = [''id'']\<rparr>"

definition demo_manifest :: Manifest where
  "demo_manifest = \<lparr>mf_Module = ''ipam'', mf_Format = archiveFormat, mf_CreatedAt = ''now'',
     mf_Tables = [demo_meta], mf_Extras = [''x'']\<rparr>"

definition demo_mj :: marshal where
  "demo_mj m = (if m = demo_manifest then Inr [123, 125] else Inl ''unsupported'')"

definition demo_engine :: Engine where
  "demo_engine = \<lparr>e_dsn = ''dsn'', e_opts = \<lparr>o_Module = ''ipam'', o_Tables = [''t'', ''u''], o_Exclude = [''u'']\<rparr>\<rparr>"

lemma demo_dump:
  "Dump log_pg demo_mj ''now'' demo_engine [] buf_write [] [(''x'', [9])] =
     Inr (magic @ block_bytes [123, 125] @ table_bytes [[1, 2], [3]] @ block_bytes [9])"
  by (simp add: Dump_def Let_def log_pg_def demo_engine_def effectiveTables_def introspect_def tableOID_def
      keyColumns_def scanStrings_def connect_def writeHeader_buf dump_tables_buf dump_extras_buf demo_mj_def demo_manifest_def
      demo_meta_def extra_get_def)

theorem restore_of_dump_witness:
  "\<exists>tx metas tx1 css tx2.
    pg_begin log_pg [] = Inr tx \<and>
    introspect_all log_pg tx (effectiveTables demo_engine) = Inr (metas, tx1) \<and>
    copy_out_all log_pg tx1 metas = Inr (css, tx2) \<and>
    Restore 4 log_pg (\<lambda>_. Inr demo_manifest) demo_engine []
      ((magic @ block_bytes [123, 125] @ table_bytes [[1, 2], [3]] @ block_bytes [9]) @ [0]) RestoreFullSync =
      restore_spec log_pg demo_engine [] (zip metas (map concat css)) (map_of [(''x'', [9])]) RestoreFullSync"
  by (rule restore_of_dump[OF demo_dump]) (simp_all add: demo_mj_def log_pg_def)

text \<open>
  What a restore may do to the database: a predicate on transaction states that every
  statement satisfying \<open>P\<close>, every load satisfying \<open>Q\<close> and the catalogue queries keep.
\<close>

definition pg_keeps :: "('db, 'tx) pg \<Rightarrow> ('tx \<Rightarrow> bool) \<Rightarrow> (string \<Rightarrow> string list \<Rightarrow> bool) \<Rightarrow> (string \<Rightarrow> bool) \<Rightarrow> bool" where
  "pg_keeps pg I P Q \<longleftrightarrow>
     (\<forall>tx sql args n tx'. I tx \<longrightarrow> P sql args \<longrightarrow> pg_exec pg tx sql args = Inr (n, tx') \<longrightarrow> I tx') \<and>
     (\<forall>tx t. I tx \<longrightarrow> I (snd (pg_regclass pg tx t))) \<and>
     (\<forall>tx t oid. I tx \<longrightarrow> I (snd (pg_columns pg tx t oid))) \<and>
     (\<forall>tx q oid. I tx \<longrightarrow> I (snd (pg_strings pg tx q oid))) \<and>
     (\<forall>tx sql b tx'. I tx \<longrightarrow> Q sql \<longrightarrow> pg_copy_from pg tx sql b = Inr tx' \<longrightarrow> I tx')"

text \<open>
  The statements of a merge of the tables \<open>tms\<close>, with their arguments, and the loads: for each
  table of the manifest its staging table is created, loaded and merged by one
  \<open>INSERT ... ON CONFLICT\<close> over dumped columns with a non-empty key, and its serial columns'
  sequences are advanced.
\<close>

definition merge_statement :: "(string \<Rightarrow> string) \<Rightarrow> TableMeta list \<Rightarrow> string \<Rightarrow> string list \<Rightarrow> bool" where
  "merge_statement q tms sql args \<longleftrightarrow>
     args = [] \<and> (sql = ''SET LOCAL session_replication_role = replica'' \<or> sql = drop_staging_sql) \<or>
     (\<exists>tm \<in> set tms.
        args = [] \<and> sql = create_staging_sql q tm \<or>
        args = [] \<and> (\<exists>cols pk. pk \<noteq> [] \<and> set pk \<subseteq> set cols \<and> set cols \<subseteq> set (colNames tm) \<and>
          sql = upsert_sql q (''public.'' @ q (tm_Name tm)) cols pk) \<or>
        (\<exists>c :: Column. c_Serial c \<and> args = [tm_Name tm, c_Name c] \<and> sql = setval_sql q (tm_Name tm) c))"

definition merge_load :: "(string \<Rightarrow> string) \<Rightarrow> TableMeta list \<Rightarrow> string \<Rightarrow> bool" where
  "merge_load q tms sql \<longleftrightarrow> (\<exists>tm \<in> set tms. sql = load_sql q tm)"

lemma keeps_exec:
  assumes "pg_keeps pg I P Q" and "I tx" and "P sql args" and "exec pg c tx sql args = Inr (n, tx')"
  shows "I tx'"
proof -
  have "pg_exec pg tx sql args = Inr (n, tx')" using assms(4) by (simp add: exec_def)
  then show ?thesis using assms(1,2,3) unfolding pg_keeps_def by blast
qed

lemma keeps_copy_from:
  "pg_keeps pg I P Q \<Longrightarrow> I tx \<Longrightarrow> Q sql \<Longrightarrow> pg_copy_from pg tx sql b = Inr tx' \<Longrightarrow> I tx'"
  unfolding pg_keeps_def by blast

lemma keeps_reads:
  assumes "pg_keeps pg I P Q" and "I tx"
  shows "I (snd (pg_regclass pg tx t))" and "I (snd (pg_columns pg tx t oid))"
    and "I (snd (pg_strings pg tx q oid))"
  using assms unfolding pg_keeps_def by blast+

lemma tableOID_keeps:
  assumes "pg_keeps pg I P Q" and "I tx"
  shows "I (snd (tableOID pg tx t))"
  using keeps_reads(1)[OF assms, of "''public.'' @ t"]
  by (auto simp: tableOID_def split: prod.splits sum.splits)

lemma scanStrings_keeps:
  assumes "pg_keeps pg I P Q" and "I tx"
  shows "I (snd (scanStrings pg tx q oid))"
  using keeps_reads(3)[OF assms, of q oid] by (auto simp: scanStrings_def split: prod.splits sum.splits)

lemma keyColumns_keeps:
  assumes "pg_keeps pg I P Q" and "I tx"
  shows "I (snd (keyColumns pg tx oid))"
proof -
  obtain r tx' where 1: "scanStrings pg tx PrimaryKeyQuery oid = (r, tx')"
    by (cases "scanStrings pg tx PrimaryKeyQuery oid")
  then have "I tx'" using scanStrings_keeps[OF assms, of PrimaryKeyQuery oid] by simp
  then show ?thesis using 1 scanStrings_keeps[OF assms(1), of tx' UniqueKeyQuery oid]
    by (auto simp: keyColumns_def split: sum.splits)
qed

lemma introspect_keeps:
  assumes "pg_keeps pg I P Q" and "I tx" and "introspect pg tx t = (r, tx')"
  shows "I tx'"
proof -
  obtain ro tx1 where 1: "tableOID pg tx t = (ro, tx1)" by (cases "tableOID pg tx t")
  then have i1: "I tx1" using tableOID_keeps[OF assms(1,2), of t] by simp
  show ?thesis
  proof (cases ro)
    case (Inl e)
    then show ?thesis using assms(3) 1 i1 by (simp add: introspect_def)
  next
    case (Inr oid)
    obtain rc tx2 where 2: "pg_columns pg tx1 (''public.'' @ t) oid = (rc, tx2)"
      by (cases "pg_columns pg tx1 (''public.'' @ t) oid")
    then have i2: "I tx2" using keeps_reads(2)[OF assms(1) i1, of "''public.'' @ t" oid] by simp
    show ?thesis using assms(3) 1 2 Inr i2 keyColumns_keeps[OF assms(1) i2, of oid]
      by (auto simp: introspect_def split: sum.splits if_splits prod.splits)
  qed
qed

lemma merge_statementI:
  "merge_statement q tms drop_staging_sql []"
  "merge_statement q tms ''SET LOCAL session_replication_role = replica'' []"
  "tm \<in> set tms \<Longrightarrow> merge_statement q tms (create_staging_sql q tm) []"
  "tm \<in> set tms \<Longrightarrow> c_Serial (c :: Column) \<Longrightarrow> merge_statement q tms (setval_sql q (tm_Name tm) c) [tm_Name tm, c_Name c]"
  "tm \<in> set tms \<Longrightarrow> pk \<noteq> [] \<Longrightarrow> set pk \<subseteq> set cols \<Longrightarrow> set cols \<subseteq> set (colNames tm) \<Longrightarrow>
     merge_statement q tms (upsert_sql q (''public.'' @ q (tm_Name tm)) cols pk) []"
  unfolding merge_statement_def by blast+

lemma dropStaging_keeps:
  assumes "pg_keeps pg I (merge_statement q tms) Q" and "I tx" and "dropStaging pg tx = Inr tx'"
  shows "I tx'"
  using assms(3) by (auto simp: dropStaging_def rbind_Inr_iff dest: keeps_exec[OF assms(1,2) merge_statementI(1)])

lemma resetSequences_keeps:
  assumes "pg_keeps pg I (merge_statement (pg_quote pg) tms) Q" and "I tx" and "tm \<in> set tms"
    and "resetSequences pg tx (tm_Name tm) live = Inr tx'"
  shows "I tx'"
  using _ assms(2) assms(4)[unfolded resetSequences_def]
  by (rule fold_err_invariant)
    (auto simp: rbind_Inr_iff split: if_splits dest: keeps_exec[OF assms(1) _ merge_statementI(4)[OF assms(3)]])

lemma merge_keeps:
  assumes "pg_keeps pg I (merge_statement (pg_quote pg) tms) Q" and "I tx" and "tm \<in> set tms"
    and "set pk \<subseteq> set cols" and "set cols \<subseteq> set (colNames tm)"
    and "merge pg tx (tm_Name tm) cols pk RestoreMerge tr = Inr (tr', tx')"
  shows "I tx'"
  using assms(2,6)
  by (auto simp: merge_def Let_def rbind_Inr_iff split: if_splits
      dest: keeps_exec[OF assms(1,2) merge_statementI(5)[OF assms(3) _ assms(4,5)]])

lemma merge_staged_keeps:
  assumes "pg_keeps pg I (merge_statement (pg_quote pg) tms) Q" and "I tx" and "tm \<in> set tms"
    and "merge_staged pg tx tm live RestoreMerge tr = Inr (tr', tx')"
  shows "I tx'"
proof (cases "intersect (colNames tm) (colNames live) = []")
  case True
  then show ?thesis using assms(4)
    by (auto simp: merge_staged_def rbind_Inr_iff intro: dropStaging_keeps[OF assms(1,2)])
next
  case False
  let ?cols = "intersect (colNames tm) (colNames live)"
  from False obtain tx1 tx2 where
    1: "merge pg tx (tm_Name tm) ?cols (filterPresent (tm_PK live) ?cols) RestoreMerge tr = Inr (tr', tx1)" and
    2: "resetSequences pg tx1 (tm_Name tm) live = Inr tx2" and
    3: "dropStaging pg tx2 = Inr tx'"
    using assms(4) by (auto simp: merge_staged_def Let_def rbind_Inr_iff)
  have "I tx1"
    by (rule merge_keeps[OF assms(1,2,3) _ _ 1]) (auto simp: intersect_def filterPresent_def)
  then show ?thesis
    by (rule dropStaging_keeps[OF assms(1) resetSequences_keeps[OF assms(1) _ assms(3) 2] 3])
qed

lemma restoreTable_keeps:
  assumes k: "pg_keeps pg I (merge_statement (pg_quote pg) tms) (merge_load (pg_quote pg) tms)"
    and i: "I tx" and tm: "tm \<in> set tms"
    and r: "restoreTable k pg tx r tm RestoreMerge = Inr (tr, tx', r')"
  shows "I tx'"
proof -
  obtain res tx1 where 1: "introspect pg tx (tm_Name tm) = (res, tx1)"
    by (cases "introspect pg tx (tm_Name tm)")
  have i1: "I tx1" using introspect_keeps[OF k i 1] .
  show ?thesis
  proof (cases res)
    case (Inl e)
    then show ?thesis using r 1 i1 by (auto simp: restoreTable_def Let_def split: sum.splits prod.splits)
  next
    case (Inr live)
    obtain rs cr where s: "read_stream k (new_chunkReader r) = (rs, cr)"
      by (cases "read_stream k (new_chunkReader r)")
    from r 1 Inr s obtain n2 tx2 c3 n3 tx3 data tx4 where
      2: "exec pg [] tx1 drop_staging_sql [] = Inr (n2, tx2)" and
      3: "exec pg c3 tx2 (create_staging_sql (pg_quote pg) tm) [] = Inr (n3, tx3)" and
      4: "pg_copy_from pg tx3 (load_sql (pg_quote pg) tm) data = Inr tx4" and
      5: "merge_staged pg tx4 tm live RestoreMerge (table_result (tm_Name tm)) = Inr (tr, tx')"
      by (cases rs) (auto simp: restoreTable_def Let_def rbind_Inr_iff simp del: append.simps)
    have "I tx3"
      using keeps_exec[OF k keeps_exec[OF k i1 merge_statementI(1) 2] merge_statementI(3)[OF tm] 3] .
    then have "I tx4" using keeps_copy_from[OF k _ _ 4] tm by (auto simp: merge_load_def)
    then show ?thesis by (rule merge_staged_keeps[OF k _ tm 5])
  qed
qed

lemma restore_tables_Cons:
  "restore_tables k pg mode (res, tx, r) (tm # ts) =
     rbind (restoreTable k pg tx r tm mode) (\<lambda>(tr, tx', r'). restore_tables k pg mode (add_result res tm tr, tx', r') ts)"
  by (cases "restoreTable k pg tx r tm mode") (auto simp: restore_tables_def)

lemma restore_tables_keeps:
  assumes k: "pg_keeps pg I (merge_statement (pg_quote pg) tms) (merge_load (pg_quote pg) tms)"
    and "set ts \<subseteq> set tms" and "I tx"
    and "restore_tables k pg RestoreMerge (res, tx, r) ts = Inr (res', tx', r')"
  shows "I tx'"
  using assms(2-)
proof (induction ts arbitrary: res tx r)
  case Nil
  then show ?case by (simp add: restore_tables_def)
next
  case (Cons tm ts)
  then obtain tr tx1 r1 where
    1: "restoreTable k pg tx r tm RestoreMerge = Inr (tr, tx1, r1)" and
    2: "restore_tables k pg RestoreMerge (add_result res tm tr, tx1, r1) ts = Inr (res', tx', r')"
    by (auto simp: restore_tables_Cons rbind_Inr_iff)
  have "I tx1" using restoreTable_keeps[OF k _ _ 1] Cons.prems by simp
  then show ?case using Cons.IH[OF _ _ 2] Cons.prems(1) by simp
qed

text \<open>
  C8 (\<open>merge_restore_statements\<close>): what a restore in merge mode sends to the database, for the
  manifest \<open>m\<close> it reads from the archive.  Every property \<open>I\<close> of the transaction that the
  catalogue queries, the loads of the staging table and the merge statements of the tables of
  \<open>m\<close> keep holds of the transaction that is committed.  So a merge sends nothing else: no
  DELETE or TRUNCATE of its own, no statement about a table that the manifest does not name, no upsert
  without a key.  What a column type of the archive may carry into the statement that creates the
  staging table is part of that statement, and so of the premise.
\<close>

theorem merge_restore_statements:
  assumes "readHeader uj r = Inr (m, r1)"
    and "pg_keeps pg I (merge_statement (pg_quote pg) (mf_Tables m)) (merge_load (pg_quote pg) (mf_Tables m))"
    and "\<forall>tx. pg_begin pg db = Inr tx \<longrightarrow> I tx"
    and "Restore k pg uj e db r RestoreMerge = (Inr (res, ex), db')"
  shows "\<exists>tx. I tx \<and> pg_commit pg tx = Inr db'"
proof -
  from assms(1,4) obtain tx n tx1 res' tx2 r2 where
    b: "pg_begin pg db = Inr tx" and
    s: "exec pg ''sqldump: defer constraints (needs elevated role)'' tx
          ''SET LOCAL session_replication_role = replica'' [] = Inr (n, tx1)" and
    t: "restore_tables k pg RestoreMerge
          (\<lparr>r_Mode = mode_String RestoreMerge, r_Tables = [], r_Warnings = []\<rparr>, tx1, r1) (mf_Tables m) = Inr (res', tx2, r2)" and
    c: "pg_commit pg tx2 = Inr db'"
    by (auto simp: Restore_def restore_body_def rbind_Inr_iff split: sum.splits prod.splits)
  have "I tx1" using keeps_exec[OF assms(2) _ merge_statementI(2) s] assms(3) b by blast
  then have "I tx2" by (rule restore_tables_keeps[OF assms(2) subset_refl _ t])
  with c show ?thesis by blast
qed

lemma log_pg_keeps:
  "pg_keeps log_pg (\<lambda>log. \<forall>s \<in> set log. s = ''COPY'' \<or> (\<exists>args. P s args)) P Q"
  by (auto simp: pg_keeps_def log_pg_def)

theorem merge_restore_statements_witness:
  "\<exists>res ex log. Restore 4 log_pg (\<lambda>_. Inr demo_manifest) demo_engine []
      (magic @ block_bytes [123, 125] @ table_bytes [[1, 2], [3]] @ block_bytes [9]) RestoreMerge = (Inr (res, ex), log) \<and>
    (\<forall>s \<in> set log. s = ''COPY'' \<or> (\<exists>args. merge_statement (pg_quote log_pg) [demo_meta] s args))"
proof -
  let ?r = "magic @ block_bytes [123, 125] @ table_bytes [[1, 2], [3]] @ block_bytes [9]"
  have "\<exists>res ex log. Restore 4 log_pg (\<lambda>_. Inr demo_manifest) demo_engine [] ?r RestoreMerge = (Inr (res, ex), log)"
    using Restore_bytes[of "[123, 125]" "\<lambda>_. Inr demo_manifest" demo_manifest "[[[1, 2], [3]]]" "\<lambda>_. [9]"
        4 log_pg demo_engine "[]" "[]" RestoreMerge]
    by (simp add: demo_manifest_def restore_spec_def restore_work_def apply_tables_def apply_table_def Let_def
        introspect_def tableOID_def keyColumns_def scanStrings_def connect_def dropStaging_def exec_def merge_staged_def merge_def
        resetSequences_def demo_meta_def log_pg_def intersect_def filterPresent_def colNames_def)
  then obtain res ex log where
    r: "Restore 4 log_pg (\<lambda>_. Inr demo_manifest) demo_engine [] ?r RestoreMerge = (Inr (res, ex), log)"
    by blast
  have h: "readHeader (\<lambda>_. Inr demo_manifest) ?r = Inr (demo_manifest, table_bytes [[1, 2], [3]] @ block_bytes [9])"
    by (rule readHeader_bytes) simp_all
  have t: "mf_Tables demo_manifest = [demo_meta]" by (simp add: demo_manifest_def)
  have b: "\<forall>tx. pg_begin log_pg [] = Inr tx \<longrightarrow>
      (\<forall>s \<in> set tx. s = ''COPY'' \<or> (\<exists>args. merge_statement (pg_quote log_pg) (mf_Tables demo_manifest) s args))"
    by (simp add: log_pg_def)
  obtain tx where "\<forall>s \<in> set tx. s = ''COPY'' \<or> (\<exists>args. merge_statement (pg_quote log_pg) [demo_meta] s args)"
    "pg_commit log_pg tx = Inr log"
    using merge_restore_statements[OF h log_pg_keeps b r] unfolding t by blast
  with r show ?thesis by (auto simp: log_pg_def)
qed

lemma create_staging_text:
  assumes "tm_Columns tm = c # cs"
  obtains rest where "create_staging_sql q tm =
    ''CREATE TEMP TABLE _sqldump_stg ('' @ q (c_Name c) @ '' '' @ c_Type c @ rest"
proof -
  have "\<exists>rest. Join '', '' ((a @ b) # xs) = a @ b @ rest" for a b :: string and xs
    by (cases xs) auto
  from this[of "q (c_Name c)" "'' '' @ c_Type c" "map (\<lambda>c. q (c_Name c) @ '' '' @ c_Type c) cs"]
  obtain rest where "Join '', '' (map (\<lambda>c. q (c_Name c) @ '' '' @ c_Type c) (c # cs)) =
      q (c_Name c) @ ('' '' @ c_Type c) @ rest" by auto
  then have "create_staging_sql q tm = ''CREATE TEMP TABLE _sqldump_stg ('' @ q (c_Name c) @ '' '' @ c_Type c @
      (rest @ '') ON COMMIT DROP'')"
    using assms by (simp add: create_staging_sql_def stg_def)
  then show ?thesis by (rule that)
qed

text \<open>
  C20 (\<open>archive_types_executed\<close>): what a restore trusts.  Column and table names are quoted, but
  the type of a column goes into the statement that creates the staging table as the archive
  spells it.  Whenever a table the target has is restored, in either mode, the server has
  executed a statement that holds the archive's text for the first column's type unchanged
  between the quoted name and the rest of the statement, whatever that text is: an archive is
  executed, not only loaded.
\<close>

theorem archive_types_executed:
  assumes "tm_Columns tm = c # cs" and "introspect pg tx (tm_Name tm) = (Inr live, tx1)"
    and "restoreTable k pg tx r tm mode = Inr (tr, tx', r')"
  shows "\<exists>n2 tx2 n3 tx3 rest.
    pg_exec pg tx1 drop_staging_sql [] = Inr (n2, tx2) \<and>
    pg_exec pg tx2 (''CREATE TEMP TABLE _sqldump_stg ('' @ pg_quote pg (c_Name c) @ '' '' @ c_Type c @ rest) [] = Inr (n3, tx3)"
proof -
  from assms(2,3) obtain n2 tx2 n3 tx3 where
    2: "pg_exec pg tx1 drop_staging_sql [] = Inr (n2, tx2)" and
    3: "pg_exec pg tx2 (create_staging_sql (pg_quote pg) tm) [] = Inr (n3, tx3)"
    by (auto simp: restoreTable_def Let_def rbind_Inr_iff exec_def simp del: append.simps)
  obtain rest where "create_staging_sql (pg_quote pg) tm =
      ''CREATE TEMP TABLE _sqldump_stg ('' @ pg_quote pg (c_Name c) @ '' '' @ c_Type c @ rest"
    using create_staging_text[OF assms(1)] by blast
  with 2 3 show ?thesis by metis
qed

definition hostile_meta :: TableMeta where
  "hostile_meta = \<lparr>tm_Name = ''t'',
     tm_Columns = [\<lparr>c_Name = ''id'', c_Type = ''int); DELETE FROM t; --'', c_Serial = False\<rparr>], tm_PK = []\<rparr>"

theorem archive_types_executed_witness:
  "\<exists>n2 tx2 n3 tx3 rest.
    pg_exec log_pg [] drop_staging_sql [] = Inr (n2, tx2) \<and>
    pg_exec log_pg tx2 (''CREATE TEMP TABLE _sqldump_stg ('' @ pg_quote log_pg ''id'' @ '' '' @
      ''int); DELETE FROM t; --'' @ rest) [] = Inr (n3, tx3)"
proof -
  obtain live where i: "introspect log_pg [] (tm_Name hostile_meta) = (Inr live, [])"
    by (simp add: introspect_def tableOID_def keyColumns_def scanStrings_def log_pg_def hostile_meta_def)
  have "\<exists>tr tx' r'. restoreTable 4 log_pg [] (table_bytes [[1, 2], [3]] @ []) hostile_meta RestoreMerge = Inr (tr, tx', r')"
    by (subst restoreTable_bytes)
      (simp_all add: apply_table_def Let_def introspect_def tableOID_def keyColumns_def scanStrings_def dropStaging_def
        exec_def merge_staged_def merge_def resetSequences_def hostile_meta_def log_pg_def intersect_def filterPresent_def
        colNames_def)
  then obtain tr tx' r' where
    r: "restoreTable 4 log_pg [] (table_bytes [[1, 2], [3]] @ []) hostile_meta RestoreMerge = Inr (tr, tx', r')" by blast
  have c: "tm_Columns hostile_meta = \<lparr>c_Name = ''id'', c_Type = ''int); DELETE FROM t; --'', c_Serial = False\<rparr> # []"
    by (simp add: hostile_meta_def)
  show ?thesis using archive_types_executed[OF c i r] by (simp only: Column.select_convs)
qed

text \<open>
  \<open>upsert_columns\<close>: the columns of a merge.  The restored columns are those that both the
  dump and the live table have, in the dump's order; the conflict key is the part of the live
  key among them, and the key and the assigned columns split them: no key column is assigned,
  no other is left out.
\<close>

theorem upsert_columns:
  fixes tm live :: TableMeta
  defines "cols \<equiv> intersect (colNames tm) (colNames live)"
  defines "pk \<equiv> filterPresent (tm_PK live) cols"
  shows "set cols = set (colNames tm) \<inter> set (colNames live) \<and>
    set pk = set (tm_PK live) \<inter> set cols \<and>
    set (diff cols pk) \<inter> set pk = {} \<and> set (diff cols pk) \<union> set pk = set cols \<and>
    (sorted_wrt R (colNames tm) \<longrightarrow> sorted_wrt R cols \<and> sorted_wrt R (diff cols pk))"
  by (auto simp: cols_def pk_def intersect_def filterPresent_def diff_def sorted_wrt_filter)

theorem upsert_columns_witness:
  "let cols = intersect (colNames demo_meta) [''v'', ''w'']; pk = filterPresent [''id''] cols
   in cols = [''v''] \<and> pk = [] \<and> sorted_wrt (\<lambda>a b. a < b) cols"
proof -
  have "sorted_wrt (\<lambda>a b :: string. a < b) (colNames demo_meta)"
    by (simp add: colNames_def demo_meta_def less_char_def)
  then have "sorted_wrt (\<lambda>a b :: string. a < b) (intersect (colNames demo_meta)
      (colNames \<lparr>tm_Name = ''t'', tm_Columns = [\<lparr>c_Name = ''v'', c_Type = ''text'', c_Serial = False\<rparr>,
        \<lparr>c_Name = ''w'', c_Type = ''text'', c_Serial = False\<rparr>], tm_PK = [''id'']\<rparr>))"
    using upsert_columns by blast
  then show ?thesis
    by (simp add: colNames_def demo_meta_def intersect_def filterPresent_def)
qed

end
