(* ===== verification/Backup.thy ===== *)
theory Backup
  imports GoStrings
begin

text \<open>
  The module backup format, after \<^verbatim>\<open>backup/manifest.go\<close>, \<^verbatim>\<open>backup/compress.go\<close>,
  \<^verbatim>\<open>backup/migration.go\<close> and \<^verbatim>\<open>backup/restore.go\<close>: archives and their entities, packing,
  schema migration and the restore report.

  \<open>encoding/json\<close> and \<open>compress/gzip\<close> are parameters.  A Go map that may be nil is an
  option: reading a nil map finds nothing, writing to it panics.  A nil slice is the empty list.
\<close>

section \<open>Archives\<close>

record Manifest =
  mf_Module :: string
  mf_SchemaVersion :: int
  mf_ExportedAt :: int
  mf_TenantID :: u32
  mf_FullBackup :: bool
  mf_EntityCounts :: "(string \<rightharpoonup> nat) option"

record 'raw Archive =
  ar_Manifest :: Manifest
  ar_Entities :: "(string \<rightharpoonup> 'raw) option"
  ar_Extras :: "(string \<rightharpoonup> 'raw) option"

datatype backup_error = MarshalErr | UnmarshalErr | GzipErr | NilMapPanic
  | ModuleMismatch string string | CannotDowngrade int int | MissingMigration int | MigrationFailed int
  | VersionTooNew int int | InvalidVersion int

definition map_read :: "('k \<rightharpoonup> 'v) option \<Rightarrow> 'k \<Rightarrow> 'v option" where
  "map_read m k = (case m of None \<Rightarrow> None | Some f \<Rightarrow> f k)"

definition map_write :: "('k \<rightharpoonup> 'v) option \<Rightarrow> 'k \<Rightarrow> 'v \<Rightarrow> (backup_error, ('k \<rightharpoonup> 'v) option) result" where
  "map_write m k v = (case m of None \<Rightarrow> Inl NilMapPanic | Some f \<Rightarrow> Inr (Some (f(k \<mapsto> v))))"

definition NewArchive :: "int \<Rightarrow> string \<Rightarrow> int \<Rightarrow> u32 \<Rightarrow> bool \<Rightarrow> 'raw Archive" where
  "NewArchive now module schemaVersion tenantID fullBackup =
     \<lparr>ar_Manifest = \<lparr>mf_Module = module, mf_SchemaVersion = schemaVersion, mf_ExportedAt = now,
        mf_TenantID = tenantID, mf_FullBackup = fullBackup, mf_EntityCounts = Some Map.empty\<rparr>,
      ar_Entities = Some Map.empty, ar_Extras = Some Map.empty\<rparr>"

text \<open>\<open>marshal\<close> and \<open>unmarshal\<close> are the JSON codec at the element type \<open>T\<close>.\<close>

definition SetEntities :: "('t list \<Rightarrow> 'raw option) \<Rightarrow> 'raw Archive \<Rightarrow> string \<Rightarrow> 't list
    \<Rightarrow> (backup_error, 'raw Archive) result" where
  "SetEntities marshal a key entities =
     (case marshal entities of
        None \<Rightarrow> Inl MarshalErr
      | Some raw \<Rightarrow>
          rbind (map_write (ar_Entities a) key raw) (\<lambda>es.
          rbind (map_write (mf_EntityCounts (ar_Manifest a)) key (length entities)) (\<lambda>cs.
          Inr (a\<lparr>ar_Entities := es, ar_Manifest := (ar_Manifest a)\<lparr>mf_EntityCounts := cs\<rparr>\<rparr>))))"

definition GetEntities :: "('raw \<Rightarrow> 't list option) \<Rightarrow> 'raw Archive \<Rightarrow> string \<Rightarrow> (backup_error, 't list) result" where
  "GetEntities unmarshal a key =
     (case map_read (ar_Entities a) key of
        None \<Rightarrow> Inr []
      | Some raw \<Rightarrow> (case unmarshal raw of None \<Rightarrow> Inl UnmarshalErr | Some res \<Rightarrow> Inr res))"

definition SetExtra :: "('t \<Rightarrow> 'raw option) \<Rightarrow> 'raw Archive \<Rightarrow> string \<Rightarrow> 't \<Rightarrow> (backup_error, 'raw Archive) result" where
  "SetExtra marshal a key v =
     (case marshal v of
        None \<Rightarrow> Inl MarshalErr
      | Some raw \<Rightarrow> rbind (map_write (ar_Extras a) key raw) (\<lambda>xs. Inr (a\<lparr>ar_Extras := xs\<rparr>)))"

text \<open>\<open>zero\<close> is the zero value of the type asked for.\<close>

definition GetExtra :: "'t \<Rightarrow> ('raw \<Rightarrow> 't option) \<Rightarrow> 'raw Archive \<Rightarrow> string \<Rightarrow> (backup_error, 't) result" where
  "GetExtra zero unmarshal a key =
     (case map_read (ar_Extras a) key of
        None \<Rightarrow> Inr zero
      | Some raw \<Rightarrow> (case unmarshal raw of None \<Rightarrow> Inl UnmarshalErr | Some res \<Rightarrow> Inr res))"

section \<open>Packing\<close>

record 'raw pack_api =
  json_Archive :: "'raw Archive \<Rightarrow> byte list option"
  unjson_Archive :: "byte list \<Rightarrow> 'raw Archive option"
  gzip :: "byte list \<Rightarrow> byte list"
  gunzip :: "byte list \<Rightarrow> byte list option"

definition Pack :: "'raw pack_api \<Rightarrow> 'raw Archive \<Rightarrow> (backup_error, byte list) result" where
  "Pack P a = (case json_Archive P a of None \<Rightarrow> Inl MarshalErr | Some jsonData \<Rightarrow> Inr (gzip P jsonData))"

definition Unpack :: "'raw pack_api \<Rightarrow> byte list \<Rightarrow> (backup_error, 'raw Archive) result" where
  "Unpack P data =
     (case gunzip P data of
        None \<Rightarrow> Inl GzipErr
      | Some jsonData \<Rightarrow> (case unjson_Archive P jsonData of None \<Rightarrow> Inl UnmarshalErr | Some a \<Rightarrow> Inr a))"

text \<open>
  What the struct tags make of an archive: the extras carry \<open>omitempty\<close>, so an archive without
  extras comes back with a nil map there.
\<close>

definition omitempty :: "'raw Archive \<Rightarrow> 'raw Archive" where
  "omitempty a = (if ar_Extras a = Some Map.empty then a\<lparr>ar_Extras := None\<rparr> else a)"

section \<open>Migrations\<close>

text \<open>
  A migration changes the entities map in place: what it did before failing stays.
\<close>

type_synonym 'raw entities = "(string \<rightharpoonup> 'raw) option"
type_synonym 'raw MigrateFunc = "'raw entities \<Rightarrow> backup_error option \<times> 'raw entities"

record 'raw MigrationRegistry =
  mr_module :: string
  mr_migrations :: "int \<rightharpoonup> 'raw MigrateFunc"

definition NewMigrationRegistry :: "string \<Rightarrow> 'raw MigrationRegistry" where
  "NewMigrationRegistry module = \<lparr>mr_module = module, mr_migrations = Map.empty\<rparr>"

definition mig_Register :: "'raw MigrationRegistry \<Rightarrow> int \<Rightarrow> 'raw MigrateFunc \<Rightarrow> 'raw MigrationRegistry" where
  "mig_Register r sourceVersion fn = r\<lparr>mr_migrations := (mr_migrations r)(sourceVersion \<mapsto> fn)\<rparr>"

definition set_version :: "int \<Rightarrow> 'raw Archive \<Rightarrow> 'raw Archive" where
  "set_version v a = a\<lparr>ar_Manifest := (ar_Manifest a)\<lparr>mf_SchemaVersion := v\<rparr>\<rparr>"

text \<open>The loop: the archive is changed through the pointer, so the state reached is returned with an error too.\<close>

function migrate_loop :: "'raw MigrationRegistry \<Rightarrow> int \<Rightarrow> int \<Rightarrow> nat \<Rightarrow> 'raw Archive
    \<Rightarrow> (nat \<times> backup_error option) \<times> 'raw Archive" where
  "migrate_loop r targetVersion v applied a =
     (if v < targetVersion then
        (case mr_migrations r v of
           None \<Rightarrow> ((applied, Some (MissingMigration v)), a)
         | Some fn \<Rightarrow>
             (case fn (ar_Entities a) of
                (Some _, es) \<Rightarrow> ((applied, Some (MigrationFailed v)), a\<lparr>ar_Entities := es\<rparr>)
              | (None, es) \<Rightarrow>
                  migrate_loop r targetVersion (v + 1) (applied + 1) (set_version (v + 1) (a\<lparr>ar_Entities := es\<rparr>))))
      else ((applied, None), a))"
  by pat_completeness auto
termination by (relation "measure (\<lambda>(_, t, v, _, _). nat (t - v))") auto

declare migrate_loop.simps [simp del]

definition RunMigrations :: "'raw MigrationRegistry \<Rightarrow> 'raw Archive \<Rightarrow> int
    \<Rightarrow> (nat \<times> backup_error option) \<times> 'raw Archive" where
  "RunMigrations r a targetVersion =
     (if mf_Module (ar_Manifest a) \<noteq> mr_module r then
        ((0, Some (ModuleMismatch (mf_Module (ar_Manifest a)) (mr_module r))), a)
      else let sourceVersion = mf_SchemaVersion (ar_Manifest a) in
      if sourceVersion = targetVersion then ((0, None), a)
      else if sourceVersion > targetVersion then ((0, Some (CannotDowngrade sourceVersion targetVersion)), a)
      else migrate_loop r targetVersion sourceVersion 0 a)"

section \<open>Migration helpers\<close>

text \<open>
  An item of a JSON array of objects is a map, nil when the array holds \<open>null\<close> there.
\<close>

type_synonym 'j item = "(string \<rightharpoonup> 'j) option"

record ('raw, 'j) items_api =
  json_items :: "'j item list \<Rightarrow> 'raw option"
  unjson_items :: "'raw \<Rightarrow> 'j item list option"

text \<open>The frame the three helpers share: decode, change every item, encode, store.\<close>

definition migrate_items :: "('raw, 'j) items_api \<Rightarrow> ('j item \<Rightarrow> (backup_error, 'j item) result) \<Rightarrow> string
    \<Rightarrow> 'raw MigrateFunc" where
  "migrate_items I f entityKey entities =
     (case map_read entities entityKey of
        None \<Rightarrow> (None, entities)
      | Some raw \<Rightarrow>
          (case unjson_items I raw of
             None \<Rightarrow> (Some UnmarshalErr, entities)
           | Some items \<Rightarrow>
               (case fold_err (\<lambda>done it. rbind (f it) (\<lambda>it'. Inr (done @ [it']))) [] items of
                  Inl e \<Rightarrow> (Some e, entities)
                | Inr items' \<Rightarrow>
                    (case json_items I items' of
                       None \<Rightarrow> (Some MarshalErr, entities)
                     | Some updated \<Rightarrow>
                         (case map_write entities entityKey updated of
                            Inl e \<Rightarrow> (Some e, entities)
                          | Inr es \<Rightarrow> (None, es))))))"

definition add_field :: "string \<Rightarrow> 'j \<Rightarrow> 'j item \<Rightarrow> (backup_error, 'j item) result" where
  "add_field fieldName defaultValue it =
     (if map_read it fieldName = None then map_write it fieldName defaultValue else Inr it)"

definition rename_field :: "string \<Rightarrow> string \<Rightarrow> 'j item \<Rightarrow> (backup_error, 'j item) result" where
  "rename_field oldName newName it =
     (case map_read it oldName of
        None \<Rightarrow> Inr it
      | Some val \<Rightarrow> rbind (map_write it newName val) (\<lambda>it'. Inr (map_option (\<lambda>m. m(oldName := None)) it')))"

definition remove_field :: "string \<Rightarrow> 'j item \<Rightarrow> (backup_error, 'j item) result" where
  "remove_field fieldName it = Inr (map_option (\<lambda>m. m(fieldName := None)) it)"

definition MigrateAddField :: "('raw, 'j) items_api \<Rightarrow> string \<Rightarrow> string \<Rightarrow> 'j \<Rightarrow> 'raw MigrateFunc" where
  "MigrateAddField I entityKey fieldName defaultValue = migrate_items I (add_field fieldName defaultValue) entityKey"

definition MigrateRenameField :: "('raw, 'j) items_api \<Rightarrow> string \<Rightarrow> string \<Rightarrow> string \<Rightarrow> 'raw MigrateFunc" where
  "MigrateRenameField I entityKey oldName newName = migrate_items I (rename_field oldName newName) entityKey"

definition MigrateRemoveField :: "('raw, 'j) items_api \<Rightarrow> string \<Rightarrow> string \<Rightarrow> 'raw MigrateFunc" where
  "MigrateRemoveField I entityKey fieldName = migrate_items I (remove_field fieldName) entityKey"

section \<open>Restore reports and validation\<close>

datatype RestoreMode = RestoreModeSkip | RestoreModeOverwrite

record EntityResult =
  er_EntityType :: string
  er_Total :: int
  er_Created :: int
  er_Updated :: int
  er_Skipped :: int
  er_Failed :: int

record RestoreResult =
  rr_Success :: bool
  rr_Results :: "EntityResult list"
  rr_Warnings :: "string list"
  rr_SourceVersion :: int
  rr_TargetVersion :: int
  rr_MigrationsApplied :: int

definition NewRestoreResult :: "int \<Rightarrow> int \<Rightarrow> int \<Rightarrow> RestoreResult" where
  "NewRestoreResult sourceVersion targetVersion migrationsApplied =
     \<lparr>rr_Success = True, rr_Results = [], rr_Warnings = [], rr_SourceVersion = sourceVersion,
      rr_TargetVersion = targetVersion, rr_MigrationsApplied = migrationsApplied\<rparr>"

definition AddResult :: "EntityResult \<Rightarrow> RestoreResult \<Rightarrow> RestoreResult" where
  "AddResult er r =
     (let r' = r\<lparr>rr_Results := rr_Results r @ [er]\<rparr> in
      if er_Failed er > 0 then r'\<lparr>rr_Success := False\<rparr> else r')"

definition AddWarning :: "string \<Rightarrow> RestoreResult \<Rightarrow> RestoreResult" where
  "AddWarning msg r = r\<lparr>rr_Warnings := rr_Warnings r @ [msg]\<rparr>"

definition Validate :: "'raw Archive \<Rightarrow> string \<Rightarrow> int \<Rightarrow> (backup_error, unit) result" where
  "Validate a expectedModule currentVersion =
     (let m = ar_Manifest a in
      if mf_Module m \<noteq> expectedModule then Inl (ModuleMismatch expectedModule (mf_Module m))
      else if mf_SchemaVersion m > currentVersion then Inl (VersionTooNew (mf_SchemaVersion m) currentVersion)
      else if mf_SchemaVersion m < 1 then Inl (InvalidVersion (mf_SchemaVersion m))
      else Inr ())"

section \<open>Migrations: specification\<close>

text \<open>
  The specification of a migration run, on the list of source versions it goes through: how many
  migrations were applied, the error that stopped it, and the entities.
\<close>

fun run_versions :: "'raw MigrationRegistry \<Rightarrow> int list \<Rightarrow> 'raw entities \<Rightarrow> nat \<times> backup_error option \<times> 'raw entities" where
  "run_versions r [] es = (0, None, es)"
| "run_versions r (v # vs) es =
     (case mr_migrations r v of
        None \<Rightarrow> (0, Some (MissingMigration v), es)
      | Some fn \<Rightarrow>
          (case fn es of
             (Some _, es') \<Rightarrow> (0, Some (MigrationFailed v), es')
           | (None, es') \<Rightarrow> (case run_versions r vs es' of (k, e, es'') \<Rightarrow> (Suc k, e, es''))))"

lemma run_versions_append:
  "run_versions r (vs @ ws) es =
     (case run_versions r vs es of
        (k, Some e, es') \<Rightarrow> (k, Some e, es')
      | (k, None, es') \<Rightarrow> (case run_versions r ws es' of (k', e, es'') \<Rightarrow> (k + k', e, es'')))"
proof (induction vs arbitrary: es)
  case Nil
  then show ?case by (simp split: prod.split)
next
  case (Cons v vs)
  show ?case
  proof (cases "mr_migrations r v")
    case None
    then show ?thesis by simp
  next
    case (Some fn)
    obtain e es' where f: "fn es = (e, es')" by (cases "fn es")
    obtain k e2 es2 where r: "run_versions r vs es' = (k, e2, es2)" by (metis surj_pair)
    show ?thesis using Some f Cons[of es'] r by (cases e; cases e2) (auto split: prod.split)
  qed
qed

lemma run_versions_count: "run_versions r vs es = (k, e, es') \<Longrightarrow> k \<le> length vs \<and> (e = None \<longleftrightarrow> k = length vs)"
  by (induction vs arbitrary: es k e es') (auto split: option.splits prod.splits)

lemma run_versions_complete:
  assumes "\<And>v. v \<in> set vs \<Longrightarrow> \<exists>fn. mr_migrations r v = Some fn \<and> (\<forall>es. fst (fn es) = None)"
  shows "\<exists>es'. run_versions r vs es = (length vs, None, es')"
  using assms
proof (induction vs arbitrary: es)
  case Nil
  then show ?case by simp
next
  case (Cons v vs)
  obtain fn where fn: "mr_migrations r v = Some fn" "\<forall>es. fst (fn es) = None" using Cons.prems[of v] by auto
  obtain es' where f: "fn es = (None, es')" using fn(2) by (metis prod.collapse)
  obtain es2 where "run_versions r vs es' = (length vs, None, es2)"
    using Cons.IH[of es'] Cons.prems by auto
  then show ?case using fn(1) f by simp
qed

lemma set_version_simps [simp]:
  "mf_SchemaVersion (ar_Manifest (set_version v a)) = v" "ar_Entities (set_version v a) = ar_Entities a"
  "mf_Module (ar_Manifest (set_version v a)) = mf_Module (ar_Manifest a)" "ar_Extras (set_version v a) = ar_Extras a"
  "set_version w (set_version v a) = set_version w a"
  "set_version v (a\<lparr>ar_Entities := es\<rparr>) = (set_version v a)\<lparr>ar_Entities := es\<rparr>"
  "ar_Manifest (set_version v a\<lparr>ar_Entities := es\<rparr>) = ar_Manifest (set_version v a)"
  by (simp_all add: set_version_def)

lemma set_version_same: "mf_SchemaVersion (ar_Manifest a) = v \<Longrightarrow> set_version v a = a"
  by (auto simp: set_version_def)

lemma migrate_loop_refines:
  assumes "mf_SchemaVersion (ar_Manifest a) = v" and "v \<le> t"
  shows "migrate_loop r t v n a =
    (case run_versions r [v..t - 1] (ar_Entities a) of
       (k, e, es) \<Rightarrow> ((n + k, e), (set_version (v + int k) a)\<lparr>ar_Entities := es\<rparr>))"
  using assms
proof (induction r t v n a rule: migrate_loop.induct)
  case (1 r t v n a)
  show ?case
  proof (cases "v < t")
    case False
    then have "[v..t - 1] = []" using 1(3) by simp
    then show ?thesis using False set_version_same[OF 1(2)] by (subst migrate_loop.simps) simp
  next
    case True
    then have vs: "[v..t - 1] = v # [v + 1..t - 1]" by (simp add: upto_rec1)
    show ?thesis
    proof (cases "mr_migrations r v")
      case None
      then show ?thesis using True set_version_same[OF 1(2)] by (subst migrate_loop.simps) (simp add: vs)
    next
      case (Some fn)
      obtain e es where f: "fn (ar_Entities a) = (e, es)" by (cases "fn (ar_Entities a)")
      show ?thesis
      proof (cases e)
        case None
        have "migrate_loop r t (v + 1) (n + 1) (set_version (v + 1) (a\<lparr>ar_Entities := es\<rparr>)) =
          (case run_versions r [v + 1..t - 1] es of
             (k, e, es') \<Rightarrow> ((n + 1 + k, e), (set_version (v + 1 + int k) (set_version (v + 1) (a\<lparr>ar_Entities := es\<rparr>)))\<lparr>ar_Entities := es'\<rparr>))"
          using 1(1)[OF True Some f[symmetric] None] True by simp
        then show ?thesis using True Some f None
          by (subst migrate_loop.simps) (simp add: vs algebra_simps split: prod.split)
      next
        case (Some err)
        then show ?thesis using True \<open>mr_migrations r v = Some fn\<close> f set_version_same[OF 1(2)]
          by (subst migrate_loop.simps) (simp add: vs)
      qed
    qed
  qed
qed

lemma RunMigrations_refines:
  assumes "mf_Module (ar_Manifest a) = mr_module r" and "mf_SchemaVersion (ar_Manifest a) \<le> t"
  shows "RunMigrations r a t =
    (case run_versions r [mf_SchemaVersion (ar_Manifest a)..t - 1] (ar_Entities a) of
       (k, e, es) \<Rightarrow> ((k, e), (set_version (mf_SchemaVersion (ar_Manifest a) + int k) a)\<lparr>ar_Entities := es\<rparr>))"
proof (cases "mf_SchemaVersion (ar_Manifest a) = t")
  case True
  then show ?thesis using assms set_version_same[OF True] by (simp add: RunMigrations_def)
next
  case False
  then show ?thesis using assms migrate_loop_refines[OF refl assms(2), of r 0] by (simp add: RunMigrations_def Let_def)
qed

section \<open>Items: lemmas\<close>

lemma fold_err_items:
  "fold_err (\<lambda>done it. rbind (f it) (\<lambda>it'. Inr (done @ [it']))) acc items = Inr out \<longleftrightarrow>
     (\<exists>out'. out = acc @ out' \<and> list_all2 (\<lambda>it it'. f it = Inr it') items out')"
proof (induction items arbitrary: acc)
  case Nil
  then show ?case by auto
next
  case (Cons it items)
  then show ?case by (cases "f it") (auto simp: list_all2_Cons1)
qed

text \<open>What a helper promises: nothing changes when the key is absent, else the decoded items are changed one by one.\<close>

lemma migrate_items_ok:
  assumes "migrate_items I f key entities = (None, es)" and "map_read entities key = Some raw"
  shows "\<exists>items items' raw'. unjson_items I raw = Some items \<and> list_all2 (\<lambda>it it'. f it = Inr it') items items' \<and>
    json_items I items' = Some raw' \<and> map_read es key = Some raw' \<and>
    (\<forall>k. k \<noteq> key \<longrightarrow> map_read es k = map_read entities k)"
proof -
  obtain items where i: "unjson_items I raw = Some items"
    using assms by (auto simp: migrate_items_def split: option.splits)
  obtain items' where f: "fold_err (\<lambda>done it. rbind (f it) (\<lambda>it'. Inr (done @ [it']))) [] items = Inr items'"
    using assms i by (auto simp: migrate_items_def split: option.splits sum.splits)
  then have l: "list_all2 (\<lambda>it it'. f it = Inr it') items items'" unfolding fold_err_items by auto
  obtain raw' where j: "json_items I items' = Some raw'"
    using assms i f by (auto simp: migrate_items_def split: option.splits)
  obtain m where m: "entities = Some m" using assms(2) by (auto simp: map_read_def split: option.splits)
  have "es = Some (m(key \<mapsto> raw'))"
    using assms i f j m by (simp add: migrate_items_def map_write_def)
  then show ?thesis using i l j m by (auto simp: map_read_def)
qed

section \<open>Properties\<close>

text \<open>What a run did: the states of the entities it went through, and why it stopped where it did.\<close>

lemma run_versions_chain:
  assumes "run_versions r [v..t - 1] es = (k, err, es')"
  shows "\<exists>st. st 0 = es \<and>
    (\<forall>i < k. \<exists>fn. mr_migrations r (v + int i) = Some fn \<and> fn (st i) = (None, st (Suc i))) \<and>
    (case err of
       None \<Rightarrow> es' = st k
     | Some e \<Rightarrow> v + int k < t \<and>
         (case mr_migrations r (v + int k) of
            None \<Rightarrow> e = MissingMigration (v + int k) \<and> es' = st k
          | Some fn \<Rightarrow> e = MigrationFailed (v + int k) \<and> (\<exists>cause. fn (st k) = (Some cause, es'))))"
  using assms
proof (induction "[v..t - 1]" arbitrary: v es k)
  case Nil
  then show ?case by (auto intro!: exI[of _ "\<lambda>_. es"])
next
  case (Cons w vs)
  then have w: "w = v" "vs = [v + 1..t - 1]" "v < t" by (auto simp: upto.simps[of v] split: if_splits)
  have run: "run_versions r (v # [v + 1..t - 1]) es = (k, err, es')" using Cons.prems Cons.hyps(2) w by simp
  show ?case
  proof (cases "mr_migrations r v")
    case None
    then show ?thesis using run w(3) by (auto intro!: exI[of _ "\<lambda>_. es"])
  next
    case (Some fn)
    obtain e1 es1 where f: "fn es = (e1, es1)" by (cases "fn es")
    show ?thesis
    proof (cases e1)
      case (Some cause)
      then show ?thesis using run f \<open>mr_migrations r v = Some fn\<close> w(3) by (auto intro!: exI[of _ "\<lambda>_. es"])
    next
      case None
      obtain j where j: "run_versions r [v + 1..t - 1] es1 = (j, err, es')" "k = Suc j"
        using run Some f None by (auto split: prod.splits)
      obtain st where st: "st 0 = es1"
        "\<forall>i < j. \<exists>fn. mr_migrations r (v + 1 + int i) = Some fn \<and> fn (st i) = (None, st (Suc i))"
        "case err of
           None \<Rightarrow> es' = st j
         | Some e \<Rightarrow> v + 1 + int j < t \<and>
             (case mr_migrations r (v + 1 + int j) of
                None \<Rightarrow> e = MissingMigration (v + 1 + int j) \<and> es' = st j
              | Some fn \<Rightarrow> e = MigrationFailed (v + 1 + int j) \<and> (\<exists>cause. fn (st j) = (Some cause, es')))"
        using Cons.hyps(1)[OF w(2) j(1)] by blast
      let ?st = "case_nat es st"
      have v: "v + int (Suc i) = v + 1 + int i" for i by simp
      have "\<exists>fn. mr_migrations r (v + int i) = Some fn \<and> fn (?st i) = (None, ?st (Suc i))" if "i < k" for i
        using that st(1,2) Some f None j(2) by (cases i) (auto simp: v simp del: of_nat_Suc)
      then show ?thesis using st(3) unfolding j(2) v by (intro exI[of _ ?st]) (simp split: option.split_asm option.split)
    qed
  qed
qed

text \<open>
  C21 (\<open>migration_progress\<close>): every outcome of a migration run.  An archive of another module, and one
  that is newer than the target, is refused and left as it is.  Otherwise the registered migrations
  of the versions from the archive's on run in order, each once, each on the entities the one before
  left; the number reported is how many succeeded, and the archive is labelled with the version its
  entities reached.  The run ends without an error exactly at the target; it ends with
  \<open>MissingMigration\<close> where none is registered, the entities being those reached, and with
  \<open>MigrationFailed\<close> where one failed, the entities being what that one left.
\<close>

theorem migration_progress:
  assumes "RunMigrations r a t = ((applied, err), a')" and "v = mf_SchemaVersion (ar_Manifest a)"
  shows "if mf_Module (ar_Manifest a) \<noteq> mr_module r then
      applied = 0 \<and> err = Some (ModuleMismatch (mf_Module (ar_Manifest a)) (mr_module r)) \<and> a' = a
    else if v > t then applied = 0 \<and> err = Some (CannotDowngrade v t) \<and> a' = a
    else
      mf_SchemaVersion (ar_Manifest a') = v + int applied \<and> v + int applied \<le> t \<and>
      (err = None \<longleftrightarrow> v + int applied = t) \<and>
      a' = (set_version (v + int applied) a)\<lparr>ar_Entities := ar_Entities a'\<rparr> \<and>
      (\<exists>st. st 0 = ar_Entities a \<and>
        (\<forall>i < applied. \<exists>fn. mr_migrations r (v + int i) = Some fn \<and> fn (st i) = (None, st (Suc i))) \<and>
        (case err of
           None \<Rightarrow> ar_Entities a' = st applied
         | Some e \<Rightarrow>
             (case mr_migrations r (v + int applied) of
                None \<Rightarrow> e = MissingMigration (v + int applied) \<and> ar_Entities a' = st applied
              | Some fn \<Rightarrow> e = MigrationFailed (v + int applied) \<and>
                  (\<exists>cause. fn (st applied) = (Some cause, ar_Entities a')))))"
proof (cases "mf_Module (ar_Manifest a) = mr_module r \<and> v \<le> t")
  case True
  then obtain es where r: "run_versions r [v..t - 1] (ar_Entities a) = (applied, err, es)"
    "a' = (set_version (v + int applied) a)\<lparr>ar_Entities := es\<rparr>"
    using assms RunMigrations_refines[of a r t] by (auto split: prod.splits)
  have es: "ar_Entities a' = es" "mf_SchemaVersion (ar_Manifest a') = v + int applied"
    by (simp_all add: r(2) set_version_def)
  have len: "v + int applied \<le> t" "err = None \<longleftrightarrow> v + int applied = t"
    using run_versions_count[OF r(1)] True by auto
  from run_versions_chain[OF r(1)] obtain st where st: "st 0 = ar_Entities a"
    "\<forall>i < applied. \<exists>fn. mr_migrations r (v + int i) = Some fn \<and> fn (st i) = (None, st (Suc i))"
    "case err of
       None \<Rightarrow> es = st applied
     | Some e \<Rightarrow> v + int applied < t \<and>
         (case mr_migrations r (v + int applied) of
            None \<Rightarrow> e = MissingMigration (v + int applied) \<and> es = st applied
          | Some fn \<Rightarrow> e = MigrationFailed (v + int applied) \<and> (\<exists>cause. fn (st applied) = (Some cause, es)))" by blast
  have "case err of
       None \<Rightarrow> es = st applied
     | Some e \<Rightarrow>
         (case mr_migrations r (v + int applied) of
            None \<Rightarrow> e = MissingMigration (v + int applied) \<and> es = st applied
          | Some fn \<Rightarrow> e = MigrationFailed (v + int applied) \<and> (\<exists>cause. fn (st applied) = (Some cause, es)))"
    using st(3) by (cases err) auto
  moreover have "a' = (set_version (v + int applied) a)\<lparr>ar_Entities := ar_Entities a'\<rparr>" unfolding es(1) by (rule r(2))
  ultimately show ?thesis using True st(1,2) len unfolding es by auto
next
  case False
  then show ?thesis using assms by (auto simp: RunMigrations_def Let_def)
qed

text \<open>
  C22 (\<open>migrations_compose\<close>): migrating in two steps is migrating in one.  When a run to an
  intermediate version succeeds, continuing to the target applies the remaining migrations to the
  entities reached, and the result and the error are those of the direct run.
\<close>

theorem migrations_compose:
  assumes "mf_Module (ar_Manifest a) = mr_module r" and "mf_SchemaVersion (ar_Manifest a) \<le> mid" and "mid \<le> t"
    and "RunMigrations r a mid = ((k, None), b)"
  shows "RunMigrations r a t = (case RunMigrations r b t of ((k', e), c) \<Rightarrow> ((k + k', e), c))"
proof -
  let ?v = "mf_SchemaVersion (ar_Manifest a)"
  obtain es where r: "run_versions r [?v..mid - 1] (ar_Entities a) = (k, None, es)"
    "b = (set_version (?v + int k) a)\<lparr>ar_Entities := es\<rparr>"
    using assms(4) unfolding RunMigrations_refines[OF assms(1,2)] by (auto split: prod.splits)
  have v: "?v + int k = mid" using run_versions_count[OF r(1)] assms(2) by simp
  have b: "ar_Entities b = es" "mf_SchemaVersion (ar_Manifest b) = mid" "mf_Module (ar_Manifest b) = mr_module r"
    using assms(1) by (simp_all add: r(2) v)
  have "[?v..t - 1] = [?v..mid - 1] @ [mid..t - 1]" using upto_split2[of ?v "mid - 1" "t - 1"] assms(2,3)
    by (cases "?v = mid") simp_all
  then have "run_versions r [?v..t - 1] (ar_Entities a) =
      (case run_versions r [mid..t - 1] es of (k', e, es') \<Rightarrow> (k + k', e, es'))"
    by (simp add: run_versions_append r(1))
  moreover have "RunMigrations r a t = (case run_versions r [?v..t - 1] (ar_Entities a) of
       (k, e, es) \<Rightarrow> ((k, e), (set_version (?v + int k) a)\<lparr>ar_Entities := es\<rparr>))"
    using RunMigrations_refines[OF assms(1)] assms(2,3) by simp
  moreover have "RunMigrations r b t = (case run_versions r [mid..t - 1] es of
       (k', e, es) \<Rightarrow> ((k', e), (set_version (mid + int k') b)\<lparr>ar_Entities := es\<rparr>))"
    using RunMigrations_refines[OF b(3), of t] assms(3) by (simp add: b)
  ultimately show ?thesis using v by (auto simp: r(2) algebra_simps split: prod.split)
qed

text \<open>
  \<open>validated_archive_migrates\<close>: an archive that passed \<open>Validate\<close> can be brought to the current
  version whenever the registry of that module has an infallible migration for every older version.
\<close>

theorem validated_archive_migrates:
  assumes "Validate a module current = Inr ()" and "mr_module r = module"
    and "\<forall>v. 1 \<le> v \<and> v < current \<longrightarrow> (\<exists>fn. mr_migrations r v = Some fn \<and> (\<forall>es. fst (fn es) = None))"
  shows "\<exists>a'. RunMigrations r a current =
      ((nat (current - mf_SchemaVersion (ar_Manifest a)), None), a') \<and>
    mf_SchemaVersion (ar_Manifest a') = current"
proof -
  let ?v = "mf_SchemaVersion (ar_Manifest a)"
  have v: "mf_Module (ar_Manifest a) = mr_module r" "?v \<le> current" "1 \<le> ?v"
    using assms(1,2) by (auto simp: Validate_def Let_def split: if_splits)
  obtain es' where "run_versions r [?v..current - 1] (ar_Entities a) = (nat (current - ?v), None, es')"
    using run_versions_complete[of "[?v..current - 1]" r "ar_Entities a"] assms(3) v(3) by auto
  then show ?thesis using RunMigrations_refines[OF v(1,2)] v(2) by simp
qed

text \<open>
  \<open>set_extra_after_unpack_panics\<close>: an archive that was packed without extras cannot be given
  one after unpacking: the extras come back as a nil map, and storing into it panics.
\<close>

theorem set_extra_after_unpack_panics:
  assumes "json_Archive P a = Some js" and "unjson_Archive P js = Some (omitempty a)"
    and "\<And>x. gunzip P (gzip P x) = Some x" and "ar_Extras a = Some Map.empty" and "marshal v = Some raw"
  shows "\<exists>data a'. Pack P a = Inr data \<and> Unpack P data = Inr a' \<and> SetExtra marshal a' key v = Inl NilMapPanic \<and>
    is_ok (SetExtra marshal a key v)"
  using assms by (auto simp: Pack_def Unpack_def omitempty_def SetExtra_def map_write_def)

text \<open>
  \<open>add_field_migration\<close>: the add-column helper.  When it succeeds on an entity array, every item
  then has the field, items that had it keep their value, no other field changes, and no other
  entity array is touched.
\<close>

theorem add_field_migration:
  assumes "MigrateAddField I key field def entities = (None, es)" and "map_read entities key = Some raw"
  shows "\<exists>items items' raw'. unjson_items I raw = Some items \<and> json_items I items' = Some raw' \<and>
    map_read es key = Some raw' \<and> (\<forall>k. k \<noteq> key \<longrightarrow> map_read es k = map_read entities k) \<and>
    list_all2 (\<lambda>it it'. map_read it' field = Some (case map_read it field of None \<Rightarrow> def | Some v \<Rightarrow> v) \<and>
      (\<forall>f. f \<noteq> field \<longrightarrow> map_read it' f = map_read it f)) items items'"
proof -
  have H: "map_read it' field = Some (case map_read it field of None \<Rightarrow> def | Some v \<Rightarrow> v) \<and>
      (\<forall>f. f \<noteq> field \<longrightarrow> map_read it' f = map_read it f)" if "add_field field def it = Inr it'" for it it'
    using that by (auto simp: add_field_def map_write_def map_read_def split: if_splits option.splits)
  from migrate_items_ok[OF assms[unfolded MigrateAddField_def]] obtain items items' raw' where
    i: "unjson_items I raw = Some items" "json_items I items' = Some raw'" "map_read es key = Some raw'"
      "\<forall>k. k \<noteq> key \<longrightarrow> map_read es k = map_read entities k"
    and l: "list_all2 (\<lambda>it it'. add_field field def it = Inr it') items items'" by blast
  have "list_all2 (\<lambda>it it'. map_read it' field = Some (case map_read it field of None \<Rightarrow> def | Some v \<Rightarrow> v) \<and>
      (\<forall>f. f \<noteq> field \<longrightarrow> map_read it' f = map_read it f)) items items'"
    using l by (rule list_all2_mono) (rule H)
  with i show ?thesis by (intro exI conjI)
qed

text \<open>
  \<open>rename_field_spec\<close>: the rename-column helper moves the value of the old name to the new one,
  and, when both names are the same, deletes the column.
\<close>

theorem rename_field_spec:
  "rename_field old new it =
     Inr (case map_read it old of
            None \<Rightarrow> it
          | Some v \<Rightarrow> Some (\<lambda>f. if f = old then None else if f = new then Some v else map_read it f))"
  by (auto simp: rename_field_def map_read_def map_write_def split: option.split)

text \<open>
  \<open>restore_success_iff\<close>: a restore report says success exactly when no entity type added to it
  had failures, whatever results and warnings were added in whatever order.
\<close>

theorem restore_success_iff:
  "rr_Success (fold (\<lambda>x. case x of Inl w \<Rightarrow> AddWarning w | Inr er \<Rightarrow> AddResult er) xs (NewRestoreResult s t n)) \<longleftrightarrow>
     \<not> (\<exists>er. Inr er \<in> set xs \<and> er_Failed er > 0)"
proof -
  have "rr_Success (fold (\<lambda>x. case x of Inl w \<Rightarrow> AddWarning w | Inr er \<Rightarrow> AddResult er) xs r) \<longleftrightarrow>
      rr_Success r \<and> \<not> (\<exists>er. Inr er \<in> set xs \<and> er_Failed er > 0)" for r
    by (induction xs arbitrary: r) (auto simp: AddWarning_def AddResult_def Let_def split: sum.splits)
  then show ?thesis by (simp add: NewRestoreResult_def)
qed

section \<open>Examples\<close>

definition demo_archive :: "string Archive" where
  "demo_archive = NewArchive 0 ''vault'' 1 7 True"

definition demo_registry :: "string MigrationRegistry" where
  "demo_registry = mig_Register (mig_Register (NewMigrationRegistry ''vault'') 1
     (\<lambda>es. (None, map_option (\<lambda>m. m(''a'' \<mapsto> ''1'')) es))) 2 (\<lambda>es. (None, es))"

lemma demo_archive_simps: "mf_Module (ar_Manifest demo_archive) = mr_module demo_registry"
  "mf_SchemaVersion (ar_Manifest demo_archive) = 1"
  by (simp_all add: demo_archive_def demo_registry_def NewArchive_def mig_Register_def NewMigrationRegistry_def)

lemma demo_run: "RunMigrations demo_registry demo_archive 2 =
    ((1, None), set_version 2 (demo_archive\<lparr>ar_Entities := Some [''a'' \<mapsto> ''1'']\<rparr>))"
  using RunMigrations_refines[OF demo_archive_simps(1), of 2]
  by (simp add: demo_archive_simps(2) upto.simps[of 1 1] demo_registry_def mig_Register_def NewMigrationRegistry_def)
    (simp add: demo_archive_def NewArchive_def)

theorem migration_progress_witness:
  "mf_SchemaVersion (ar_Manifest (snd (RunMigrations demo_registry demo_archive 2))) = 2 \<and>
   (\<exists>fn. mr_migrations demo_registry 1 = Some fn \<and>
     fn (ar_Entities demo_archive) = (None, ar_Entities (snd (RunMigrations demo_registry demo_archive 2))))"
proof -
  obtain st where st: "st 0 = ar_Entities demo_archive"
    "\<exists>fn. mr_migrations demo_registry (1 + int 0) = Some fn \<and> fn (st 0) = (None, st (Suc 0))"
    "ar_Entities (snd (RunMigrations demo_registry demo_archive 2)) = st 1"
    "mf_SchemaVersion (ar_Manifest (snd (RunMigrations demo_registry demo_archive 2))) = 2"
    using migration_progress[OF demo_run refl] unfolding demo_run snd_conv by (auto simp: demo_archive_simps)
  then show ?thesis by simp
qed

theorem migrations_compose_witness:
  "RunMigrations demo_registry demo_archive 3 =
     (case RunMigrations demo_registry (set_version 2 (demo_archive\<lparr>ar_Entities := Some [''a'' \<mapsto> ''1'']\<rparr>)) 3 of
        ((k', e), c) \<Rightarrow> ((1 + k', e), c))"
  by (rule migrations_compose[OF demo_archive_simps(1) _ _ demo_run]) (simp_all add: demo_archive_simps(2))

theorem validated_archive_migrates_witness:
  "\<exists>a'. RunMigrations demo_registry demo_archive 3 =
      ((nat (3 - mf_SchemaVersion (ar_Manifest demo_archive)), None), a') \<and> mf_SchemaVersion (ar_Manifest a') = 3"
proof (rule validated_archive_migrates[of _ "''vault''"])
  show "\<forall>v. 1 \<le> v \<and> v < 3 \<longrightarrow> (\<exists>fn. mr_migrations demo_registry v = Some fn \<and> (\<forall>es. fst (fn es) = None))"
  proof (intro allI impI)
    fix v :: int
    assume "1 \<le> v \<and> v < 3"
    then have "v = 1 \<or> v = 2" by arith
    then show "\<exists>fn. mr_migrations demo_registry v = Some fn \<and> (\<forall>es. fst (fn es) = None)"
      by (auto simp: demo_registry_def mig_Register_def NewMigrationRegistry_def)
  qed
qed (simp_all add: Validate_def demo_archive_def NewArchive_def demo_registry_def mig_Register_def NewMigrationRegistry_def)

definition demo_pack :: "string pack_api" where
  "demo_pack = \<lparr>json_Archive = (\<lambda>_. Some []), unjson_Archive = (\<lambda>_. Some (omitempty demo_archive)),
     gzip = (\<lambda>x. x), gunzip = Some\<rparr>"

lemma demo_pack_simps: "json_Archive demo_pack demo_archive = Some []"
  "unjson_Archive demo_pack [] = Some (omitempty demo_archive)" "gunzip demo_pack (gzip demo_pack x) = Some x"
  by (simp_all add: demo_pack_def)

theorem set_extra_after_unpack_panics_witness:
  "\<exists>data a'. Pack demo_pack demo_archive = Inr data \<and> Unpack demo_pack data = Inr a' \<and>
    SetExtra Some a' ''k'' ''v'' = Inl NilMapPanic \<and> is_ok (SetExtra Some demo_archive ''k'' ''v'')"
  by (rule set_extra_after_unpack_panics[OF demo_pack_simps]) (simp_all add: demo_archive_def NewArchive_def)

definition demo_items :: "(unit, nat) items_api" where
  "demo_items = \<lparr>json_items = (\<lambda>_. Some ()), unjson_items = (\<lambda>_. Some [Some Map.empty])\<rparr>"

theorem add_field_migration_witness:
  "\<exists>items items' raw'. unjson_items demo_items () = Some items \<and> json_items demo_items items' = Some raw' \<and>
    map_read (Some [''users'' \<mapsto> ()]) ''users'' = Some raw' \<and>
    (\<forall>k. k \<noteq> ''users'' \<longrightarrow> map_read (Some [''users'' \<mapsto> ()]) k = map_read (Some [''users'' \<mapsto> ()]) k) \<and>
    list_all2 (\<lambda>it it'. map_read it' ''age'' = Some (case map_read it ''age'' of None \<Rightarrow> 0 | Some v \<Rightarrow> v) \<and>
      (\<forall>f. f \<noteq> ''age'' \<longrightarrow> map_read it' f = map_read it f)) items items'"
  by (rule add_field_migration)
    (simp_all add: MigrateAddField_def migrate_items_def demo_items_def map_read_def add_field_def map_write_def)

end
