(* ===== verification/Base64.thy ===== *)
theory Base64
  imports Prelude
begin

text \<open>
  \<open>base64.StdEncoding\<close> of the Go standard library, as \<^verbatim>\<open>crypto/aes_gcm.go\<close> uses it: three bytes
  become four characters of the standard alphabet, the last group is padded, and the decoder
  skips line breaks and refuses anything else.  The main result is that decoding inverts encoding.
\<close>

definition b64_char :: "nat \<Rightarrow> char" where
  "b64_char n =
     (if n < 26 then char_of (65 + n) else if n < 52 then char_of (71 + n)
      else if n < 62 then char_of (n - 4) else if n = 62 then CHR ''+'' else CHR ''/'')"

definition b64_val :: "char \<Rightarrow> nat option" where
  "b64_val c =
     (let n = (of_char c :: nat) in
      if 65 \<le> n \<and> n \<le> 90 then Some (n - 65) else if 97 \<le> n \<and> n \<le> 122 then Some (n - 71)
      else if 48 \<le> n \<and> n \<le> 57 then Some (n + 4) else if c = CHR ''+'' then Some 62
      else if c = CHR ''/'' then Some 63 else None)"

fun b64_encode :: "byte list \<Rightarrow> string" where
  "b64_encode [] = []"
| "b64_encode [a] = (let n = unat a * 16 in [b64_char (n div 64), b64_char (n mod 64), CHR ''='', CHR ''=''])"
| "b64_encode [a, b] =
     (let n = (unat a * 256 + unat b) * 4
      in [b64_char (n div 4096), b64_char (n div 64 mod 64), b64_char (n mod 64), CHR ''=''])"
| "b64_encode (a # b # c # bs) =
     (let n = (unat a * 256 + unat b) * 256 + unat c
      in [b64_char (n div 262144), b64_char (n div 4096 mod 64), b64_char (n div 64 mod 64), b64_char (n mod 64)]
         @ b64_encode bs)"

text \<open>
  One quantum at a time: padding may only close the input; the unused low bits of a padded
  quantum are not checked.
\<close>

fun b64_quanta :: "string \<Rightarrow> byte list option" where
  "b64_quanta [] = Some []"
| "b64_quanta (w # x # y # z # s) =
     (case (b64_val w, b64_val x) of
        (Some w', Some x') \<Rightarrow>
          if y = CHR ''='' \<and> z = CHR ''='' then
            (if s = [] then Some [word_of_nat ((w' * 64 + x') div 16)] else None)
          else (case b64_val y of
            None \<Rightarrow> None
          | Some y' \<Rightarrow>
              if z = CHR ''='' then
                (if s = [] then (let n = ((w' * 64 + x') * 64 + y') div 4
                                 in Some [word_of_nat (n div 256), word_of_nat (n mod 256)]) else None)
              else (case b64_val z of
                None \<Rightarrow> None
              | Some z' \<Rightarrow>
                  (case b64_quanta s of
                     None \<Rightarrow> None
                   | Some bs \<Rightarrow>
                       (let n = ((w' * 64 + x') * 64 + y') * 64 + z'
                        in Some (word_of_nat (n div 65536) # word_of_nat (n div 256 mod 256) # word_of_nat (n mod 256) # bs)))))
      | _ \<Rightarrow> None)"
| "b64_quanta _ = None"

definition b64_decode :: "string \<Rightarrow> byte list option" where
  "b64_decode s = b64_quanta (filter (\<lambda>c. c \<noteq> CHR 0x0A \<and> c \<noteq> CHR 0x0D) s)"

lemma b64_val_char [simp]: "n < 64 \<Longrightarrow> b64_val (b64_char n) = Some n"
  by (auto simp: b64_val_def b64_char_def Let_def of_char_of)

lemma b64_val_special: "b64_val CHR ''='' = None" "b64_val CHR 0x0A = None" "b64_val CHR 0x0D = None"
  by (simp_all add: b64_val_def)

lemma b64_char_plain: "n < 64 \<Longrightarrow> b64_char n \<noteq> CHR ''='' \<and> b64_char n \<noteq> CHR 0x0A \<and> b64_char n \<noteq> CHR 0x0D"
  by (metis b64_val_char b64_val_special option.distinct(1))

lemma unat_byte_less: "unat (b :: byte) < 256"
  using unsigned_less[of b] by simp

lemma word_of_nat_unat_byte [simp]: "word_of_nat (unat (b :: byte)) = b"
  by simp

lemma digits3: "(n div 4096 * 64 + n div 64 mod 64) * 64 + n mod 64 = (n :: nat)"
proof -
  have "n div 4096 = n div 64 div 64" by (simp add: div_mult2_eq[symmetric])
  then have "n div 4096 * 64 + n div 64 mod 64 = n div 64" by (simp only: div_mult_mod_eq)
  then show ?thesis by (simp only: div_mult_mod_eq)
qed

lemma digits4: "((n div 262144 * 64 + n div 4096 mod 64) * 64 + n div 64 mod 64) * 64 + n mod 64 = (n :: nat)"
proof -
  have "n div 262144 = n div 64 div 4096" "n div 4096 = n div 64 div 64" by (simp_all add: div_mult2_eq[symmetric])
  then have "(n div 262144 * 64 + n div 4096 mod 64) * 64 + n div 64 mod 64 = n div 64"
    using digits3[of "n div 64"] by (simp only:)
  then show ?thesis by (simp only: div_mult_mod_eq)
qed

lemma quanta_encode: "b64_quanta (b64_encode bs) = Some bs"
proof (induction bs rule: b64_encode.induct)
  case 1
  then show ?case by simp
next
  case (2 a)
  define m where "m = unat a"
  have "m < 256" unfolding m_def by (rule unat_byte_less)
  then have "m * 16 div 64 < 64" by (intro less_mult_imp_div_less) simp
  moreover have "(m * 16 div 64 * 64 + m * 16 mod 64) div 16 = m"
    by (simp only: div_mult_mod_eq)
  moreover have "word_of_nat m = a" by (simp add: m_def)
  ultimately show ?case by (simp add: Let_def flip: m_def del: div_mult_mult1 div_mult_mult2)
next
  case (3 a b)
  define m where "m = unat a * 256 + unat b"
  have l: "unat a < 256" "unat b < 256" by (rule unat_byte_less)+
  have "m * 4 div 4096 < 64" "m div 256 = unat a" "m mod 256 = unat b" using l by (simp_all add: m_def)
  moreover have "((m * 4 div 4096 * 64 + m * 4 div 64 mod 64) * 64 + m * 4 mod 64) div 4 = m"
    using digits3[of "m * 4"] by simp
  ultimately show ?case using b64_char_plain[of "m * 4 mod 64"]
    by (simp add: Let_def flip: m_def)
next
  case (4 a b c bs)
  define m where "m = (unat a * 256 + unat b) * 256 + unat c"
  have l: "unat a < 256" "unat b < 256" "unat c < 256" by (rule unat_byte_less)+
  have d: "m div 262144 < 64" using l by (simp add: m_def)
  have m: "((m div 262144 * 64 + m div 4096 mod 64) * 64 + m div 64 mod 64) * 64 + m mod 64 = m"
    by (rule digits4)
  define k where "k = unat a * 256 + unat b"
  have "m div 256 = k" "m mod 256 = unat c" using l(3) by (simp_all add: m_def flip: k_def)
  moreover have "k div 256 = unat a" "k mod 256 = unat b" using l(2) by (simp_all add: k_def)
  moreover have "m div 65536 = m div 256 div 256" by (simp add: div_mult2_eq[symmetric])
  ultimately have "m div 65536 = unat a" "m div 256 mod 256 = unat b" "m mod 256 = unat c" by simp_all
  moreover have "b64_encode (a # b # c # bs) = [b64_char (m div 262144), b64_char (m div 4096 mod 64),
      b64_char (m div 64 mod 64), b64_char (m mod 64)] @ b64_encode bs"
    by (simp only: b64_encode.simps Let_def m_def)
  ultimately show ?case using 4 d b64_char_plain[of "m div 64 mod 64"] b64_char_plain[of "m mod 64"]
    by (simp only: b64_quanta.simps append.simps b64_val_char mod_less_divisor zero_less_numeral option.case
        prod.case Let_def m if_False simp_thms word_of_nat_unat_byte)
qed

lemma encode_no_breaks: "c \<in> set (b64_encode bs) \<Longrightarrow> c \<noteq> CHR 0x0A \<and> c \<noteq> CHR 0x0D"
proof (induction bs rule: b64_encode.induct)
  case (2 a)
  have "unat a div 4 < 64" using unat_byte_less[of a] by (simp add: less_mult_imp_div_less)
  then show ?case using 2 b64_char_plain[of "unat a div 4"] b64_char_plain[of "unat a * 16 mod 64"]
    by (auto simp: Let_def)
next
  case (3 a b)
  define m where "m = (unat a * 256 + unat b) * 4"
  have "m div 4096 < 64" using unat_byte_less[of a] unat_byte_less[of b] by (simp add: m_def)
  moreover have "b64_encode [a, b] = [b64_char (m div 4096), b64_char (m div 64 mod 64), b64_char (m mod 64), CHR ''='']"
    by (simp only: b64_encode.simps Let_def m_def)
  ultimately show ?case using 3 b64_char_plain[of "m div 4096"] b64_char_plain[of "m div 64 mod 64"]
      b64_char_plain[of "m mod 64"] by auto
next
  case (4 a b c' bs)
  define m where "m = (unat a * 256 + unat b) * 256 + unat c'"
  have "m div 262144 < 64"
    using unat_byte_less[of a] unat_byte_less[of b] unat_byte_less[of c'] by (simp add: m_def)
  moreover have "b64_encode (a # b # c' # bs) = [b64_char (m div 262144), b64_char (m div 4096 mod 64),
      b64_char (m div 64 mod 64), b64_char (m mod 64)] @ b64_encode bs"
    by (simp only: b64_encode.simps Let_def m_def)
  ultimately show ?case using 4 b64_char_plain[of "m div 262144"] b64_char_plain[of "m div 4096 mod 64"]
      b64_char_plain[of "m div 64 mod 64"] b64_char_plain[of "m mod 64"] by auto
qed simp

lemma b64_roundtrip [codec_laws]: "b64_decode (b64_encode bs) = Some bs"
proof -
  have "filter (\<lambda>c. c \<noteq> CHR 0x0A \<and> c \<noteq> CHR 0x0D) (b64_encode bs) = b64_encode bs"
    by (rule filter_True) (auto dest: encode_no_breaks)
  then show ?thesis by (simp add: b64_decode_def quanta_encode)
qed

end
