(* ===== verification/Crypto.thy ===== *)
theory Crypto
  imports Base64 GoStrings
begin

text \<open>
  Encryption at rest, after \<^verbatim>\<open>crypto/aes_gcm.go\<close>, \<^verbatim>\<open>crypto/encryptor.go\<close> and
  \<^verbatim>\<open>crypto/payload.go\<close>.

  SHA-256 and AES-GCM are fields of the record \<open>cipher_api\<close>, an argument of the definitions
  that use them, \<open>cipher_laws\<close> states what the standard library documents of them; the random
  nonce of an encryption is an argument, absent when the random source fails.  Values of a task
  payload other than booleans and strings are left abstract, and so is the JSON codec.
\<close>

section \<open>The cipher\<close>

record cipher_api =
  c_sha256 :: "byte list \<Rightarrow> byte list"
  gcm_Seal :: "byte list \<Rightarrow> byte list \<Rightarrow> byte list \<Rightarrow> byte list"
  gcm_Open :: "byte list \<Rightarrow> byte list \<Rightarrow> byte list \<Rightarrow> byte list option"

definition NonceSize :: nat where "NonceSize = 12"

definition cipher_laws :: "cipher_api \<Rightarrow> bool" where
  "cipher_laws C \<longleftrightarrow> (\<forall>m. length (c_sha256 C m) = 32) \<and>
     (\<forall>k n p. length k \<in> {16, 24, 32} \<longrightarrow> length n = NonceSize \<longrightarrow> gcm_Open C k n (gcm_Seal C k n p) = Some p)"

datatype crypto_error = InvalidKey | InvalidBase64 | CiphertextTooShort | DecryptionFailed
  | CipherKeySize | NonceFailed

definition EncryptedPrefix :: string where "EncryptedPrefix = ''enc:''"

record Encryptor =
  enc_key :: "byte list"

definition NewEncryptor :: "cipher_api \<Rightarrow> string \<Rightarrow> (crypto_error, Encryptor) result" where
  "NewEncryptor C key =
     (if key = [] then Inl InvalidKey else Inr \<lparr>enc_key = c_sha256 C (bytes_of_string key)\<rparr>)"

text \<open>\<open>aes.NewCipher\<close> accepts keys of 16, 24 or 32 bytes; \<open>cipher.NewGCM\<close> cannot fail on AES.\<close>

definition NewCipher :: "byte list \<Rightarrow> (crypto_error, byte list) result" where
  "NewCipher key = (if length key \<in> {16, 24, 32} then Inr key else Inl CipherKeySize)"

definition Encrypt :: "cipher_api \<Rightarrow> byte list option \<Rightarrow> Encryptor \<Rightarrow> string \<Rightarrow> (crypto_error, string) result" where
  "Encrypt C nonce e plaintext =
     (if plaintext = [] then Inr []
      else rbind (NewCipher (enc_key e)) (\<lambda>block.
        case nonce of
          None \<Rightarrow> Inl NonceFailed
        | Some n \<Rightarrow>
            let ciphertext = n @ gcm_Seal C block n (bytes_of_string plaintext)
            in Inr (EncryptedPrefix @ b64_encode ciphertext)))"

definition Decrypt :: "cipher_api \<Rightarrow> Encryptor \<Rightarrow> string \<Rightarrow> (crypto_error, string) result" where
  "Decrypt C e ciphertext =
     (if ciphertext = [] then Inr []
      else if \<not> HasPrefix ciphertext EncryptedPrefix then Inr ciphertext
      else case b64_decode (TrimPrefix ciphertext EncryptedPrefix) of
        None \<Rightarrow> Inl InvalidBase64
      | Some data \<Rightarrow>
          rbind (NewCipher (enc_key e)) (\<lambda>block.
            if length data < NonceSize then Inl CiphertextTooShort
            else case gcm_Open C block (take NonceSize data) (drop NonceSize data) of
              None \<Rightarrow> Inl DecryptionFailed
            | Some plaintext \<Rightarrow> Inr (string_of_bytes plaintext)))"

definition IsEncrypted :: "string \<Rightarrow> bool" where
  "IsEncrypted data = HasPrefix data EncryptedPrefix"

text \<open>A panic is a result of its own.\<close>

datatype 'a outcome = Returns 'a | Panics crypto_error

fun must :: "(crypto_error, 'a) result \<Rightarrow> 'a outcome" where
  "must (Inl e) = Panics e"
| "must (Inr x) = Returns x"

definition MustEncrypt :: "cipher_api \<Rightarrow> byte list option \<Rightarrow> Encryptor \<Rightarrow> string \<Rightarrow> string outcome" where
  "MustEncrypt C nonce e plaintext = must (Encrypt C nonce e plaintext)"

definition MustDecrypt :: "cipher_api \<Rightarrow> Encryptor \<Rightarrow> string \<Rightarrow> string outcome" where
  "MustDecrypt C e ciphertext = must (Decrypt C e ciphertext)"

section \<open>The global encryptor\<close>

text \<open>The two package variables: the encryptor, and whether the \<open>sync.Once\<close> has run.\<close>

record crypto_state =
  globalEncryptor :: "Encryptor option"
  once_done :: bool

definition crypto_init :: crypto_state where
  "crypto_init = \<lparr>globalEncryptor = None, once_done = False\<rparr>"

definition InitGlobalEncryptor :: "cipher_api \<Rightarrow> string \<Rightarrow> bool \<Rightarrow> crypto_state \<Rightarrow> crypto_error option \<times> crypto_state" where
  "InitGlobalEncryptor C key enabled st =
     (if once_done st then (None, st)
      else let st' = st\<lparr>once_done := True\<rparr> in
      if \<not> enabled then (None, st'\<lparr>globalEncryptor := Some \<lparr>enc_key = []\<rparr>\<rparr>)
      else case NewEncryptor C key of
        Inl err \<Rightarrow> (Some err, st'\<lparr>globalEncryptor := None\<rparr>)
      | Inr e \<Rightarrow> (None, st'\<lparr>globalEncryptor := Some e\<rparr>))"

definition GetGlobalEncryptor :: "crypto_state \<Rightarrow> Encryptor" where
  "GetGlobalEncryptor st = (case globalEncryptor st of None \<Rightarrow> \<lparr>enc_key = []\<rparr> | Some e \<Rightarrow> e)"

definition EncryptIfNeeded :: "cipher_api \<Rightarrow> byte list option \<Rightarrow> crypto_state \<Rightarrow> string \<Rightarrow> (crypto_error, string) result" where
  "EncryptIfNeeded C nonce st plaintext =
     (let encryptor = GetGlobalEncryptor st in
      if length (enc_key encryptor) = 0 then Inr plaintext else Encrypt C nonce encryptor plaintext)"

definition DecryptIfNeeded :: "cipher_api \<Rightarrow> crypto_state \<Rightarrow> string \<Rightarrow> (crypto_error, string) result" where
  "DecryptIfNeeded C st ciphertext =
     (let encryptor = GetGlobalEncryptor st in
      if length (enc_key encryptor) = 0 then Inr ciphertext else Decrypt C encryptor ciphertext)"

section \<open>Payloads\<close>

datatype 'j jvalue = VBool bool | VString string | VOther 'j

type_synonym 'j payload = "string \<rightharpoonup> 'j jvalue"

record 'j json_api =
  json_Marshal :: "'j payload \<Rightarrow> string option"
  json_Unmarshal :: "string \<Rightarrow> 'j payload option"

datatype payload_error = MarshalPayload | EncryptPayloadErr crypto_error | NoEncryptedConfig
  | DecryptPayloadErr crypto_error | UnmarshalPayload

definition EncryptedConfigKey :: string where "EncryptedConfigKey = ''_encrypted_config''"
definition IsEncryptedKey :: string where "IsEncryptedKey = ''_is_encrypted''"

definition copy_key :: "string \<Rightarrow> 'j payload \<Rightarrow> 'j payload \<Rightarrow> 'j payload" where
  "copy_key k src dst = (case src k of None \<Rightarrow> dst | Some v \<Rightarrow> dst(k \<mapsto> v))"

definition EncryptPayload :: "cipher_api \<Rightarrow> 'j json_api \<Rightarrow> byte list option \<Rightarrow> crypto_state \<Rightarrow> 'j payload
    \<Rightarrow> (payload_error, 'j payload) result" where
  "EncryptPayload C J nonce st payload =
     (case json_Marshal J payload of
        None \<Rightarrow> Inl MarshalPayload
      | Some jsonData \<Rightarrow>
          (case EncryptIfNeeded C nonce st jsonData of
             Inl e \<Rightarrow> Inl (EncryptPayloadErr e)
           | Inr encrypted \<Rightarrow>
               (let res = [EncryptedConfigKey \<mapsto> VString encrypted, IsEncryptedKey \<mapsto> VBool True];
                    res = copy_key ''task_id'' payload res;
                    res = copy_key ''task_type'' payload res
                in Inr res)))"

definition DecryptPayload :: "cipher_api \<Rightarrow> 'j json_api \<Rightarrow> crypto_state \<Rightarrow> 'j payload
    \<Rightarrow> (payload_error, 'j payload) result" where
  "DecryptPayload C J st payload =
     (if payload IsEncryptedKey \<noteq> Some (VBool True) then Inr payload
      else case payload EncryptedConfigKey of
        Some (VString encryptedConfig) \<Rightarrow>
          (case DecryptIfNeeded C st encryptedConfig of
             Inl e \<Rightarrow> Inl (DecryptPayloadErr e)
           | Inr decrypted \<Rightarrow>
               (case json_Unmarshal J decrypted of None \<Rightarrow> Inl UnmarshalPayload | Some res \<Rightarrow> Inr res))
      | _ \<Rightarrow> Inl NoEncryptedConfig)"

definition HasEncryptedPayload :: "'j payload \<Rightarrow> bool" where
  "HasEncryptedPayload payload = (payload IsEncryptedKey = Some (VBool True))"

datatype 'a payload_outcome = PReturns 'a | PPanics payload_error

definition MustEncryptPayload :: "cipher_api \<Rightarrow> 'j json_api \<Rightarrow> byte list option \<Rightarrow> crypto_state \<Rightarrow> 'j payload
    \<Rightarrow> 'j payload payload_outcome" where
  "MustEncryptPayload C J nonce st payload =
     (case EncryptPayload C J nonce st payload of Inl e \<Rightarrow> PPanics e | Inr p \<Rightarrow> PReturns p)"

definition MustDecryptPayload :: "cipher_api \<Rightarrow> 'j json_api \<Rightarrow> crypto_state \<Rightarrow> 'j payload
    \<Rightarrow> 'j payload payload_outcome" where
  "MustDecryptPayload C J st payload =
     (case DecryptPayload C J st payload of Inl e \<Rightarrow> PPanics e | Inr p \<Rightarrow> PReturns p)"

section \<open>Lemmas\<close>

lemma prefix_not_Nil [simp]: "EncryptedPrefix \<noteq> []"
  by (simp add: EncryptedPrefix_def)

lemma Decrypt_Encrypt:
  assumes "cipher_laws C" and "length (enc_key e) \<in> {16, 24, 32}" and "length n = NonceSize"
    and "Encrypt C (Some n) e p = Inr c"
  shows "Decrypt C e c = Inr p"
proof (cases "p = []")
  case True
  then show ?thesis using assms(4) by (simp add: Encrypt_def Decrypt_def)
next
  case False
  then have c: "c = EncryptedPrefix @ b64_encode (n @ gcm_Seal C (enc_key e) n (bytes_of_string p))"
    using assms(2,4) by (auto simp: Encrypt_def NewCipher_def)
  have "gcm_Open C (enc_key e) n (gcm_Seal C (enc_key e) n (bytes_of_string p)) = Some (bytes_of_string p)"
    using assms(1-3) unfolding cipher_laws_def by blast
  then show ?thesis using assms(2,3) by (simp add: Decrypt_def c codec_laws NewCipher_def)
qed

lemma Encrypt_total:
  "length (enc_key e) \<in> {16, 24, 32} \<Longrightarrow> \<exists>c. Encrypt C (Some n) e p = Inr c \<and> (p \<noteq> [] \<longrightarrow> IsEncrypted c)"
  by (auto simp: Encrypt_def NewCipher_def IsEncrypted_def)

lemma Encrypt_empty [simp]: "Encrypt C n e [] = Inr []"
  by (simp add: Encrypt_def)

text \<open>The states a program can be in: the encryptor is off, or holds a derived 32-byte key.\<close>

definition crypto_ok :: "crypto_state \<Rightarrow> bool" where
  "crypto_ok st \<longleftrightarrow> length (enc_key (GetGlobalEncryptor st)) \<in> {0, 32}"

lemma crypto_ok_init: "crypto_ok crypto_init"
  by (simp add: crypto_ok_def GetGlobalEncryptor_def crypto_init_def)

lemma crypto_ok_InitGlobal:
  "cipher_laws C \<Longrightarrow> crypto_ok st \<Longrightarrow> crypto_ok (snd (InitGlobalEncryptor C key enabled st))"
  by (auto simp: crypto_ok_def InitGlobalEncryptor_def GetGlobalEncryptor_def NewEncryptor_def cipher_laws_def Let_def)

lemma IfNeeded_roundtrip:
  assumes "cipher_laws C" and "crypto_ok st" and "length n = NonceSize"
  shows "\<exists>c. EncryptIfNeeded C (Some n) st p = Inr c \<and> DecryptIfNeeded C st c = Inr p"
proof (cases "length (enc_key (GetGlobalEncryptor st)) = 0")
  case True
  then show ?thesis by (simp add: EncryptIfNeeded_def DecryptIfNeeded_def)
next
  case False
  then have l: "length (enc_key (GetGlobalEncryptor st)) \<in> {16, 24, 32}" using assms(2) by (auto simp: crypto_ok_def)
  from Encrypt_total[OF l] obtain c where c: "Encrypt C (Some n) (GetGlobalEncryptor st) p = Inr c" by blast
  then show ?thesis using Decrypt_Encrypt[OF assms(1) l assms(3) c] False
    by (simp add: EncryptIfNeeded_def DecryptIfNeeded_def)
qed

section \<open>Properties\<close>

text \<open>
  C9 (\<open>encrypt_decrypt\<close>): with a key made by \<open>NewEncryptor\<close>, encryption of any string
  succeeds, a non-empty string comes out marked as encrypted, and decryption gives it back, also
  when the plaintext itself starts with the marker.
\<close>

theorem encrypt_decrypt:
  assumes "cipher_laws C" and "NewEncryptor C key = Inr e" and "length n = NonceSize"
  shows "\<exists>c. Encrypt C (Some n) e p = Inr c \<and> (p \<noteq> [] \<longrightarrow> IsEncrypted c) \<and> Decrypt C e c = Inr p"
proof -
  have l: "length (enc_key e) \<in> {16, 24, 32}"
    using assms(1,2) by (auto simp: NewEncryptor_def cipher_laws_def split: if_splits)
  from Encrypt_total[OF l] obtain c where "Encrypt C (Some n) e p = Inr c" "p \<noteq> [] \<longrightarrow> IsEncrypted c" by blast
  then show ?thesis using Decrypt_Encrypt[OF assms(1) l assms(3)] by blast
qed

text \<open>An example cipher: a constant hash, and sealing that keeps the plaintext.\<close>

definition demo_cipher :: cipher_api where
  "demo_cipher = \<lparr>c_sha256 = (\<lambda>_. replicate 32 7), gcm_Seal = (\<lambda>_ _ p. p), gcm_Open = (\<lambda>_ _ c. Some c)\<rparr>"

lemma demo_cipher_laws: "cipher_laws demo_cipher"
  by (simp add: cipher_laws_def demo_cipher_def)

theorem encrypt_decrypt_witness:
  "\<exists>c. Encrypt demo_cipher (Some (replicate 12 0)) \<lparr>enc_key = replicate 32 7\<rparr> ''enc:x'' = Inr c \<and>
     (''enc:x'' \<noteq> [] \<longrightarrow> IsEncrypted c) \<and> Decrypt demo_cipher \<lparr>enc_key = replicate 32 7\<rparr> c = Inr ''enc:x''"
  by (rule encrypt_decrypt[OF demo_cipher_laws, of "''k''"])
    (simp_all add: NewEncryptor_def demo_cipher_def NonceSize_def)

text \<open>
  \<open>payload_roundtrip\<close>: a task payload survives encryption for the queue.  In every state the
  package can reach, encrypting a payload that JSON preserves succeeds, the result is marked and
  keeps the task id and type readable, and decrypting it gives the payload back.
\<close>

theorem payload_roundtrip:
  assumes "cipher_laws C" and "crypto_ok st" and "length n = NonceSize"
    and "json_Marshal J payload = Some js" and "json_Unmarshal J js = Some payload"
  shows "\<exists>enc. EncryptPayload C J (Some n) st payload = Inr enc \<and> HasEncryptedPayload enc \<and>
    enc ''task_id'' = payload ''task_id'' \<and> enc ''task_type'' = payload ''task_type'' \<and>
    DecryptPayload C J st enc = Inr payload"
proof -
  obtain c where c: "EncryptIfNeeded C (Some n) st js = Inr c" "DecryptIfNeeded C st c = Inr js"
    using IfNeeded_roundtrip[OF assms(1-3)] by blast
  let ?e = "copy_key ''task_type'' payload (copy_key ''task_id'' payload
      [EncryptedConfigKey \<mapsto> VString c, IsEncryptedKey \<mapsto> VBool True])"
  have e: "EncryptPayload C J (Some n) st payload = Inr ?e" by (simp add: EncryptPayload_def assms(4) c)
  have k: "?e IsEncryptedKey = Some (VBool True)" "?e EncryptedConfigKey = Some (VString c)"
    "?e ''task_id'' = payload ''task_id''" "?e ''task_type'' = payload ''task_type''"
    by (simp_all add: copy_key_def IsEncryptedKey_def EncryptedConfigKey_def split: option.split)
  show ?thesis using e k c(2) assms(5) by (simp add: HasEncryptedPayload_def DecryptPayload_def)
qed

theorem payload_roundtrip_witness:
  "\<exists>enc. EncryptPayload demo_cipher \<lparr>json_Marshal = (\<lambda>_. Some ''{}''), json_Unmarshal = (\<lambda>_. Some Map.empty)\<rparr>
      (Some (replicate 12 0)) \<lparr>globalEncryptor = Some \<lparr>enc_key = replicate 32 7\<rparr>, once_done = True\<rparr>
      (Map.empty :: unit payload) = Inr enc \<and>
    HasEncryptedPayload enc \<and> enc ''task_id'' = None \<and> enc ''task_type'' = None \<and>
    DecryptPayload demo_cipher \<lparr>json_Marshal = (\<lambda>_. Some ''{}''), json_Unmarshal = (\<lambda>_. Some Map.empty)\<rparr>
      \<lparr>globalEncryptor = Some \<lparr>enc_key = replicate 32 7\<rparr>, once_done = True\<rparr> enc = Inr Map.empty"
  by (rule payload_roundtrip[OF demo_cipher_laws, simplified])
    (simp_all add: crypto_ok_def GetGlobalEncryptor_def NonceSize_def)

text \<open>
  \<open>failed_init_disables_encryption\<close>: initialising with encryption enabled and an empty key
  fails, and uses up the \<open>sync.Once\<close>: any later initialisation, also with a good key, reports
  success, and from then on secrets are stored in the clear.
\<close>

theorem failed_init_disables_encryption:
  "fst (InitGlobalEncryptor C [] True crypto_init) = Some InvalidKey \<and>
   fst (InitGlobalEncryptor C key True (snd (InitGlobalEncryptor C [] True crypto_init))) = None \<and>
   EncryptIfNeeded C nonce (snd (InitGlobalEncryptor C key True (snd (InitGlobalEncryptor C [] True crypto_init)))) p
     = Inr p"
  by (simp add: InitGlobalEncryptor_def NewEncryptor_def crypto_init_def EncryptIfNeeded_def GetGlobalEncryptor_def Let_def)

end
