(* ===== verification/EventBus.thy ===== *)
theory EventBus
  imports GoStrings
begin

text \<open>
  The in-process event bus, after \<^verbatim>\<open>eventbus/\<close>: events, handler wrappers, middleware, the bus and
  the manager of named buses, first as sequential operations and then, for the once-handlers,
  as a step relation over the read/write lock.

  A handler is a function on the state \<open>'w\<close> of the world it acts on, tagged with what
  \<^verbatim>\<open>fmt.Sprintf("%p", h)\<close> prints for it, the identity \<open>Unsubscribe\<close> compares.  It returns,
  panics, or (from a goroutine nobody recovers) crashes the program.  Log output is not modelled.
\<close>

section \<open>Events\<close>

record 'd Event =
  ev_ID :: string
  ev_Type :: string
  ev_Source :: string
  ev_Data :: "'d option"
  ev_Metadata :: "(string \<rightharpoonup> string) option"
  ev_Timestamp :: int
  ev_Priority :: int

definition charset :: string where "charset = ''abcdefghijklmnopqrstuvwxyz0123456789''"

text \<open>Each character is chosen by a reading of the clock in nanoseconds.\<close>

definition randomString :: "nat list \<Rightarrow> string" where
  "randomString readings = map (\<lambda>t. charset ! (t mod length charset)) readings"

text \<open>\<open>stamp\<close> is the formatted time; \<open>readings\<close> are the eight clock readings of the suffix.\<close>

definition generateEventID :: "string \<Rightarrow> nat list \<Rightarrow> string" where
  "generateEventID stamp readings = stamp @ randomString readings"

definition NewEvent :: "string \<Rightarrow> nat list \<Rightarrow> int \<Rightarrow> string \<Rightarrow> 'd option \<Rightarrow> 'd Event" where
  "NewEvent stamp readings now eventType data =
     \<lparr>ev_ID = generateEventID stamp readings, ev_Type = eventType, ev_Source = [], ev_Data = data,
      ev_Metadata = Some Map.empty, ev_Timestamp = now, ev_Priority = 0\<rparr>"

definition WithSource :: "string \<Rightarrow> 'd Event \<Rightarrow> 'd Event" where
  "WithSource source e = e\<lparr>ev_Source := source\<rparr>"

definition WithPriority :: "int \<Rightarrow> 'd Event \<Rightarrow> 'd Event" where
  "WithPriority priority e = e\<lparr>ev_Priority := priority\<rparr>"

definition WithMetadata :: "string \<Rightarrow> string \<Rightarrow> 'd Event \<Rightarrow> 'd Event" where
  "WithMetadata key v e =
     (let m = (case ev_Metadata e of None \<Rightarrow> Map.empty | Some m \<Rightarrow> m)
      in e\<lparr>ev_Metadata := Some (m(key \<mapsto> v))\<rparr>)"

text \<open>\<open>GetData\<close> goes through JSON; a missing payload leaves the target as it was.\<close>

definition GetData :: "('d \<Rightarrow> string option) \<Rightarrow> (string \<Rightarrow> 'v option) \<Rightarrow> 'd Event \<Rightarrow> 'v \<Rightarrow> (unit, 'v) result" where
  "GetData marshal unmarshal e v =
     (case ev_Data e of
        None \<Rightarrow> Inr v
      | Some d \<Rightarrow>
          (case marshal d of
             None \<Rightarrow> Inl ()
           | Some js \<Rightarrow> (case unmarshal js of None \<Rightarrow> Inl () | Some v' \<Rightarrow> Inr v')))"

definition Clone :: "'d Event \<Rightarrow> 'd Event" where
  "Clone e =
     \<lparr>ev_ID = ev_ID e, ev_Type = ev_Type e, ev_Source = ev_Source e, ev_Data = ev_Data e,
      ev_Metadata = Some (case ev_Metadata e of None \<Rightarrow> Map.empty | Some m \<Rightarrow> m),
      ev_Timestamp = ev_Timestamp e, ev_Priority = ev_Priority e\<rparr>"

section \<open>Handlers\<close>

datatype 'e bus_error = BusClosed | AlreadyClosed | HandlerNotFound string | PanicError string
  | TimeoutError string string int | UserError 'e

datatype 'e outcome = Returned "'e bus_error option" | Panicked string | Crashed string

type_synonym ('d, 'w, 'e) handle = "'d Event \<Rightarrow> 'w \<Rightarrow> 'e outcome \<times> 'w"

record ('d, 'w, 'e) Handler =
  h_ptr :: string
  h_Handle :: "('d, 'w, 'e) handle"

definition EventHandlerFunc :: "string \<Rightarrow> ('d, 'w, 'e) handle \<Rightarrow> ('d, 'w, 'e) Handler" where
  "EventHandlerFunc addr f = \<lparr>h_ptr = addr, h_Handle = f\<rparr>"

text \<open>
  \<open>spawn\<close> is the \<open>go\<close> statement: what the runtime makes of a function to be run concurrently.  The
  error such a function comes to is dropped, but a panic in it is recovered by nobody.
\<close>

definition go_outcome :: "'e outcome \<Rightarrow> 'e outcome" where
  "go_outcome r = (case r of Returned _ \<Rightarrow> Returned None | Panicked v \<Rightarrow> Crashed v | Crashed v \<Rightarrow> Crashed v)"

definition AsyncHandler_Handle :: "(('w \<Rightarrow> 'e outcome \<times> 'w) \<Rightarrow> 'w \<Rightarrow> 'w) \<Rightarrow> ('d, 'w, 'e) Handler \<Rightarrow> ('d, 'w, 'e) handle" where
  "AsyncHandler_Handle spawn h event w = (Returned None, spawn (\<lambda>w. apfst go_outcome (h_Handle h event w)) w)"

text \<open>Every call allocates a new wrapper, so its address is new.\<close>

definition NewAsyncHandler :: "string \<Rightarrow> (('w \<Rightarrow> 'e outcome \<times> 'w) \<Rightarrow> 'w \<Rightarrow> 'w) \<Rightarrow> ('d, 'w, 'e) Handler \<Rightarrow> ('d, 'w, 'e) Handler" where
  "NewAsyncHandler addr spawn h = \<lparr>h_ptr = addr, h_Handle = AsyncHandler_Handle spawn h\<rparr>"

fun ChainHandler_Handle :: "('d, 'w, 'e) Handler list \<Rightarrow> ('d, 'w, 'e) handle" where
  "ChainHandler_Handle [] event w = (Returned None, w)"
| "ChainHandler_Handle (h # hs) event w =
     (case h_Handle h event w of
        (Returned None, w') \<Rightarrow> ChainHandler_Handle hs event w'
      | r \<Rightarrow> r)"

definition NewChainHandler :: "string \<Rightarrow> ('d, 'w, 'e) Handler list \<Rightarrow> ('d, 'w, 'e) Handler" where
  "NewChainHandler addr handlers = \<lparr>h_ptr = addr, h_Handle = ChainHandler_Handle handlers\<rparr>"

definition FilterHandler_Handle :: "('d Event \<Rightarrow> bool) \<Rightarrow> ('d, 'w, 'e) Handler \<Rightarrow> ('d, 'w, 'e) handle" where
  "FilterHandler_Handle filt h event w = (if filt event then h_Handle h event w else (Returned None, w))"

definition NewFilterHandler :: "string \<Rightarrow> ('d Event \<Rightarrow> bool) \<Rightarrow> ('d, 'w, 'e) Handler \<Rightarrow> ('d, 'w, 'e) Handler" where
  "NewFilterHandler addr filt h = \<lparr>h_ptr = addr, h_Handle = FilterHandler_Handle filt h\<rparr>"

section \<open>Middleware\<close>

type_synonym ('d, 'w, 'e) middleware = "('d, 'w, 'e) handle \<Rightarrow> ('d, 'w, 'e) handle"

definition LoggingMiddleware :: "('d, 'w, 'e) middleware" where
  "LoggingMiddleware nxt event w = nxt event w"

definition RecoveryMiddleware :: "('d, 'w, 'e) middleware" where
  "RecoveryMiddleware nxt event w =
     (case nxt event w of (Panicked v, w') \<Rightarrow> (Returned (Some (PanicError v)), w') | r \<Rightarrow> r)"

text \<open>
  The handler runs in a goroutine of its own.  \<open>late\<close> says that the timeout is chosen by the
  \<open>select\<close>; a panic in that goroutine is outside every recover.
\<close>

definition TimeoutMiddleware :: "bool \<Rightarrow> int \<Rightarrow> ('d, 'w, 'e) middleware" where
  "TimeoutMiddleware late timeout nxt event w =
     (case nxt event w of
        (Panicked v, w') \<Rightarrow> (Crashed v, w')
      | (Crashed v, w') \<Rightarrow> (Crashed v, w')
      | (Returned err, w') \<Rightarrow>
          (if late then (Returned (Some (TimeoutError (ev_ID event) (ev_Type event) timeout)), w')
           else (Returned err, w')))"

text \<open>
  \<open>attempts\<close> counts the attempts left; \<open>err\<close> is the variable of that name; \<open>sleep\<close> is what the
  pause between two attempts does to the world.
\<close>

fun retry_loop :: "('w \<Rightarrow> 'w) \<Rightarrow> ('d, 'w, 'e) handle \<Rightarrow> 'd Event \<Rightarrow> nat \<Rightarrow> 'e bus_error option \<Rightarrow> 'w
    \<Rightarrow> 'e outcome \<times> 'w" where
  "retry_loop sleep nxt event 0 err w = (Returned err, w)"
| "retry_loop sleep nxt event (Suc n) err w =
     (case nxt event w of
        (Returned None, w') \<Rightarrow> (Returned None, w')
      | (Returned (Some e), w') \<Rightarrow> retry_loop sleep nxt event n (Some e) (if n > 0 then sleep w' else w')
      | r \<Rightarrow> r)"

definition RetryMiddleware :: "('w \<Rightarrow> 'w) \<Rightarrow> int \<Rightarrow> ('d, 'w, 'e) middleware" where
  "RetryMiddleware sleep maxRetries nxt event w = retry_loop sleep nxt event (nat (maxRetries + 1)) None w"

definition MetricsMiddleware :: "('d, 'w, 'e) middleware" where
  "MetricsMiddleware nxt event w = nxt event w"

text \<open>The loop runs over the middlewares from the last to the first.\<close>

definition Chain :: "('d, 'w, 'e) middleware list \<Rightarrow> ('d, 'w, 'e) middleware" where
  "Chain middlewares handler = fold (\<lambda>m h. m h) (rev middlewares) handler"

section \<open>The bus\<close>

type_synonym ('d, 'w, 'e) table = "string \<rightharpoonup> ('d, 'w, 'e) Handler list"

record ('d, 'w, 'e) EventBus =
  eb_handlers :: "('d, 'w, 'e) table"
  eb_onceHandlers :: "('d, 'w, 'e) table"
  eb_closed :: bool

definition NewEventBus :: "('d, 'w, 'e) EventBus" where
  "NewEventBus = \<lparr>eb_handlers = Map.empty, eb_onceHandlers = Map.empty, eb_closed = False\<rparr>"

definition entries :: "('d, 'w, 'e) table \<Rightarrow> string \<Rightarrow> ('d, 'w, 'e) Handler list" where
  "entries t k = (case t k of None \<Rightarrow> [] | Some hs \<Rightarrow> hs)"

definition Subscribe :: "string \<Rightarrow> ('d, 'w, 'e) Handler \<Rightarrow> ('d, 'w, 'e) EventBus
    \<Rightarrow> 'e bus_error option \<times> ('d, 'w, 'e) EventBus" where
  "Subscribe eventType handler eb =
     (if eb_closed eb then (Some BusClosed, eb)
      else (None, eb\<lparr>eb_handlers := (eb_handlers eb)(eventType \<mapsto> entries (eb_handlers eb) eventType @ [handler])\<rparr>))"

definition SubscribeAsync :: "string \<Rightarrow> (('w \<Rightarrow> 'e outcome \<times> 'w) \<Rightarrow> 'w \<Rightarrow> 'w) \<Rightarrow> string \<Rightarrow> ('d, 'w, 'e) Handler
    \<Rightarrow> ('d, 'w, 'e) EventBus \<Rightarrow> 'e bus_error option \<times> ('d, 'w, 'e) EventBus" where
  "SubscribeAsync addr spawn eventType handler eb = Subscribe eventType (NewAsyncHandler addr spawn handler) eb"

definition SubscribeOnce :: "string \<Rightarrow> ('d, 'w, 'e) Handler \<Rightarrow> ('d, 'w, 'e) EventBus
    \<Rightarrow> 'e bus_error option \<times> ('d, 'w, 'e) EventBus" where
  "SubscribeOnce eventType handler eb =
     (if eb_closed eb then (Some BusClosed, eb)
      else (None, eb\<lparr>eb_onceHandlers := (eb_onceHandlers eb)(eventType \<mapsto> entries (eb_onceHandlers eb) eventType @ [handler])\<rparr>))"

text \<open>The position of the first handler that prints the same address.\<close>

fun find_ptr :: "string \<Rightarrow> ('d, 'w, 'e) Handler list \<Rightarrow> nat option" where
  "find_ptr p [] = None"
| "find_ptr p (h # hs) = (if h_ptr h = p then Some 0 else map_option Suc (find_ptr p hs))"

definition Unsubscribe :: "string \<Rightarrow> ('d, 'w, 'e) Handler \<Rightarrow> ('d, 'w, 'e) EventBus
    \<Rightarrow> 'e bus_error option \<times> ('d, 'w, 'e) EventBus" where
  "Unsubscribe eventType handler eb =
     (case eb_handlers eb eventType of
        None \<Rightarrow> (Some (HandlerNotFound eventType), eb)
      | Some hs \<Rightarrow>
          (case find_ptr (h_ptr handler) hs of
             None \<Rightarrow> (Some (HandlerNotFound eventType), eb)
           | Some i \<Rightarrow> (None, eb\<lparr>eb_handlers := (eb_handlers eb)(eventType \<mapsto> take i hs @ drop (i + 1) hs)\<rparr>)))"

text \<open>Both loops of \<open>Publish\<close>: an error is logged, a panic ends the call.\<close>

fun run_handlers :: "('d, 'w, 'e) Handler list \<Rightarrow> 'd Event \<Rightarrow> 'w \<Rightarrow> 'e outcome option \<times> 'w" where
  "run_handlers [] event w = (None, w)"
| "run_handlers (h # hs) event w =
     (case h_Handle h event w of
        (Returned _, w') \<Rightarrow> run_handlers hs event w'
      | (r, w') \<Rightarrow> (Some r, w'))"

definition bus_Publish :: "'d Event \<Rightarrow> ('d, 'w, 'e) EventBus \<Rightarrow> 'w \<Rightarrow> 'e outcome \<times> ('d, 'w, 'e) EventBus \<times> 'w" where
  "bus_Publish event eb w =
     (if eb_closed eb then (Returned (Some BusClosed), eb, w)
      else let handlers = entries (eb_handlers eb) (ev_Type event);
               onceHandlers = entries (eb_onceHandlers eb) (ev_Type event) in
      if length handlers + length onceHandlers = 0 then (Returned None, eb, w)
      else case run_handlers handlers event w of
        (Some r, w') \<Rightarrow> (r, eb, w')
      | (None, w') \<Rightarrow>
          (case run_handlers onceHandlers event w' of
             (Some r, w'') \<Rightarrow> (r, eb, w'')
           | (None, w'') \<Rightarrow>
               (Returned None,
                if length onceHandlers > 0
                then eb\<lparr>eb_onceHandlers := (eb_onceHandlers eb)(ev_Type event := None)\<rparr> else eb,
                w'')))"

text \<open>\<open>PublishAsync\<close> hands the publication to the runtime and reports success.\<close>

definition PublishAsync :: "((('d, 'w, 'e) EventBus \<times> 'w \<Rightarrow> 'e outcome \<times> ('d, 'w, 'e) EventBus \<times> 'w)
      \<Rightarrow> ('d, 'w, 'e) EventBus \<times> 'w \<Rightarrow> ('d, 'w, 'e) EventBus \<times> 'w)
    \<Rightarrow> 'd Event \<Rightarrow> ('d, 'w, 'e) EventBus \<times> 'w \<Rightarrow> 'e bus_error option \<times> ('d, 'w, 'e) EventBus \<times> 'w" where
  "PublishAsync spawn event st = (None, spawn (\<lambda>(eb, w). apfst go_outcome (bus_Publish event eb w)) st)"

definition bus_Close :: "('d, 'w, 'e) EventBus \<Rightarrow> 'e bus_error option \<times> ('d, 'w, 'e) EventBus" where
  "bus_Close eb =
     (if eb_closed eb then (Some AlreadyClosed, eb)
      else (None, \<lparr>eb_handlers = Map.empty, eb_onceHandlers = Map.empty, eb_closed = True\<rparr>))"

definition GetSubscriberCount :: "('d, 'w, 'e) EventBus \<Rightarrow> string \<Rightarrow> nat" where
  "GetSubscriberCount eb eventType =
     length (entries (eb_handlers eb) eventType) + length (entries (eb_onceHandlers eb) eventType)"

text \<open>The order of the result is that of Go's map iteration, so it is modelled as a set.\<close>

definition GetEventTypes :: "('d, 'w, 'e) EventBus \<Rightarrow> string set" where
  "GetEventTypes eb = dom (eb_handlers eb) \<union> dom (eb_onceHandlers eb)"

section \<open>The manager\<close>

record ('d, 'w, 'e) Manager =
  mg_buses :: "string \<rightharpoonup> ('d, 'w, 'e) EventBus"
  mg_global :: "('d, 'w, 'e) EventBus"

definition NewManager :: "('d, 'w, 'e) Manager" where
  "NewManager = \<lparr>mg_buses = Map.empty, mg_global = NewEventBus\<rparr>"

definition GetBus :: "string \<Rightarrow> ('d, 'w, 'e) Manager \<Rightarrow> ('d, 'w, 'e) EventBus \<times> ('d, 'w, 'e) Manager" where
  "GetBus name m =
     (case mg_buses m name of
        Some bus \<Rightarrow> (bus, m)
      | None \<Rightarrow> (NewEventBus, m\<lparr>mg_buses := (mg_buses m)(name \<mapsto> NewEventBus)\<rparr>))"

definition Global :: "('d, 'w, 'e) Manager \<Rightarrow> ('d, 'w, 'e) EventBus" where
  "Global m = mg_global m"

definition mgr_Publish :: "string \<Rightarrow> 'd Event \<Rightarrow> ('d, 'w, 'e) Manager \<Rightarrow> 'w \<Rightarrow> 'e outcome \<times> ('d, 'w, 'e) Manager \<times> 'w" where
  "mgr_Publish busName event m w =
     (let (bus, m') = GetBus busName m; (r, bus', w') = bus_Publish event bus w
      in (r, m'\<lparr>mg_buses := (mg_buses m')(busName \<mapsto> bus')\<rparr>, w'))"

definition PublishGlobal :: "'d Event \<Rightarrow> ('d, 'w, 'e) Manager \<Rightarrow> 'w \<Rightarrow> 'e outcome \<times> ('d, 'w, 'e) Manager \<times> 'w" where
  "PublishGlobal event m w =
     (let (r, bus', w') = bus_Publish event (mg_global m) w in (r, m\<lparr>mg_global := bus'\<rparr>, w'))"

definition mgr_Subscribe :: "string \<Rightarrow> string \<Rightarrow> ('d, 'w, 'e) Handler \<Rightarrow> ('d, 'w, 'e) Manager
    \<Rightarrow> 'e bus_error option \<times> ('d, 'w, 'e) Manager" where
  "mgr_Subscribe busName eventType handler m =
     (let (bus, m') = GetBus busName m; (err, bus') = Subscribe eventType handler bus
      in (err, m'\<lparr>mg_buses := (mg_buses m')(busName \<mapsto> bus')\<rparr>))"

definition SubscribeGlobal :: "string \<Rightarrow> ('d, 'w, 'e) Handler \<Rightarrow> ('d, 'w, 'e) Manager
    \<Rightarrow> 'e bus_error option \<times> ('d, 'w, 'e) Manager" where
  "SubscribeGlobal eventType handler m =
     (let (err, bus') = Subscribe eventType handler (mg_global m) in (err, m\<lparr>mg_global := bus'\<rparr>))"

text \<open>Errors of closing a bus are logged; the named buses are closed and forgotten.\<close>

definition mgr_Close :: "('d, 'w, 'e) Manager \<Rightarrow> 'e bus_error option \<times> ('d, 'w, 'e) Manager" where
  "mgr_Close m = (None, \<lparr>mg_buses = Map.empty, mg_global = snd (bus_Close (mg_global m))\<rparr>)"

record stats =
  st_total_buses :: nat
  st_buses :: "string \<rightharpoonup> string set"
  st_global_bus :: "string set"

definition GetStats :: "('d, 'w, 'e) Manager \<Rightarrow> stats" where
  "GetStats m = \<lparr>st_total_buses = card (dom (mg_buses m)),
     st_buses = (\<lambda>name. map_option GetEventTypes (mg_buses m name)),
     st_global_bus = GetEventTypes (mg_global m)\<rparr>"

section \<open>Concurrent publication\<close>

text \<open>
  \<open>Publish\<close> gives up its read lock between running the once-handlers and deleting them.  The step
  relation below is \<open>Publish\<close> and \<open>SubscribeOnce\<close> for one event type, cut at the lock operations,
  with publishers numbered and once-handlers named by numbers.  \<open>bs_log\<close> records which handler
  ran.  The read/write lock admits any number of readers or one writer.
\<close>

datatype pc =
    PIdle
  | PRunning "nat list" bool
  | PReleased
  | PWriting
  | PWritten
  | PFinal
  | PDone

record bus_state =
  bs_once :: "nat list"
  bs_readers :: nat
  bs_writer :: bool
  bs_pcs :: "nat \<Rightarrow> pc"
  bs_log :: "nat list"

inductive bus_step :: "bus_state \<Rightarrow> bus_state \<Rightarrow> bool" where
  SubOnce: "bs_readers s = 0 \<Longrightarrow> \<not> bs_writer s \<Longrightarrow> bus_step s (s\<lparr>bs_once := bs_once s @ [h]\<rparr>)"
| RLock: "bs_pcs s t = PIdle \<Longrightarrow> \<not> bs_writer s \<Longrightarrow>
    bus_step s (s\<lparr>bs_readers := bs_readers s + 1,
                  bs_pcs := (bs_pcs s)(t := PRunning (bs_once s) (bs_once s \<noteq> []))\<rparr>)"
| Run: "bs_pcs s t = PRunning (h # hs) b \<Longrightarrow>
    bus_step s (s\<lparr>bs_log := bs_log s @ [h], bs_pcs := (bs_pcs s)(t := PRunning hs b)\<rparr>)"
| Return: "bs_pcs s t = PRunning [] False \<Longrightarrow>
    bus_step s (s\<lparr>bs_readers := bs_readers s - 1, bs_pcs := (bs_pcs s)(t := PDone)\<rparr>)"
| RUnlock: "bs_pcs s t = PRunning [] True \<Longrightarrow>
    bus_step s (s\<lparr>bs_readers := bs_readers s - 1, bs_pcs := (bs_pcs s)(t := PReleased)\<rparr>)"
| Lock: "bs_pcs s t = PReleased \<Longrightarrow> bs_readers s = 0 \<Longrightarrow> \<not> bs_writer s \<Longrightarrow>
    bus_step s (s\<lparr>bs_writer := True, bs_pcs := (bs_pcs s)(t := PWriting)\<rparr>)"
| Delete: "bs_pcs s t = PWriting \<Longrightarrow>
    bus_step s (s\<lparr>bs_once := [], bs_writer := False, bs_pcs := (bs_pcs s)(t := PWritten)\<rparr>)"
| Relock: "bs_pcs s t = PWritten \<Longrightarrow> \<not> bs_writer s \<Longrightarrow>
    bus_step s (s\<lparr>bs_readers := bs_readers s + 1, bs_pcs := (bs_pcs s)(t := PFinal)\<rparr>)"
| Final: "bs_pcs s t = PFinal \<Longrightarrow>
    bus_step s (s\<lparr>bs_readers := bs_readers s - 1, bs_pcs := (bs_pcs s)(t := PDone)\<rparr>)"

definition bus_start :: bus_state where
  "bus_start = \<lparr>bs_once = [], bs_readers = 0, bs_writer = False, bs_pcs = (\<lambda>_. PIdle), bs_log = []\<rparr>"

inductive_cases bus_stepE: "bus_step s s'"

definition holds_read :: "pc \<Rightarrow> bool" where
  "holds_read p = (case p of PRunning _ _ \<Rightarrow> True | PFinal \<Rightarrow> True | _ \<Rightarrow> False)"

lemma holds_read_simps [simp]: "holds_read (PRunning hs b)" "holds_read PFinal" "\<not> holds_read PIdle"
  "\<not> holds_read PReleased" "\<not> holds_read PWriting" "\<not> holds_read PWritten" "\<not> holds_read PDone"
  by (simp_all add: holds_read_def)

text \<open>
  The lock discipline: the reader count is the number of publishers inside, a writer excludes
  readers, and it is the one publisher in its critical section.
\<close>

definition lock_ok :: "nat \<Rightarrow> bool \<Rightarrow> (nat \<Rightarrow> pc) \<Rightarrow> bool" where
  "lock_ok readers writer pcs \<longleftrightarrow> finite {t. holds_read (pcs t)} \<and> readers = card {t. holds_read (pcs t)} \<and>
     (writer \<longrightarrow> readers = 0) \<and> (\<forall>t. pcs t = PWriting \<longrightarrow> writer) \<and>
     (\<forall>t u. pcs t = PWriting \<longrightarrow> pcs u = PWriting \<longrightarrow> t = u)"

lemma holders_upd:
  "{u. holds_read ((pcs(t := p)) u)} =
     (if holds_read p then insert t {u. holds_read (pcs u)} else {u. holds_read (pcs u)} - {t})"
  by auto

lemma lock_ok_enter:
  "lock_ok n w pcs \<Longrightarrow> \<not> holds_read (pcs t) \<Longrightarrow> holds_read p \<Longrightarrow> \<not> w \<Longrightarrow> lock_ok (n + 1) w (pcs(t := p))"
  unfolding lock_ok_def holders_upd by (auto simp: insert_absorb)

lemma lock_ok_leave:
  "lock_ok n w pcs \<Longrightarrow> holds_read (pcs t) \<Longrightarrow> \<not> holds_read p \<Longrightarrow> p \<noteq> PWriting \<Longrightarrow> lock_ok (n - 1) w (pcs(t := p))"
  unfolding lock_ok_def holders_upd by auto

lemma lock_ok_stay: "lock_ok n w pcs \<Longrightarrow> holds_read (pcs t) \<Longrightarrow> holds_read p \<Longrightarrow> lock_ok n w (pcs(t := p))"
  unfolding lock_ok_def holders_upd by (auto simp: insert_absorb)

lemma lock_ok_acquire:
  "lock_ok 0 False pcs \<Longrightarrow> \<not> holds_read (pcs t) \<Longrightarrow> lock_ok 0 True (pcs(t := PWriting))"
  unfolding lock_ok_def holders_upd by auto

lemma lock_ok_unlock:
  "lock_ok n w pcs \<Longrightarrow> pcs t = PWriting \<Longrightarrow> \<not> holds_read p \<Longrightarrow> p \<noteq> PWriting \<Longrightarrow> lock_ok n False (pcs(t := p))"
  unfolding lock_ok_def holders_upd by (auto simp: Diff_triv)

lemma lock_ok_step:
  "bus_step s s' \<Longrightarrow> lock_ok (bs_readers s) (bs_writer s) (bs_pcs s) \<Longrightarrow>
     lock_ok (bs_readers s') (bs_writer s') (bs_pcs s')"
  by (induction rule: bus_step.induct)
    (simp_all add: lock_ok_enter lock_ok_leave lock_ok_stay lock_ok_acquire lock_ok_unlock
      del: fun_upd_apply One_nat_def Suc_eq_plus1 add.right_neutral)

lemma lock_ok_reachable:
  "bus_step\<^sup>*\<^sup>* bus_start s \<Longrightarrow> lock_ok (bs_readers s) (bs_writer s) (bs_pcs s)"
proof (induction rule: rtranclp_induct)
  case base
  then show ?case by (simp add: bus_start_def lock_ok_def)
next
  case (step s s')
  then show ?case using lock_ok_step by blast
qed

section \<open>Sequential operations: lemmas\<close>

lemma run_handlers_returning:
  assumes "\<forall>h \<in> set hs. \<forall>w. \<exists>err w'. h_Handle h ev w = (Returned err, w')"
  shows "run_handlers hs ev w = (None, fold (\<lambda>h w. snd (h_Handle h ev w)) hs w)"
  using assms
proof (induction hs arbitrary: w)
  case Nil
  then show ?case by simp
next
  case (Cons h hs)
  obtain err w' where "h_Handle h ev w = (Returned err, w')"
    using Cons.prems by (meson list.set_intros(1))
  then show ?case using Cons by simp
qed

lemma find_ptr_Some: "find_ptr p hs = Some i \<Longrightarrow> i < length hs \<and> h_ptr (hs ! i) = p"
  by (induction hs arbitrary: i) (auto split: if_splits)

lemma find_ptr_None: "find_ptr p hs = None \<longleftrightarrow> (\<forall>h \<in> set hs. h_ptr h \<noteq> p)"
  by (induction hs) auto

lemma find_ptr_append:
  "\<forall>h \<in> set hs. h_ptr h \<noteq> p \<Longrightarrow> find_ptr p (hs @ [h']) = (if h_ptr h' = p then Some (length hs) else None)"
  by (induction hs) auto

lemma Chain_foldr: "Chain ms h = foldr (\<lambda>m h. m h) ms h"
  by (simp add: Chain_def foldr_conv_fold)

section \<open>Properties\<close>

text \<open>
  C23 (\<open>publish_delivers\<close>): what a publication on an open bus does, when no handler panics.  Every
  handler of the event's type runs exactly once in subscription order, the permanent ones before
  the once-handlers, whether or not earlier ones report errors; the call succeeds; afterwards the
  once-handlers of this type are gone and no other subscription has changed.
\<close>

theorem publish_delivers:
  assumes "\<not> eb_closed eb" and "hs = entries (eb_handlers eb) (ev_Type ev)"
    and "os = entries (eb_onceHandlers eb) (ev_Type ev)"
    and "\<forall>h \<in> set (hs @ os). \<forall>w. \<exists>err w'. h_Handle h ev w = (Returned err, w')"
  shows "\<exists>eb'. bus_Publish ev eb w = (Returned None, eb', fold (\<lambda>h w. snd (h_Handle h ev w)) (hs @ os) w) \<and>
    eb_handlers eb' = eb_handlers eb \<and> \<not> eb_closed eb' \<and>
    entries (eb_onceHandlers eb') = (entries (eb_onceHandlers eb))(ev_Type ev := [])"
proof -
  have r: "run_handlers hs ev w = (None, fold (\<lambda>h w. snd (h_Handle h ev w)) hs w)"
    "run_handlers os ev w' = (None, fold (\<lambda>h w. snd (h_Handle h ev w)) os w')" for w'
    using assms(4) by (auto intro: run_handlers_returning)
  have e: "entries (t(k := None)) = (entries t)(k := [])" for t :: "('a, 'b, 'c) table" and k
    by (auto simp: entries_def)
  have o: "os = [] \<Longrightarrow> entries (eb_onceHandlers eb) = (entries (eb_onceHandlers eb))(ev_Type ev := [])"
    using assms(3) by auto
  show ?thesis
    using assms(1) r o by (cases "os = []") (auto simp: bus_Publish_def Let_def e simp flip: assms(2,3))
qed

definition count_handler :: "string \<Rightarrow> string \<Rightarrow> (unit, string list, unit) Handler" where
  "count_handler p name = \<lparr>h_ptr = p, h_Handle = (\<lambda>_ w. (Returned None, w @ [name]))\<rparr>"

definition demo_event :: "unit Event" where
  "demo_event = NewEvent [] [] 0 ''user.created'' None"

definition demo_bus :: "(unit, string list, unit) EventBus" where
  "demo_bus = snd (SubscribeOnce ''user.created'' (count_handler ''2'' ''once'')
     (snd (Subscribe ''user.created'' (count_handler ''1'' ''perm'') NewEventBus)))"

theorem publish_delivers_witness:
  "\<exists>eb'. bus_Publish demo_event demo_bus [] = (Returned None, eb', [''perm'', ''once'']) \<and>
    eb_handlers eb' = eb_handlers demo_bus \<and> \<not> eb_closed eb' \<and>
    entries (eb_onceHandlers eb') = (entries (eb_onceHandlers demo_bus))(''user.created'' := [])"
proof -
  have e: "entries (eb_handlers demo_bus) ''user.created'' = [count_handler ''1'' ''perm'']"
    "entries (eb_onceHandlers demo_bus) ''user.created'' = [count_handler ''2'' ''once'']"
    "ev_Type demo_event = ''user.created''" "\<not> eb_closed demo_bus"
    by (simp_all add: demo_bus_def Subscribe_def SubscribeOnce_def NewEventBus_def entries_def demo_event_def NewEvent_def)
  show ?thesis using publish_delivers[OF e(4) refl refl, of demo_event "[]"]
    by (simp add: e count_handler_def)
qed

text \<open>
  Steps of publishers only, and steps of publications that do not overlap: while one publisher is
  between its locks, every other has not started or has returned.
\<close>

definition pub_step :: "bus_state \<Rightarrow> bus_state \<Rightarrow> bool" where
  "pub_step s s' \<longleftrightarrow> bus_step s s' \<and> length (bs_once s') \<le> length (bs_once s)"

definition at_rest :: "bus_state \<Rightarrow> nat \<Rightarrow> bool" where
  "at_rest s t \<longleftrightarrow> bs_pcs s t = PIdle \<or> bs_pcs s t = PDone"

definition seq_step :: "bus_state \<Rightarrow> bus_state \<Rightarrow> bool" where
  "seq_step s s' \<longleftrightarrow> pub_step s s' \<and> (\<exists>t. \<forall>u. u \<noteq> t \<longrightarrow> at_rest s u \<and> at_rest s' u)"

text \<open>What non-overlapping publications of one once-handler go through.\<close>

definition once_inv :: "nat \<Rightarrow> bus_state \<Rightarrow> bool" where
  "once_inv h s \<longleftrightarrow>
     bs_once s = [h] \<and> bs_log s = [] \<and> (\<forall>t. bs_pcs s t \<in> {PIdle, PDone, PRunning [h] True}) \<or>
     bs_once s = [h] \<and> bs_log s = [h] \<and>
       (\<exists>t. bs_pcs s t \<in> {PRunning [] True, PReleased, PWriting} \<and> (\<forall>u. u \<noteq> t \<longrightarrow> at_rest s u)) \<or>
     bs_once s = [] \<and> bs_log s = [h] \<and>
       (\<forall>t. bs_pcs s t \<in> {PIdle, PDone, PWritten, PFinal, PRunning [] False})"

lemma once_inv_log: "once_inv h s \<Longrightarrow> bs_log s \<in> {[], [h]}"
  by (auto simp: once_inv_def)

lemma once_invI:
  "bs_once s = [h] \<Longrightarrow> bs_log s = [] \<Longrightarrow> (\<And>u. bs_pcs s u \<in> {PIdle, PDone, PRunning [h] True}) \<Longrightarrow> once_inv h s"
  "bs_once s = [h] \<Longrightarrow> bs_log s = [h] \<Longrightarrow> bs_pcs s t \<in> {PRunning [] True, PReleased, PWriting} \<Longrightarrow>
     (\<And>u. u \<noteq> t \<Longrightarrow> at_rest s u) \<Longrightarrow> once_inv h s"
  "bs_once s = [] \<Longrightarrow> bs_log s = [h] \<Longrightarrow> (\<And>u. bs_pcs s u \<in> {PIdle, PDone, PWritten, PFinal, PRunning [] False}) \<Longrightarrow>
     once_inv h s"
  unfolding once_inv_def by blast+

lemma once_inv_before:
  assumes "bus_step s s'" and "length (bs_once s') \<le> length (bs_once s)" and "\<And>u. u \<noteq> t \<Longrightarrow> at_rest s u"
    and once: "bs_once s = [h]" and log: "bs_log s = []" and pcs: "\<And>u. bs_pcs s u \<in> {PIdle, PDone, PRunning [h] True}"
  shows "once_inv h s'"
  using assms(1)
proof cases
  case (SubOnce k)
  then show ?thesis using assms(2) by simp
next
  case (RLock u)
  show ?thesis by (rule once_invI(1)) (use once log pcs in \<open>simp_all add: RLock(1)\<close>)
next
  case (Run u k hs b)
  have k: "k = h" "hs = []" "b" using pcs[of u] Run(2) by simp_all
  have u: "u = t" using assms(3)[of u] Run(2) by (auto simp: at_rest_def)
  show ?thesis
    by (rule once_invI(2)[where t = u]) (use once log assms(3) u in \<open>simp_all add: Run(1) k at_rest_def\<close>)
next
  case (Return u)
  then show ?thesis using pcs[of u] by simp
next
  case (RUnlock u)
  then show ?thesis using pcs[of u] by simp
next
  case (Lock u)
  then show ?thesis using pcs[of u] by simp
next
  case (Delete u)
  then show ?thesis using pcs[of u] by simp
next
  case (Relock u)
  then show ?thesis using pcs[of u] by simp
next
  case (Final u)
  then show ?thesis using pcs[of u] by simp
qed

lemma once_inv_during:
  assumes "bus_step s s'" and "length (bs_once s') \<le> length (bs_once s)"
    and "\<And>u. u \<noteq> t \<Longrightarrow> at_rest s u" and "\<And>u. u \<noteq> t \<Longrightarrow> at_rest s' u"
    and once: "bs_once s = [h]" and log: "bs_log s = [h]" and pc: "bs_pcs s t \<in> {PRunning [] True, PReleased, PWriting}"
  shows "once_inv h s'"
proof -
  have self: "u = t" if "bs_pcs s u \<noteq> PIdle" "bs_pcs s u \<noteq> PDone" for u using assms(3)[of u] that by (auto simp: at_rest_def)
  from assms(1) show ?thesis
  proof cases
    case (SubOnce k)
    then show ?thesis using assms(2) by simp
  next
    case (RLock u)
    then have "u \<noteq> t" using pc by auto
    then show ?thesis using assms(4)[of u] by (simp add: RLock(1) at_rest_def)
  next
    case (Run u k hs b)
    then show ?thesis using self[of u] pc by simp
  next
    case (Return u)
    then show ?thesis using self[of u] pc by simp
  next
    case (RUnlock u)
    then have u: "u = t" using self[of u] by simp
    show ?thesis by (rule once_invI(2)[where t = t]) (use once log assms(4) in \<open>simp_all add: RUnlock(1) u\<close>)
  next
    case (Lock u)
    then have u: "u = t" using self[of u] by simp
    show ?thesis by (rule once_invI(2)[where t = t]) (use once log assms(4) in \<open>simp_all add: Lock(1) u\<close>)
  next
    case (Delete u)
    then have u: "u = t" using self[of u] by simp
    have "bs_pcs s' v \<in> {PIdle, PDone, PWritten, PFinal, PRunning [] False}" for v
      using assms(4)[of v] by (cases "v = t") (auto simp: Delete(1) u at_rest_def)
    then show ?thesis by (intro once_invI(3)) (use log in \<open>simp_all add: Delete(1)\<close>)
  next
    case (Relock u)
    then show ?thesis using self[of u] pc by simp
  next
    case (Final u)
    then show ?thesis using self[of u] pc by simp
  qed
qed

lemma once_inv_behind:
  assumes "bus_step s s'" and "length (bs_once s') \<le> length (bs_once s)"
    and once: "bs_once s = []" and log: "bs_log s = [h]"
    and pcs: "\<And>u. bs_pcs s u \<in> {PIdle, PDone, PWritten, PFinal, PRunning [] False}"
  shows "once_inv h s'"
  using assms(1)
proof cases
  case (SubOnce k)
  then show ?thesis using assms(2) by simp
next
  case (RLock u)
  show ?thesis by (rule once_invI(3)) (use once log pcs in \<open>simp_all add: RLock(1)\<close>)
next
  case (Run u k hs b)
  then show ?thesis using pcs[of u] by simp
next
  case (Return u)
  show ?thesis by (rule once_invI(3)) (use once log pcs in \<open>simp_all add: Return(1)\<close>)
next
  case (RUnlock u)
  then show ?thesis using pcs[of u] by simp
next
  case (Lock u)
  then show ?thesis using pcs[of u] by simp
next
  case (Delete u)
  then show ?thesis using pcs[of u] by simp
next
  case (Relock u)
  show ?thesis by (rule once_invI(3)) (use once log pcs in \<open>simp_all add: Relock(1)\<close>)
next
  case (Final u)
  show ?thesis by (rule once_invI(3)) (use once log pcs in \<open>simp_all add: Final(1)\<close>)
qed

lemma once_inv_step:
  assumes "once_inv h s" and "seq_step s s'"
  shows "once_inv h s'"
proof -
  have step: "bus_step s s'" "length (bs_once s') \<le> length (bs_once s)"
    using assms(2) by (simp_all add: seq_step_def pub_step_def)
  obtain t where t: "\<And>u. u \<noteq> t \<Longrightarrow> at_rest s u" "\<And>u. u \<noteq> t \<Longrightarrow> at_rest s' u"
    using assms(2) unfolding seq_step_def by blast
  from assms(1) consider
    (before) "bs_once s = [h]" "bs_log s = []" "\<And>u. bs_pcs s u \<in> {PIdle, PDone, PRunning [h] True}" |
    (during) w where "bs_once s = [h]" "bs_log s = [h]" "bs_pcs s w \<in> {PRunning [] True, PReleased, PWriting}" |
    (behind) "bs_once s = []" "bs_log s = [h]" "\<And>u. bs_pcs s u \<in> {PIdle, PDone, PWritten, PFinal, PRunning [] False}"
    unfolding once_inv_def by blast
  then show ?thesis
  proof cases
    case before
    show ?thesis by (rule once_inv_before[OF step t(1) before])
  next
    case during
    have "\<not> at_rest s w" using during(3) by (auto simp: at_rest_def)
    then have "w = t" using t(1) by blast
    with during show ?thesis using once_inv_during[OF step t] by blast
  next
    case behind
    show ?thesis by (rule once_inv_behind[OF step behind])
  qed
qed

text \<open>
  C26 (\<open>once_handler_can_run_twice\<close>): one handler \<open>h\<close>, subscribed by a single \<open>SubscribeOnce\<close>.  From
  there two concurrent publishers, with nobody else at work, can both be about to run it, and end
  with it having run twice, both publications done, the lock free and no once-handler left.
  Publications that do not overlap run it once at most, however many they are.
\<close>

theorem once_handler_can_run_twice:
  "bus_step bus_start (bus_start\<lparr>bs_once := [h]\<rparr>) \<and>
   (\<exists>s1 s2. pub_step\<^sup>*\<^sup>* (bus_start\<lparr>bs_once := [h]\<rparr>) s1 \<and>
      bs_pcs s1 = (\<lambda>_. PIdle)(0 := PRunning [h] True, 1 := PRunning [h] True) \<and> bs_log s1 = [] \<and>
      pub_step\<^sup>*\<^sup>* s1 s2 \<and> bs_pcs s2 = (\<lambda>_. PIdle)(0 := PDone, 1 := PDone) \<and> bs_log s2 = [h, h] \<and>
      bs_once s2 = [] \<and> bs_readers s2 = 0 \<and> \<not> bs_writer s2) \<and>
   bs_log ` {s. seq_step\<^sup>*\<^sup>* (bus_start\<lparr>bs_once := [h]\<rparr>) s} \<subseteq> {[], [h]}"
proof (intro conjI)
  let ?s0 = "bus_start\<lparr>bs_once := [h]\<rparr>"
  show "bus_step bus_start ?s0" using SubOnce[of bus_start h] by (simp add: bus_start_def)
  define st where "st once rd wr p q log = \<lparr>bs_once = once, bs_readers = rd, bs_writer = wr,
    bs_pcs = (\<lambda>_. PIdle)(0 := p, 1 := q), bs_log = log\<rparr>" for once :: "nat list" and rd :: nat and wr p q log
  have upd: "((\<lambda>_. PIdle)(0 := p, Suc 0 := q))(0 := p') = (\<lambda>_. PIdle)(0 := p', Suc 0 := q)"
    "((\<lambda>_. PIdle)(0 := p, Suc 0 := q))(Suc 0 := q') = (\<lambda>_. PIdle)(0 := p, Suc 0 := q')" for p q p' q'
    by (auto simp: fun_eq_iff)
  have start: "?s0 = st [h] 0 False PIdle PIdle []" by (auto simp: bus_start_def st_def fun_eq_iff)
  have 0: "pub_step (st [h] 0 False PIdle PIdle []) (st [h] 1 False (PRunning [h] True) PIdle [])"
    using RLock[of "st [h] 0 False PIdle PIdle []" 0] by (simp add: pub_step_def st_def upd)
  have 1: "pub_step (st [h] 1 False (PRunning [h] True) PIdle []) (st [h] 2 False (PRunning [h] True) (PRunning [h] True) [])"
    using RLock[of "st [h] 1 False (PRunning [h] True) PIdle []" 1] by (simp add: pub_step_def st_def upd numeral_2_eq_2)
  have 2: "pub_step (st [h] 2 False (PRunning [h] True) (PRunning [h] True) []) (st [h] 2 False (PRunning [] True) (PRunning [h] True) [h])"
    using Run[of "st [h] 2 False (PRunning [h] True) (PRunning [h] True) []" 0 h "[]" True] by (simp add: pub_step_def st_def upd)
  have 3: "pub_step (st [h] 2 False (PRunning [] True) (PRunning [h] True) [h]) (st [h] 2 False (PRunning [] True) (PRunning [] True) [h, h])"
    using Run[of "st [h] 2 False (PRunning [] True) (PRunning [h] True) [h]" 1 h "[]" True] by (simp add: pub_step_def st_def upd)
  have 4: "pub_step (st [h] 2 False (PRunning [] True) (PRunning [] True) [h, h]) (st [h] 1 False PReleased (PRunning [] True) [h, h])"
    using RUnlock[of "st [h] 2 False (PRunning [] True) (PRunning [] True) [h, h]" 0] by (simp add: pub_step_def st_def upd)
  have 5: "pub_step (st [h] 1 False PReleased (PRunning [] True) [h, h]) (st [h] 0 False PReleased PReleased [h, h])"
    using RUnlock[of "st [h] 1 False PReleased (PRunning [] True) [h, h]" 1] by (simp add: pub_step_def st_def upd)
  have 6: "pub_step (st [h] 0 False PReleased PReleased [h, h]) (st [h] 0 True PWriting PReleased [h, h])"
    using Lock[of "st [h] 0 False PReleased PReleased [h, h]" 0] by (simp add: pub_step_def st_def upd)
  have 7: "pub_step (st [h] 0 True PWriting PReleased [h, h]) (st [] 0 False PWritten PReleased [h, h])"
    using Delete[of "st [h] 0 True PWriting PReleased [h, h]" 0] by (simp add: pub_step_def st_def upd)
  have 8: "pub_step (st [] 0 False PWritten PReleased [h, h]) (st [] 0 True PWritten PWriting [h, h])"
    using Lock[of "st [] 0 False PWritten PReleased [h, h]" 1] by (simp add: pub_step_def st_def upd)
  have 9: "pub_step (st [] 0 True PWritten PWriting [h, h]) (st [] 0 False PWritten PWritten [h, h])"
    using Delete[of "st [] 0 True PWritten PWriting [h, h]" 1] by (simp add: pub_step_def st_def upd)
  have 10: "pub_step (st [] 0 False PWritten PWritten [h, h]) (st [] 1 False PFinal PWritten [h, h])"
    using Relock[of "st [] 0 False PWritten PWritten [h, h]" 0] by (simp add: pub_step_def st_def upd)
  have 11: "pub_step (st [] 1 False PFinal PWritten [h, h]) (st [] 0 False PDone PWritten [h, h])"
    using Final[of "st [] 1 False PFinal PWritten [h, h]" 0] by (simp add: pub_step_def st_def upd)
  have 12: "pub_step (st [] 0 False PDone PWritten [h, h]) (st [] 1 False PDone PFinal [h, h])"
    using Relock[of "st [] 0 False PDone PWritten [h, h]" 1] by (simp add: pub_step_def st_def upd)
  have 13: "pub_step (st [] 1 False PDone PFinal [h, h]) (st [] 0 False PDone PDone [h, h])"
    using Final[of "st [] 1 False PDone PFinal [h, h]" 1] by (simp add: pub_step_def st_def upd)
  note into = converse_rtranclp_into_rtranclp[of pub_step]
  have a: "pub_step\<^sup>*\<^sup>* ?s0 (st [h] 2 False (PRunning [h] True) (PRunning [h] True) [])"
    unfolding start by (rule into[OF 0 into[OF 1 rtranclp.rtrancl_refl]])
  have b: "pub_step\<^sup>*\<^sup>* (st [h] 2 False (PRunning [h] True) (PRunning [h] True) []) (st [] 0 False PDone PDone [h, h])"
    by (rule into[OF 2 into[OF 3 into[OF 4 into[OF 5 into[OF 6 into[OF 7 into[OF 8 into[OF 9 into[OF 10 into[OF 11
      into[OF 12 into[OF 13 rtranclp.rtrancl_refl]]]]]]]]]]]])
  show "\<exists>s1 s2. pub_step\<^sup>*\<^sup>* ?s0 s1 \<and>
      bs_pcs s1 = (\<lambda>_. PIdle)(0 := PRunning [h] True, 1 := PRunning [h] True) \<and> bs_log s1 = [] \<and>
      pub_step\<^sup>*\<^sup>* s1 s2 \<and> bs_pcs s2 = (\<lambda>_. PIdle)(0 := PDone, 1 := PDone) \<and> bs_log s2 = [h, h] \<and>
      bs_once s2 = [] \<and> bs_readers s2 = 0 \<and> \<not> bs_writer s2"
    by (rule exI, rule exI, intro conjI, rule a, simp add: st_def, simp add: st_def, rule b) (simp_all add: st_def)
  have "once_inv h s" if "seq_step\<^sup>*\<^sup>* ?s0 s" for s
    using that
  proof (induction rule: rtranclp_induct)
    case base
    show ?case by (rule once_invI(1)) (simp_all add: bus_start_def)
  next
    case (step s s')
    show ?case by (rule once_inv_step[OF step.IH step.hyps(2)])
  qed
  then show "bs_log ` {s. seq_step\<^sup>*\<^sup>* ?s0 s} \<subseteq> {[], [h]}" using once_inv_log by blast
qed

text \<open>
  \<open>once_handler_can_be_lost\<close>: a once-handler subscribed while a publication has given up its
  read lock to delete its own once-handlers is deleted with them and never runs.
\<close>

theorem once_handler_can_be_lost:
  "\<exists>s1 s2 s3. bus_step\<^sup>*\<^sup>* bus_start s1 \<and> bus_step s1 s2 \<and> bs_once s2 = bs_once s1 @ [2] \<and>
     bus_step\<^sup>*\<^sup>* s2 s3 \<and> bs_once s3 = [] \<and> 2 \<notin> set (bs_log s3) \<and> bs_pcs s3 = (\<lambda>_. PIdle)(0 := PWritten)"
proof -
  note step = rtranclp.rtrancl_into_rtrancl[of bus_step bus_start]
  let ?s1 = "bus_start\<lparr>bs_once := [1]\<rparr>"
  let ?s2 = "?s1\<lparr>bs_readers := 1, bs_pcs := (\<lambda>_. PIdle)(0 := PRunning [1] True)\<rparr>"
  let ?s3 = "?s2\<lparr>bs_log := [1], bs_pcs := (\<lambda>_. PIdle)(0 := PRunning [] True)\<rparr>"
  let ?s4 = "?s3\<lparr>bs_readers := 0, bs_pcs := (\<lambda>_. PIdle)(0 := PReleased)\<rparr>"
  let ?s5 = "?s4\<lparr>bs_once := [1, 2]\<rparr>"
  let ?s6 = "?s5\<lparr>bs_writer := True, bs_pcs := (\<lambda>_. PIdle)(0 := PWriting)\<rparr>"
  let ?s7 = "?s6\<lparr>bs_once := [], bs_writer := False, bs_pcs := (\<lambda>_. PIdle)(0 := PWritten)\<rparr>"
  have "bus_step\<^sup>*\<^sup>* bus_start ?s1" using SubOnce[of bus_start 1] by (simp add: bus_start_def r_into_rtranclp)
  then have "bus_step\<^sup>*\<^sup>* bus_start ?s2" by (rule step) (use RLock[of ?s1 0] in \<open>simp add: bus_start_def\<close>)
  then have "bus_step\<^sup>*\<^sup>* bus_start ?s3" by (rule step) (use Run[of ?s2 0 1 "[]" True] in \<open>simp add: bus_start_def\<close>)
  then have a: "bus_step\<^sup>*\<^sup>* bus_start ?s4" by (rule step) (use RUnlock[of ?s3 0] in \<open>simp add: bus_start_def\<close>)
  have b: "bus_step ?s4 ?s5" using SubOnce[of ?s4 2] by (simp add: bus_start_def)
  have l: "bus_step ?s5 ?s6" using Lock[of ?s5 0] by (simp add: bus_start_def)
  have d: "bus_step ?s6 ?s7" using Delete[of ?s6 0] by (simp add: bus_start_def)
  have "bus_step\<^sup>*\<^sup>* ?s5 ?s7" by (rule converse_rtranclp_into_rtranclp[of bus_step, OF l r_into_rtranclp[of bus_step, OF d]])
  with a b show ?thesis by (intro exI[of _ ?s4] exI[of _ ?s5] exI[of _ ?s7]) (simp add: bus_start_def)
qed

text \<open>
  \<open>bus_lock_discipline\<close>: in every reachable state of any number of publishers and subscribers
  the lock is used properly: the writer excludes all readers and is unique.
\<close>

theorem bus_lock_discipline:
  assumes "bus_step\<^sup>*\<^sup>* bus_start s" and "bs_pcs s t = PWriting"
  shows "\<not> holds_read (bs_pcs s u) \<and> (bs_pcs s u = PWriting \<longrightarrow> u = t)"
proof -
  have l: "lock_ok (bs_readers s) (bs_writer s) (bs_pcs s)" by (rule lock_ok_reachable[OF assms(1)])
  then have "{t. holds_read (bs_pcs s t)} = {}" using assms(2) unfolding lock_ok_def by (metis card_0_eq)
  then show ?thesis using l assms(2) unfolding lock_ok_def by blast
qed

theorem bus_lock_discipline_witness:
  "\<exists>s. bus_step\<^sup>*\<^sup>* bus_start s \<and> bs_pcs s 0 = PWriting \<and>
     (\<forall>u. \<not> holds_read (bs_pcs s u) \<and> (bs_pcs s u = PWriting \<longrightarrow> u = 0))"
proof -
  note step = rtranclp.rtrancl_into_rtrancl[of bus_step bus_start]
  let ?s1 = "bus_start\<lparr>bs_once := [1]\<rparr>"
  let ?s2 = "?s1\<lparr>bs_readers := 1, bs_pcs := (\<lambda>_. PIdle)(0 := PRunning [1] True)\<rparr>"
  let ?s3 = "?s2\<lparr>bs_log := [1], bs_pcs := (\<lambda>_. PIdle)(0 := PRunning [] True)\<rparr>"
  let ?s4 = "?s3\<lparr>bs_readers := 0, bs_pcs := (\<lambda>_. PIdle)(0 := PReleased)\<rparr>"
  let ?s5 = "?s4\<lparr>bs_writer := True, bs_pcs := (\<lambda>_. PIdle)(0 := PWriting)\<rparr>"
  have "bus_step\<^sup>*\<^sup>* bus_start ?s1" using SubOnce[of bus_start 1] by (simp add: bus_start_def r_into_rtranclp)
  then have "bus_step\<^sup>*\<^sup>* bus_start ?s2" by (rule step) (use RLock[of ?s1 0] in \<open>simp add: bus_start_def\<close>)
  then have "bus_step\<^sup>*\<^sup>* bus_start ?s3" by (rule step) (use Run[of ?s2 0 1 "[]" True] in \<open>simp add: bus_start_def\<close>)
  then have "bus_step\<^sup>*\<^sup>* bus_start ?s4" by (rule step) (use RUnlock[of ?s3 0] in \<open>simp add: bus_start_def\<close>)
  then have r: "bus_step\<^sup>*\<^sup>* bus_start ?s5" by (rule step) (use Lock[of ?s4 0] in \<open>simp add: bus_start_def\<close>)
  have w: "bs_pcs ?s5 0 = PWriting" by simp
  show ?thesis using r w bus_lock_discipline[OF r w] by (intro exI[of _ ?s5] conjI allI) blast+
qed

text \<open>
  \<open>retry_attempts\<close>: the retry middleware with a non-negative bound.  If the handler fails on
  the first \<open>k\<close> worlds, each the previous one after the failed attempt and a pause, then on success
  at attempt \<open>k\<close> within the bound the event counts as handled with exactly \<open>k\<close> pauses, and when all
  attempts fail the last error is returned with no pause behind it.
\<close>

theorem retry_attempts:
  assumes "0 \<le> maxRetries" and "k \<le> nat maxRetries"
    and "\<forall>i < k. \<exists>e. nxt ev (W i) = (Returned (Some e), V i) \<and> W (Suc i) = sleep (V i)"
  shows "(nxt ev (W k) = (Returned None, w') \<longrightarrow> RetryMiddleware sleep maxRetries nxt ev (W 0) = (Returned None, w')) \<and>
    (k = nat maxRetries \<longrightarrow> nxt ev (W k) = (Returned (Some e), w') \<longrightarrow>
       RetryMiddleware sleep maxRetries nxt ev (W 0) = (Returned (Some e), w'))"
proof -
  have L: "retry_loop sleep nxt ev (j + Suc n) err (W (k - j)) =
      (if j = 0 then retry_loop sleep nxt ev (Suc n) err (W k) else retry_loop sleep nxt ev (Suc n) (fst' (k - 1)) (W k))"
    if "j \<le> k" "\<forall>i < k. nxt ev (W i) = (Returned (fst' i), V i) \<and> fst' i \<noteq> None" for j n err fst'
    using that
  proof (induction j arbitrary: err)
    case 0
    then show ?case by simp
  next
    case (Suc j)
    have i: "k - Suc j < k" "Suc (k - Suc j) = k - j" using Suc.prems(1) by auto
    obtain e where e: "fst' (k - Suc j) = Some e" "nxt ev (W (k - Suc j)) = (Returned (Some e), V (k - Suc j))"
      using Suc.prems(2) i(1) by fastforce
    have s: "W (k - j) = sleep (V (k - Suc j))" using assms(3) i by metis
    have "retry_loop sleep nxt ev (Suc j + Suc n) err (W (k - Suc j)) = retry_loop sleep nxt ev (j + Suc n) (Some e) (W (k - j))"
      by (simp add: e(2) s)
    also have "\<dots> = retry_loop sleep nxt ev (Suc n) (fst' (k - 1)) (W k)"
      using Suc.IH[of "Some e"] Suc.prems e(1) by (cases "j = 0") simp_all
    finally show ?case by simp
  qed
  define f where "f i = (case fst (nxt ev (W i)) of Returned x \<Rightarrow> x | _ \<Rightarrow> None)" for i
  have "\<forall>i < k. nxt ev (W i) = (Returned (f i), V i) \<and> f i \<noteq> None" using assms(3) by (force simp: f_def)
  from L[OF _ this, of k "nat maxRetries - k" None]
  have "RetryMiddleware sleep maxRetries nxt ev (W 0) =
      (if k = 0 then retry_loop sleep nxt ev (Suc (nat maxRetries - k)) None (W k)
       else retry_loop sleep nxt ev (Suc (nat maxRetries - k)) (f (k - 1)) (W k))"
    using assms(1,2) by (simp add: RetryMiddleware_def nat_add_distrib)
  then show ?thesis by simp
qed

text \<open>A handler that fails until the world, a counter of attempts, has reached 2.\<close>

definition flaky :: "(unit, nat, unit) handle" where
  "flaky ev w = (if w < 2 then (Returned (Some (UserError ())), w + 1) else (Returned None, w + 1))"

theorem retry_attempts_witness: "RetryMiddleware (\<lambda>w. w) 3 flaky demo_event 0 = (Returned None, 3)"
  using retry_attempts[of 3 2 flaky demo_event "\<lambda>i. i" "\<lambda>i. i + 1" "\<lambda>w. w" 3] by (simp add: flaky_def)

text \<open>
  \<open>timeout_defeats_recovery\<close>: the order of two middlewares decides whether a panic is survived.
  With recovery inside the timeout a panicking handler yields a panic error (or the timeout error);
  with recovery outside, the panic happens in the timeout's goroutine and takes the program down.
\<close>

theorem timeout_defeats_recovery:
  assumes "nxt ev w = (Panicked v, w')"
  shows "Chain [RecoveryMiddleware, TimeoutMiddleware late t] nxt ev w = (Crashed v, w') \<and>
    Chain [TimeoutMiddleware late t, RecoveryMiddleware] nxt ev w =
      (Returned (Some (if late then TimeoutError (ev_ID ev) (ev_Type ev) t else PanicError v)), w')"
  using assms by (simp add: Chain_foldr RecoveryMiddleware_def TimeoutMiddleware_def)

theorem timeout_defeats_recovery_witness:
  "Chain [RecoveryMiddleware, TimeoutMiddleware False 5] (\<lambda>_ w. (Panicked ''boom'', w)) demo_event () =
     (Crashed ''boom'' :: unit outcome, ())"
  by (rule timeout_defeats_recovery[THEN conjunct1]) simp

text \<open>
  \<open>unsubscribe_subscribe\<close>: a handler whose address no other handler of the type prints can be
  unsubscribed again, which restores the handlers of every type; one subscribed asynchronously
  cannot: the bus holds a wrapper with an address of its own.
\<close>

theorem unsubscribe_subscribe:
  assumes "\<not> eb_closed eb" and "\<forall>h' \<in> set (entries (eb_handlers eb) ty). h_ptr h' \<noteq> h_ptr h"
    and "addr \<noteq> h_ptr h"
  shows "fst (Unsubscribe ty h (snd (Subscribe ty h eb))) = None \<and>
    entries (eb_handlers (snd (Unsubscribe ty h (snd (Subscribe ty h eb))))) = entries (eb_handlers eb) \<and>
    fst (Unsubscribe ty h (snd (SubscribeAsync addr spawn ty h eb))) = Some (HandlerNotFound ty)"
proof -
  have "find_ptr (h_ptr h) (entries (eb_handlers eb) ty @ [h]) = Some (length (entries (eb_handlers eb) ty))"
    using find_ptr_append[OF assms(2), of h] by simp
  moreover have "find_ptr (h_ptr h) (entries (eb_handlers eb) ty @ [NewAsyncHandler addr spawn h]) = None"
    using find_ptr_append[OF assms(2), of "NewAsyncHandler addr spawn h"] assms(3) by (simp add: NewAsyncHandler_def)
  ultimately show ?thesis using assms(1)
    by (auto simp: Subscribe_def SubscribeAsync_def Unsubscribe_def entries_def fun_eq_iff split: option.split)
qed

theorem unsubscribe_subscribe_witness:
  "fst (Unsubscribe ''t'' (count_handler ''1'' ''a'') (snd (Subscribe ''t'' (count_handler ''1'' ''a'') NewEventBus))) = None \<and>
   fst (Unsubscribe ''t'' (count_handler ''1'' ''a'') (snd (SubscribeAsync ''2'' (\<lambda>f w. snd (f w)) ''t'' (count_handler ''1'' ''a'') NewEventBus)))
     = Some (HandlerNotFound ''t'')"
  using unsubscribe_subscribe[of NewEventBus "''t''" "count_handler ''1'' ''a''" "''2''" "\<lambda>f w. snd (f w)"]
  by (simp add: NewEventBus_def entries_def count_handler_def)

end
