(* ===== verification/BusLock.thy ===== *)
theory BusLock
  imports Prelude
begin

text \<open>
  The lock of the event bus (\<^verbatim>\<open>eventbus/eventbus.go\<close>).  \<open>Publish\<close> runs the handlers while it holds the read
  lock, so a handler that calls the bus again asks for the lock a second time.  Go's \<open>sync.RWMutex\<close>
  prefers writers: once a goroutine has asked for the write lock no further read lock is given, and it
  waits until the readers are gone.

  A goroutine is the list of lock operations it has still to do, a handler is a number with the list of
  bus calls it makes, \<open>code\<close>.  Handlers that are run in goroutines of their own are goroutines here.
  The main results: with handlers that leave the bus alone every run ends with the lock free, and
  any handler that calls back can bring the bus to a deadlock.
\<close>

section \<open>Calls and goroutines\<close>

datatype bus_write = WSubscribe string nat | WSubscribeOnce string nat | WUnsubscribe string nat | WClose | WDelete string
datatype bus_call = CPublish string | CSubscribe string nat | CSubscribeOnce string nat | CUnsubscribe string nat | CClose | CCount string

text \<open>\<open>IWrite\<close> asks for the write lock, waits for the readers, changes the tables and unlocks.\<close>

datatype instr = IRLock | IBody string | IRun nat | IRUnlock | IWrite bus_write

fun call_code :: "bus_call \<Rightarrow> instr list" where
  "call_code (CPublish ty) = [IRLock, IBody ty, IRUnlock]"
| "call_code (CSubscribe ty h) = [IWrite (WSubscribe ty h)]"
| "call_code (CSubscribeOnce ty h) = [IWrite (WSubscribeOnce ty h)]"
| "call_code (CUnsubscribe ty h) = [IWrite (WUnsubscribe ty h)]"
| "call_code CClose = [IWrite WClose]"
| "call_code (CCount ty) = [IRLock, IRUnlock]"

definition calls_code :: "bus_call list \<Rightarrow> instr list" where
  "calls_code cs = concat (map call_code cs)"

lemma calls_code_simps [simp]: "calls_code [] = []" "calls_code (c # cs) = call_code c @ calls_code cs"
  by (simp_all add: calls_code_def)

record lk_state =
  lk_readers :: nat
  lk_writer :: "nat option"
  lk_perm :: "string \<Rightarrow> nat list"
  lk_once :: "string \<Rightarrow> nat list"
  lk_closed :: bool
  lk_log :: "nat list"
  lk_threads :: "instr list list"

definition lk_start :: "(string \<Rightarrow> nat list) \<Rightarrow> (string \<Rightarrow> nat list) \<Rightarrow> bus_call list list \<Rightarrow> lk_state" where
  "lk_start perm once progs = \<lparr>lk_readers = 0, lk_writer = None, lk_perm = perm, lk_once = once, lk_closed = False,
     lk_log = [], lk_threads = map calls_code progs\<rparr>"

text \<open>What \<open>Publish\<close> does between taking the read lock and the deferred unlock.\<close>

definition publish_body :: "lk_state \<Rightarrow> string \<Rightarrow> instr list" where
  "publish_body s ty =
     (if lk_closed s then []
      else map IRun (lk_perm s ty) @ map IRun (lk_once s ty) @
        (if lk_once s ty \<noteq> [] then [IRUnlock, IWrite (WDelete ty), IRLock] else []))"

fun apply_write :: "bus_write \<Rightarrow> lk_state \<Rightarrow> lk_state" where
  "apply_write (WSubscribe ty h) s = (if lk_closed s then s else s\<lparr>lk_perm := (lk_perm s)(ty := lk_perm s ty @ [h])\<rparr>)"
| "apply_write (WSubscribeOnce ty h) s = (if lk_closed s then s else s\<lparr>lk_once := (lk_once s)(ty := lk_once s ty @ [h])\<rparr>)"
| "apply_write (WUnsubscribe ty h) s = s\<lparr>lk_perm := (lk_perm s)(ty := remove1 h (lk_perm s ty))\<rparr>"
| "apply_write WClose s = (if lk_closed s then s else s\<lparr>lk_closed := True, lk_perm := (\<lambda>_. []), lk_once := (\<lambda>_. [])\<rparr>)"
| "apply_write (WDelete ty) s = s\<lparr>lk_once := (lk_once s)(ty := [])\<rparr>"

section \<open>Steps\<close>

text \<open>
  The next step of goroutine \<open>t\<close>, whose remaining operations are \<open>i # k\<close>; \<open>None\<close> if it has to wait.  Giving
  back a read lock that nobody holds ends a Go program; here the goroutine does not go on.
\<close>

definition resume :: "nat \<Rightarrow> instr list \<Rightarrow> lk_state \<Rightarrow> lk_state" where
  "resume t k s = s\<lparr>lk_threads := (lk_threads s)[t := k]\<rparr>"

fun lk_exec :: "(nat \<Rightarrow> bus_call list) \<Rightarrow> nat \<Rightarrow> instr \<Rightarrow> instr list \<Rightarrow> lk_state \<Rightarrow> lk_state option" where
  "lk_exec code t IRLock k s =
     (if lk_writer s = None then Some (resume t k (s\<lparr>lk_readers := lk_readers s + 1\<rparr>)) else None)"
| "lk_exec code t (IBody ty) k s = Some (resume t (publish_body s ty @ k) s)"
| "lk_exec code t (IRun h) k s = Some (resume t (calls_code (code h) @ k) (s\<lparr>lk_log := lk_log s @ [h]\<rparr>))"
| "lk_exec code t IRUnlock k s =
     (if lk_readers s = 0 then None else Some (resume t k (s\<lparr>lk_readers := lk_readers s - 1\<rparr>)))"
| "lk_exec code t (IWrite w) k s =
     (if lk_writer s = None then Some (s\<lparr>lk_writer := Some t\<rparr>)
      else if lk_writer s = Some t \<and> lk_readers s = 0 then Some (resume t k ((apply_write w s)\<lparr>lk_writer := None\<rparr>))
      else None)"

definition lk_step :: "(nat \<Rightarrow> bus_call list) \<Rightarrow> nat \<Rightarrow> lk_state \<Rightarrow> lk_state option" where
  "lk_step code t s =
     (if t < length (lk_threads s) then (case lk_threads s ! t of [] \<Rightarrow> None | i # k \<Rightarrow> lk_exec code t i k s) else None)"

inductive lk_next :: "(nat \<Rightarrow> bus_call list) \<Rightarrow> lk_state \<Rightarrow> lk_state \<Rightarrow> bool" for code where
  step: "lk_step code t s = Some s' \<Longrightarrow> lk_next code s s'"

inductive_cases lk_nextE: "lk_next code s s'"

abbreviation lk_runs :: "(nat \<Rightarrow> bus_call list) \<Rightarrow> lk_state \<Rightarrow> lk_state \<Rightarrow> bool" where
  "lk_runs code \<equiv> (lk_next code)\<^sup>*\<^sup>*"

text \<open>Nobody can go on; everybody is done and the lock is free.\<close>

definition stuck :: "(nat \<Rightarrow> bus_call list) \<Rightarrow> lk_state \<Rightarrow> bool" where
  "stuck code s \<longleftrightarrow> (\<forall>t < length (lk_threads s). lk_step code t s = None)"

definition finished :: "lk_state \<Rightarrow> bool" where
  "finished s \<longleftrightarrow> (\<forall>k \<in> set (lk_threads s). k = []) \<and> lk_readers s = 0 \<and> lk_writer s = None"

lemma stuck_no_step: "stuck code s \<Longrightarrow> \<not> lk_next code s s'"
  by (auto simp: stuck_def lk_step_def elim!: lk_nextE split: if_splits)

lemma lk_step_cases:
  assumes "lk_step code t s = Some s'"
  obtains i k where "t < length (lk_threads s)" "lk_threads s ! t = i # k" "lk_exec code t i k s = Some s'"
  using assms by (auto simp: lk_step_def split: if_splits list.splits)

lemma resume_sel [simp]: "lk_readers (resume t k s) = lk_readers s" "lk_writer (resume t k s) = lk_writer s"
  "lk_threads (resume t k s) = (lk_threads s)[t := k]" "lk_log (resume t k s) = lk_log s"
  "lk_perm (resume t k s) = lk_perm s" "lk_once (resume t k s) = lk_once s" "lk_closed (resume t k s) = lk_closed s"
  by (simp_all add: resume_def)

lemma apply_write_sel [simp]: "lk_readers (apply_write w s) = lk_readers s" "lk_writer (apply_write w s) = lk_writer s"
  "lk_threads (apply_write w s) = lk_threads s" "lk_log (apply_write w s) = lk_log s"
  by (cases w; simp)+

section \<open>Read locks a goroutine holds\<close>

fun share :: "instr \<Rightarrow> int" where
  "share IRLock = - 1"
| "share IRUnlock = 1"
| "share _ = 0"

definition shares :: "instr list \<Rightarrow> int" where
  "shares k = (\<Sum>i \<leftarrow> k. share i)"

lemma shares_simps [simp]: "shares [] = 0" "shares (i # k) = share i + shares k" "shares (k @ l) = shares k + shares l"
  by (simp_all add: shares_def)

lemma shares_code [simp]: "shares (call_code c) = 0" "shares (calls_code cs) = 0" "shares (map IRun hs) = 0"
proof -
  show c: "shares (call_code c) = 0" for c by (cases c) simp_all
  show "shares (calls_code cs) = 0" by (induction cs) (simp_all add: c)
  show "shares (map IRun hs) = 0" by (induction hs) simp_all
qed

lemma shares_body [simp]: "shares (publish_body s ty) = 0"
  by (simp add: publish_body_def)

text \<open>At no point of its remaining work a goroutine gives back more than it holds.\<close>

fun balanced :: "instr list \<Rightarrow> bool" where
  "balanced [] \<longleftrightarrow> True"
| "balanced (i # k) \<longleftrightarrow> shares (i # k) \<ge> 0 \<and> (case i of IBody _ \<Rightarrow> shares k \<ge> 1 | _ \<Rightarrow> True) \<and> balanced k"

lemma balanced_shares: "balanced k \<Longrightarrow> shares k \<ge> 0"
  by (cases k) simp_all

lemma balanced_append: "balanced xs \<Longrightarrow> balanced k \<Longrightarrow> balanced (xs @ k)"
  by (induction xs) (auto dest: balanced_shares split: instr.splits)

lemma balanced_code [intro]: "balanced (calls_code cs)"
proof (induction cs)
  case (Cons c cs)
  have "balanced (call_code c)" by (cases c) simp_all
  then show ?case using balanced_append[OF _ Cons.IH] by simp
qed simp

lemma balanced_runs: "balanced k \<Longrightarrow> balanced (map IRun hs @ k)"
  by (induction hs) (auto dest: balanced_shares)

lemma balanced_body: "balanced k \<Longrightarrow> shares k \<ge> 1 \<Longrightarrow> balanced (publish_body s ty @ k)"
  using balanced_runs by (simp add: publish_body_def)

section \<open>The lock's account\<close>

lemma sum_list_upd:
  fixes f :: "'a \<Rightarrow> 'b :: comm_monoid_add"
  assumes "t < length xs"
  shows "sum_list (map f (xs[t := k])) + f (xs ! t) = sum_list (map f xs) + f k"
  using assms by (induction xs arbitrary: t) (auto simp: ac_simps split: nat.split)

definition lk_inv :: "lk_state \<Rightarrow> bool" where
  "lk_inv s \<longleftrightarrow> int (lk_readers s) = (\<Sum>k \<leftarrow> lk_threads s. shares k) \<and> list_all balanced (lk_threads s) \<and>
     (\<forall>t. lk_writer s = Some t \<longrightarrow> t < length (lk_threads s) \<and> (\<exists>w k. lk_threads s ! t = IWrite w # k))"

lemma sum_list_zero: "\<forall>x \<in> set xs. f x = (0 :: int) \<Longrightarrow> (\<Sum>x \<leftarrow> xs. f x) = 0"
  by (induction xs) simp_all

lemma sum_list_ge:
  fixes f :: "'a \<Rightarrow> int"
  assumes "\<forall>x \<in> set xs. f x \<ge> 0" and "x \<in> set xs"
  shows "f x \<le> sum_list (map f xs)"
  using assms
proof (induction xs)
  case (Cons y xs)
  have "0 \<le> sum_list (map f xs)" using Cons.prems(1) by (intro sum_list_nonneg) auto
  then show ?case using Cons by auto
qed simp

lemma lk_inv_resume:
  assumes "int (lk_readers s) + shares k - shares (lk_threads s ! t) = int (lk_readers s')" and "lk_inv s" and "t < length (lk_threads s)"
    and "balanced k" and "lk_threads s' = (lk_threads s)[t := k]" and "lk_writer s' = lk_writer s" and "lk_writer s \<noteq> Some t"
  shows "lk_inv s'"
proof -
  have "(\<Sum>k \<leftarrow> lk_threads s'. shares k) = int (lk_readers s')"
    using sum_list_upd[OF assms(3), of shares k] assms(1,2,5) by (simp add: lk_inv_def)
  moreover have "list_all balanced (lk_threads s')"
    using assms(2,4,5) set_update_subset_insert[of "lk_threads s" t k] by (auto simp: lk_inv_def list_all_iff)
  ultimately show ?thesis using assms(2,5-7) by (auto simp: lk_inv_def nth_list_update)
qed

lemma lk_inv_step:
  assumes inv: "lk_inv s" and "lk_step code t s = Some s'"
  shows "lk_inv s'"
  using assms(2)
proof (cases rule: lk_step_cases)
  case (1 i k)
  note t = 1(1) and ik = 1(2) and ex = 1(3)
  have bal: "balanced (i # k)" using inv t ik by (metis lk_inv_def list_all_length)
  have upd: "lk_inv s'" if "lk_threads s' = (lk_threads s)[t := k']" "lk_writer s' = lk_writer s" "balanced k'"
    "int (lk_readers s) + shares k' - shares (i # k) = int (lk_readers s')" "\<And>w. i \<noteq> IWrite w" for k'
    using that inv t ik by (intro lk_inv_resume[of s k' t s']) (auto simp: lk_inv_def)
  show ?thesis
  proof (cases i)
    case IRLock
    then show ?thesis using ex bal by (intro upd[of k]) (auto split: if_splits)
  next
    case (IBody ty)
    then show ?thesis using ex bal by (intro upd[of "publish_body s ty @ k"]) (auto intro: balanced_body)
  next
    case (IRun h)
    then show ?thesis using ex bal by (intro upd[of "calls_code (code h) @ k"]) (auto intro: balanced_append)
  next
    case IRUnlock
    then show ?thesis using ex bal by (intro upd[of k]) (auto simp: of_nat_diff split: if_splits)
  next
    case (IWrite w)
    show ?thesis
    proof (cases "lk_writer s")
      case None
      then show ?thesis using IWrite ex inv t ik by (auto simp: lk_inv_def)
    next
      case (Some u)
      then have s': "u = t" "s' = resume t k ((apply_write w s)\<lparr>lk_writer := None\<rparr>)" using IWrite ex by (auto split: if_splits)
      let ?s = "(apply_write w s)\<lparr>lk_writer := None\<rparr>"
      have "lk_inv ?s" using inv by (simp add: lk_inv_def)
      moreover have "balanced k" using bal by simp
      ultimately show ?thesis using t ik IWrite unfolding s'(2)
        by (intro lk_inv_resume[of ?s k t "resume t k ?s"]) simp_all
    qed
  qed
qed

lemma lk_inv_start: "lk_inv (lk_start perm once progs)"
proof -
  have "sum_list (map (shares \<circ> calls_code) progs) = 0" by (induction progs) simp_all
  then show ?thesis by (auto simp: lk_inv_def lk_start_def list_all_iff comp_def)
qed

lemma lk_inv_runs: "lk_runs code s s' \<Longrightarrow> lk_inv s \<Longrightarrow> lk_inv s'"
  by (induction rule: rtranclp_induct) (auto elim!: lk_nextE intro: lk_inv_step)

section \<open>Handlers that leave the bus alone\<close>

text \<open>A goroutine asks for the lock only when it holds nothing, and runs handlers under one read lock.\<close>

fun calm :: "instr list \<Rightarrow> bool" where
  "calm [] \<longleftrightarrow> True"
| "calm (i # k) \<longleftrightarrow> (case i of IRLock \<Rightarrow> shares (i # k) = 0 | IWrite _ \<Rightarrow> shares k = 0 | IBody _ \<Rightarrow> shares k = 1 | _ \<Rightarrow> True) \<and> calm k"

lemma calm_runs [simp]: "calm (map IRun hs @ k) = calm k"
  by (induction hs) simp_all

lemma calm_body: "calm k \<Longrightarrow> shares k = 1 \<Longrightarrow> calm (publish_body s ty @ k)"
  by (simp add: publish_body_def)

lemma calm_code: "calm (calls_code cs)"
proof (induction cs)
  case (Cons c cs)
  then show ?case by (cases c) simp_all
qed simp

definition quiet :: "nat \<Rightarrow> bus_call list" where
  "quiet h = []"

lemma calm_step:
  assumes "list_all calm (lk_threads s)" and "lk_step quiet t s = Some s'"
  shows "list_all calm (lk_threads s')"
  using assms(2)
proof (cases rule: lk_step_cases)
  case (1 i k)
  have c: "calm (i # k)" using assms(1) 1(1,2) by (metis list_all_length)
  have "\<exists>k'. lk_threads s' = (lk_threads s)[t := k'] \<and> calm k'"
  proof (cases i)
    case (IBody ty)
    then show ?thesis using 1(3) c by (intro exI[of _ "publish_body s ty @ k"]) (auto intro: calm_body)
  next
    case (IWrite w)
    have "(lk_threads s)[t := i # k] = lk_threads s" using 1(2) by (metis list_update_id)
    then show ?thesis using 1 c IWrite by (cases "lk_writer s") (auto split: if_splits intro: exI[of _ k] exI[of _ "i # k"])
  qed (use 1(3) c in \<open>auto simp: quiet_def split: if_splits\<close>)
  then show ?thesis using assms(1) set_update_subset_insert by (fastforce simp: list_all_iff)
qed

lemma calm_runs_to: "lk_runs quiet s s' \<Longrightarrow> list_all calm (lk_threads s) \<Longrightarrow> list_all calm (lk_threads s')"
  by (induction rule: rtranclp_induct) (auto elim!: lk_nextE dest: calm_step)

lemma calm_start: "list_all calm (lk_threads (lk_start perm once progs))"
  by (simp add: lk_start_def list_all_iff calm_code)

lemma unlock_enabled:
  assumes "lk_inv s" and "t < length (lk_threads s)" and "lk_threads s ! t = IRUnlock # k"
  shows "lk_readers s \<noteq> 0"
proof -
  have b: "\<forall>k \<in> set (lk_threads s). balanced k" using assms(1) by (simp add: lk_inv_def list_all_iff)
  have m: "IRUnlock # k \<in> set (lk_threads s)" using assms(2,3) by (metis nth_mem)
  have "shares (IRUnlock # k) \<le> int (lk_readers s)"
    using sum_list_ge[of "lk_threads s" shares, OF _ m] b assms(1) balanced_shares by (simp add: lk_inv_def)
  moreover have "shares k \<ge> 0" using b m balanced_shares by force
  ultimately show ?thesis by simp
qed

lemma stuck_finished:
  assumes inv: "lk_inv s" and c: "list_all calm (lk_threads s)" and st: "stuck code s"
  shows "finished s"
proof -
  have go: "lk_exec code t i k s = None" if "t < length (lk_threads s)" "lk_threads s ! t = i # k" for t i k
    using st[unfolded stuck_def lk_step_def, rule_format, OF that(1)] that by simp
  have w: "lk_writer s = None"
  proof (rule ccontr)
    assume "lk_writer s \<noteq> None"
    then obtain u where u: "lk_writer s = Some u" by blast
    then obtain wr k where k: "u < length (lk_threads s)" "lk_threads s ! u = IWrite wr # k" using inv by (auto simp: lk_inv_def)
    then have "lk_readers s \<noteq> 0" using go[OF k] u by (auto split: if_splits)
    then have "\<not> (\<Sum>k \<leftarrow> lk_threads s. shares k) \<le> 0" using inv by (simp add: lk_inv_def)
    then obtain k' where k': "k' \<in> set (lk_threads s)" "shares k' > 0"
      by (metis (no_types, lifting) sum_list_nonpos imageE list.set_map not_le)
    then obtain t i k'' where t: "t < length (lk_threads s)" "lk_threads s ! t = i # k''" "shares (i # k'') > 0"
      by (metis in_set_conv_nth list.exhaust less_irrefl shares_simps(1))
    have "calm (i # k'')" using c t(1,2) by (metis list_all_length)
    then show False using go[OF t(1,2)] t unlock_enabled[OF inv t(1)] by (cases i) auto
  qed
  have e: "k = []" if "k \<in> set (lk_threads s)" for k
  proof (rule ccontr)
    assume "k \<noteq> []"
    then obtain t i k' where t: "t < length (lk_threads s)" "lk_threads s ! t = i # k'"
      using \<open>k \<in> set (lk_threads s)\<close> by (metis in_set_conv_nth list.exhaust)
    show False using go[OF t] w t unlock_enabled[OF inv t(1)] by (cases i) auto
  qed
  then have "\<forall>k \<in> set (lk_threads s). shares k = 0" using shares_simps(1) by metis
  then have "(\<Sum>k \<leftarrow> lk_threads s. shares k) = 0" by (rule sum_list_zero)
  then show ?thesis using inv w e by (simp add: finished_def lk_inv_def)
qed

section \<open>Runs end\<close>

text \<open>
  Every step of a quiet bus takes away a publication still to be expanded, an operation, or the
  announcement of a writer.
\<close>

fun is_body :: "instr \<Rightarrow> bool" where
  "is_body (IBody _) \<longleftrightarrow> True"
| "is_body _ \<longleftrightarrow> False"

definition bodies :: "lk_state \<Rightarrow> nat" where
  "bodies s = (\<Sum>k \<leftarrow> lk_threads s. length (filter is_body k))"

definition pending :: "lk_state \<Rightarrow> nat" where
  "pending s = (\<Sum>k \<leftarrow> lk_threads s. length k)"

definition unannounced :: "lk_state \<Rightarrow> nat" where
  "unannounced s = (if lk_writer s = None then 1 else 0)"

abbreviation lk_measure :: "(lk_state \<times> lk_state) set" where
  "lk_measure \<equiv> measures [bodies, pending, unannounced]"

lemma body_no_bodies [simp]: "filter is_body (map IRun hs) = []" "filter is_body (publish_body s ty) = []"
proof -
  show r: "filter is_body (map IRun hs) = []" for hs by (induction hs) simp_all
  show "filter is_body (publish_body s ty) = []" by (simp add: publish_body_def r)
qed

lemma lk_step_decreases:
  assumes "lk_step quiet t s = Some s'"
  shows "(s', s) \<in> lk_measure"
  using assms
proof (cases rule: lk_step_cases)
  case (1 i k)
  have upd: "(s', s) \<in> lk_measure" if "lk_threads s' = (lk_threads s)[t := k']"
    "length (filter is_body k') < length (filter is_body (i # k)) \<or>
     length (filter is_body k') = length (filter is_body (i # k)) \<and> length k' < length (i # k)" for k'
    using that 1(1,2) sum_list_upd[OF 1(1), of "\<lambda>k. length (filter is_body k)" k'] sum_list_upd[OF 1(1), of length k']
    by (auto simp: bodies_def pending_def)
  show ?thesis
  proof (cases i)
    case (IBody ty)
    then show ?thesis using 1(3) by (intro upd[of "publish_body s ty @ k"]) auto
  next
    case IRLock
    then show ?thesis using 1(3) by (intro upd[of k]) (auto split: if_splits)
  next
    case (IRun h)
    then show ?thesis using 1(3) by (intro upd[of k]) (auto simp: quiet_def)
  next
    case IRUnlock
    then show ?thesis using 1(3) by (intro upd[of k]) (auto split: if_splits)
  next
    case (IWrite w)
    show ?thesis
    proof (cases "lk_writer s")
      case None
      then show ?thesis using 1(3) IWrite by (auto simp: bodies_def pending_def unannounced_def)
    next
      case (Some u)
      then show ?thesis using 1(3) IWrite by (intro upd[of k]) (auto split: if_splits)
    qed
  qed
qed

lemma no_infinite_run: "\<not> (\<forall>n. lk_next quiet (f n) (f (Suc n)))"
proof
  assume a: "\<forall>n. lk_next quiet (f n) (f (Suc n))"
  have "(f (Suc n), f n) \<in> lk_measure" for n
    using a[rule_format, of n] by (rule lk_nextE) (rule lk_step_decreases)
  moreover have "wf lk_measure" by simp
  ultimately show False by (meson wf_iff_no_infinite_down_chain)
qed

text \<open>So every run can be continued until nobody can go on.\<close>

lemma run_to_stuck: "\<exists>s'. lk_runs quiet s s' \<and> stuck quiet s'"
proof -
  have w: "wf lk_measure" by simp
  have "s \<in> {s'. lk_runs quiet s s'}" by simp
  from wfE_min[OF w this] obtain s' where "s' \<in> {s'. lk_runs quiet s s'}"
    "\<And>y. (y, s') \<in> lk_measure \<Longrightarrow> y \<notin> {s'. lk_runs quiet s s'}" by metis
  then have s': "lk_runs quiet s s'" "\<And>y. (y, s') \<in> lk_measure \<Longrightarrow> \<not> lk_runs quiet s y" by simp_all
  have "lk_step quiet t s' = None" for t
  proof (rule ccontr)
    assume "lk_step quiet t s' \<noteq> None"
    then obtain y where y: "lk_step quiet t s' = Some y" by blast
    show False using s'(2)[OF lk_step_decreases[OF y]] rtranclp.rtrancl_into_rtrancl[of "lk_next quiet", OF s'(1) lk_next.step[OF y]] by blast
  qed
  then show ?thesis using s'(1) by (auto simp: stuck_def)
qed

section \<open>A publication by itself\<close>

lemma run_handlers_alone:
  "lk_threads s = [map IRun hs @ k] \<Longrightarrow> lk_runs quiet s (s\<lparr>lk_log := lk_log s @ hs, lk_threads := [k]\<rparr>)"
proof (induction hs arbitrary: s)
  case Nil
  then have "s\<lparr>lk_log := lk_log s @ [], lk_threads := [k]\<rparr> = s" by simp
  then show ?case by simp
next
  case (Cons h hs)
  let ?s = "s\<lparr>lk_log := lk_log s @ [h], lk_threads := [map IRun hs @ k]\<rparr>"
  have "lk_next quiet s ?s" using Cons.prems by (intro lk_next.step[of _ 0]) (simp add: lk_step_def resume_def quiet_def)
  moreover have "lk_runs quiet ?s (?s\<lparr>lk_log := lk_log ?s @ hs, lk_threads := [k]\<rparr>)" by (rule Cons.IH) simp
  ultimately show ?case by (simp add: converse_rtranclp_into_rtranclp)
qed

text \<open>
  One publication on an open bus runs the handlers and the once-handlers in order, deletes the latter
  and leaves the lock free, as the sequential \<open>Publish\<close> of theory \<open>EventBus\<close> does.
\<close>

lemma publish_alone:
  "lk_runs quiet (lk_start perm once [[CPublish ty]])
     ((lk_start perm (once(ty := [])) [[]])\<lparr>lk_log := perm ty @ once ty\<rparr>)"
proof -
  let ?k = "if once ty \<noteq> [] then [IRUnlock, IWrite (WDelete ty), IRLock] else []"
  let ?s1 = "(lk_start perm once [[]])\<lparr>lk_readers := 1, lk_threads := [map IRun (perm ty @ once ty) @ ?k @ [IRUnlock]]\<rparr>"
  let ?s2 = "?s1\<lparr>lk_log := perm ty @ once ty, lk_threads := [?k @ [IRUnlock]]\<rparr>"
  let ?fin = "(lk_start perm (once(ty := [])) [[]])\<lparr>lk_log := perm ty @ once ty\<rparr>"
  note defs = lk_step_def lk_start_def resume_def publish_body_def
  have "lk_next quiet (lk_start perm once [[CPublish ty]]) (?s1\<lparr>lk_threads := [[IBody ty, IRUnlock]]\<rparr>)"
    by (rule lk_next.step[of _ 0]) (simp add: defs)
  moreover have "lk_next quiet (?s1\<lparr>lk_threads := [[IBody ty, IRUnlock]]\<rparr>) ?s1" by (rule lk_next.step[of _ 0]) (simp add: defs)
  moreover have "lk_runs quiet ?s1 ?s2" using run_handlers_alone[of ?s1 "perm ty @ once ty" "?k @ [IRUnlock]"] by (simp add: lk_start_def)
  moreover have "lk_runs quiet ?s2 ?fin"
  proof (cases "once ty = []")
    case True
    then have "once(ty := []) = once" by auto
    then have "lk_next quiet ?s2 ?fin" using True by (intro lk_next.step[of _ 0]) (simp add: defs)
    then show ?thesis by blast
  next
    case False
    let ?a = "?s2\<lparr>lk_readers := 0, lk_threads := [[IWrite (WDelete ty), IRLock, IRUnlock]]\<rparr>"
    let ?b = "?a\<lparr>lk_once := once(ty := []), lk_threads := [[IRLock, IRUnlock]]\<rparr>"
    have "lk_next quiet ?s2 ?a" using False by (intro lk_next.step[of _ 0]) (simp add: defs)
    moreover have "lk_next quiet ?a (?a\<lparr>lk_writer := Some 0\<rparr>)" by (rule lk_next.step[of _ 0]) (simp add: defs)
    moreover have "lk_next quiet (?a\<lparr>lk_writer := Some 0\<rparr>) ?b" by (rule lk_next.step[of _ 0]) (simp add: defs)
    moreover have "lk_next quiet ?b (?b\<lparr>lk_readers := 1, lk_threads := [[IRUnlock]]\<rparr>)" by (rule lk_next.step[of _ 0]) (simp add: defs)
    moreover have "lk_next quiet (?b\<lparr>lk_readers := 1, lk_threads := [[IRUnlock]]\<rparr>) ?fin" by (rule lk_next.step[of _ 0]) (simp add: defs)
    ultimately show ?thesis by (meson converse_rtranclp_into_rtranclp rtranclp.rtrancl_refl)
  qed
  ultimately show ?thesis by (meson converse_rtranclp_into_rtranclp rtranclp_trans)
qed

section \<open>Handlers that call back\<close>

text \<open>
  The schedule: a publisher takes the read lock and runs the handler; before the handler's first call
  a subscriber asks for the write lock, unless that call is a subscription itself.
\<close>

definition reentrant_start :: "nat \<Rightarrow> lk_state" where
  "reentrant_start h = lk_start (\<lambda>_. [h]) (\<lambda>_. []) [[CPublish ''e''], [CSubscribe ''e'' h]]"

definition reentrant_end :: "(nat \<Rightarrow> bus_call list) \<Rightarrow> nat \<Rightarrow> nat \<Rightarrow> lk_state" where
  "reentrant_end code h writer = (reentrant_start h)\<lparr>lk_readers := 1, lk_writer := Some writer, lk_log := [h],
     lk_threads := [calls_code (code h) @ [IRUnlock], [IWrite (WSubscribe ''e'' h)]]\<rparr>"

lemma reentrant_run:
  assumes "writer = 1 \<or> writer = 0 \<and> (\<exists>w k. calls_code (code h) = IWrite w # k)"
  shows "lk_runs code (reentrant_start h) (reentrant_end code h writer)"
proof -
  let ?w = "[IWrite (WSubscribe ''e'' h)]"
  let ?s1 = "(reentrant_start h)\<lparr>lk_readers := 1, lk_threads := [[IBody ''e'', IRUnlock], ?w]\<rparr>"
  let ?s2 = "?s1\<lparr>lk_threads := [[IRun h, IRUnlock], ?w]\<rparr>"
  let ?s3 = "?s2\<lparr>lk_log := [h], lk_threads := [calls_code (code h) @ [IRUnlock], ?w]\<rparr>"
  note defs = lk_step_def reentrant_start_def lk_start_def resume_def publish_body_def
  have "lk_next code (reentrant_start h) ?s1" by (rule lk_next.step[of _ 0]) (simp add: defs)
  moreover have "lk_next code ?s1 ?s2" by (rule lk_next.step[of _ 0]) (simp add: defs)
  moreover have "lk_next code ?s2 ?s3" by (rule lk_next.step[of _ 0]) (simp add: defs)
  moreover have "lk_next code ?s3 (reentrant_end code h writer)"
    using assms by (intro lk_next.step[of _ writer]) (auto simp: defs reentrant_end_def)
  ultimately show ?thesis by (meson converse_rtranclp_into_rtranclp rtranclp.rtrancl_refl)
qed

lemma reentrant_deadlock:
  assumes "code h \<noteq> []"
  shows "\<exists>s. lk_runs code (reentrant_start h) s \<and> stuck code s \<and> \<not> finished s"
proof -
  obtain c cs where c: "code h = c # cs" using assms by (cases "code h") auto
  obtain i k where k: "calls_code (code h) = i # k" "i = IRLock \<or> (\<exists>w. i = IWrite w)" by (cases c) (auto simp: c)
  define writer :: nat where "writer = (if i = IRLock then 1 else 0)"
  have "lk_runs code (reentrant_start h) (reentrant_end code h writer)"
    using k by (intro reentrant_run) (auto simp: writer_def)
  moreover have "stuck code (reentrant_end code h writer)"
    using k by (auto simp: stuck_def lk_step_def reentrant_end_def writer_def less_Suc_eq numeral_2_eq_2)
  moreover have "\<not> finished (reentrant_end code h writer)" by (simp add: finished_def reentrant_end_def)
  ultimately show ?thesis by blast
qed

section \<open>Properties\<close>

text \<open>
  C25 (\<open>quiet_bus_terminates\<close>): with handlers that leave the bus alone no run goes on for ever, whatever the
  goroutines do and however they are interleaved; where it ends, every goroutine is done with all its
  calls and the lock is free; and from every reachable state some run gets there.
\<close>

theorem quiet_bus_terminates:
  assumes "lk_runs quiet (lk_start perm once progs) s"
  shows "\<not> (\<exists>f. f 0 = s \<and> (\<forall>n. lk_next quiet (f n) (f (Suc n)))) \<and> (stuck quiet s \<longrightarrow> finished s) \<and>
    (\<exists>s'. lk_runs quiet s s' \<and> finished s')"
proof -
  have f: "finished s'" if "lk_runs quiet (lk_start perm once progs) s'" "stuck quiet s'" for s'
    by (rule stuck_finished[OF lk_inv_runs[OF that(1) lk_inv_start] calm_runs_to[OF that(1) calm_start] that(2)])
  obtain s' where "lk_runs quiet s s'" "stuck quiet s'" using run_to_stuck by blast
  then show ?thesis using no_infinite_run f assms by (meson rtranclp_trans)
qed

text \<open>
  C24 (\<open>bus_deadlock_iff\<close>): the bus can end in a deadlock exactly when some handler calls it.  Any call
  will do, one that only reads included: a nested publication waits behind a subscriber, which waits
  for the outer publication.
\<close>

theorem bus_deadlock_iff:
  "(\<exists>perm once progs s. lk_runs code (lk_start perm once progs) s \<and> stuck code s \<and> \<not> finished s) \<longleftrightarrow> (\<exists>h. code h \<noteq> [])"
proof
  assume "\<exists>h. code h \<noteq> []"
  then show "\<exists>perm once progs s. lk_runs code (lk_start perm once progs) s \<and> stuck code s \<and> \<not> finished s"
    using reentrant_deadlock[of code] unfolding reentrant_start_def by blast
next
  assume d: "\<exists>perm once progs s. lk_runs code (lk_start perm once progs) s \<and> stuck code s \<and> \<not> finished s"
  show "\<exists>h. code h \<noteq> []"
  proof (rule ccontr)
    assume "\<not> (\<exists>h. code h \<noteq> [])"
    then have "code = quiet" by (auto simp: quiet_def)
    then show False using d stuck_finished[OF lk_inv_runs[OF _ lk_inv_start] calm_runs_to[OF _ calm_start]] by blast
  qed
qed

theorem quiet_bus_terminates_witness:
  "\<exists>s. lk_runs quiet (lk_start (\<lambda>_. [7]) (\<lambda>_. []) [[CPublish ''e''], [CClose]]) s \<and> lk_readers s = 1 \<and>
     (\<exists>s'. lk_runs quiet s s' \<and> finished s')"
proof -
  let ?s = "lk_start (\<lambda>_. [7]) (\<lambda>_. []) [[CPublish ''e''], [CClose]]"
  let ?t = "?s\<lparr>lk_readers := 1, lk_threads := [[IBody ''e'', IRUnlock], [IWrite WClose]]\<rparr>"
  have "lk_next quiet ?s ?t" by (rule lk_next.step[of _ 0]) (simp add: lk_step_def lk_start_def resume_def)
  then have r: "lk_runs quiet ?s ?t" by blast
  from quiet_bus_terminates[OF this] have "\<exists>s'. lk_runs quiet ?t s' \<and> finished s'" by blast
  then show ?thesis using r by (intro exI[of _ ?t]) simp
qed

end
