(* ===== verification/EventTypes.thy ===== *)
theory EventTypes
  imports EventBus
begin

text \<open>
  The event vocabulary of \<^verbatim>\<open>eventbus/events.go\<close>: the names of the events the platform's services publish, and
  the payloads that come with some of them.
\<close>

section \<open>Event names\<close>

definition EventEmailReceived :: string where "EventEmailReceived = ''email.received''"
definition EventEmailSent :: string where "EventEmailSent = ''email.sent''"
definition EventEmailDeleted :: string where "EventEmailDeleted = ''email.deleted''"
definition EventEmailRead :: string where "EventEmailRead = ''email.read''"
definition EventEmailFlagged :: string where "EventEmailFlagged = ''email.flagged''"
definition EventEmailProcessed :: string where "EventEmailProcessed = ''email.processed''"
definition EventEmailFailed :: string where "EventEmailFailed = ''email.failed''"
definition EventUserCreated :: string where "EventUserCreated = ''user.created''"
definition EventUserUpdated :: string where "EventUserUpdated = ''user.updated''"
definition EventUserDeleted :: string where "EventUserDeleted = ''user.deleted''"
definition EventUserLoggedIn :: string where "EventUserLoggedIn = ''user.logged_in''"
definition EventUserLoggedOut :: string where "EventUserLoggedOut = ''user.logged_out''"
definition EventTaskCreated :: string where "EventTaskCreated = ''task.created''"
definition EventTaskStarted :: string where "EventTaskStarted = ''task.started''"
definition EventTaskCompleted :: string where "EventTaskCompleted = ''task.completed''"
definition EventTaskFailed :: string where "EventTaskFailed = ''task.failed''"
definition EventTaskCancelled :: string where "EventTaskCancelled = ''task.cancelled''"
definition EventSystemStarted :: string where "EventSystemStarted = ''system.started''"
definition EventSystemStopped :: string where "EventSystemStopped = ''system.stopped''"
definition EventSystemError :: string where "EventSystemError = ''system.error''"

section \<open>Payloads\<close>

text \<open>A nil map is \<open>None\<close>; \<open>'v\<close> is a value of any type.\<close>

record EmailReceivedEvent =
  er_EmailID :: string
  er_From :: string
  er_To :: string
  er_Subject :: string
  er_Mailbox :: string
  er_AccountID :: string
  er_TenantID :: "32 word"

record EmailProcessedEvent =
  ep_EmailID :: string
  ep_AccountID :: string
  ep_Mailbox :: string
  ep_Success :: bool
  ep_Error :: string

record UserCreatedEvent =
  uc_UserID :: "32 word"
  uc_Username :: string
  uc_Email :: string

record 'v TaskCompletedEvent =
  tk_TaskID :: string
  tk_TaskType :: string
  tk_Success :: bool
  tk_Error :: string
  tk_Result :: "(string \<rightharpoonup> 'v) option"
  tk_Duration :: "64 word"

record SystemErrorEvent =
  se_Component :: string
  se_Error :: string
  se_Severity :: string

section \<open>No two events share a name\<close>

definition event_names :: "string list" where
  "event_names = [EventEmailReceived, EventEmailSent, EventEmailDeleted, EventEmailRead, EventEmailFlagged,
     EventEmailProcessed, EventEmailFailed, EventUserCreated, EventUserUpdated, EventUserDeleted,
     EventUserLoggedIn, EventUserLoggedOut, EventTaskCreated, EventTaskStarted, EventTaskCompleted,
     EventTaskFailed, EventTaskCancelled, EventSystemStarted, EventSystemStopped, EventSystemError]"

text \<open>So a subscription to one event never receives another.\<close>

lemma event_names_distinct: "distinct event_names"
  by code_simp

lemma subscription_separate:
  assumes "i < length event_names" "j < length event_names" "i \<noteq> j" "\<not> eb_closed eb"
  shows "entries (eb_handlers (snd (Subscribe (event_names ! i) h eb))) (event_names ! j) = entries (eb_handlers eb) (event_names ! j)"
  using assms event_names_distinct by (simp add: Subscribe_def entries_def nth_eq_iff_index_eq)

end
