(* ===== verification/Metadata.thy ===== *)
theory Metadata
  imports Prelude GoStrings
begin

text \<open>
  Request metadata, after \<^verbatim>\<open>grpcx/metadata.go\<close> and \<^verbatim>\<open>grpcx/module_secret.go\<close>: the identity
  claims a handler reads from the incoming call, and the shared module secret.

  The metadata package of gRPC is outside the repository.  Its operations are the fields of
  the record \<open>grpc_md\<close>, an argument of every definition that uses them, and
  \<open>metadata_laws\<close> lists what its documentation promises.
\<close>

section \<open>The metadata package\<close>

record ('ctx, 'md) grpc_md =
  FromIncomingContext :: "'ctx \<Rightarrow> 'md option"
  NewIncomingContext :: "'ctx \<Rightarrow> 'md \<Rightarrow> 'ctx"
  md_Get :: "'md \<Rightarrow> string \<Rightarrow> string list"
  md_Copy :: "'md \<Rightarrow> 'md"
  md_Delete :: "'md \<Rightarrow> string \<Rightarrow> 'md"
  AppendToOutgoingContext :: "'ctx \<Rightarrow> string \<Rightarrow> string \<Rightarrow> 'ctx"

text \<open>
  \<open>lower\<close> says that all keys of a metadata value are in lower case, which holds of what
  \<open>FromIncomingContext\<close> returns.  A copy reads like the original, a deletion removes one key,
  and a context built from lower-case metadata gives metadata that reads the same.
\<close>

definition metadata_laws :: "('ctx, 'md) grpc_md \<Rightarrow> ('md \<Rightarrow> bool) \<Rightarrow> bool" where
  "metadata_laws G lower \<longleftrightarrow>
     (\<forall>ctx md. FromIncomingContext G ctx = Some md \<longrightarrow> lower md) \<and>
     (\<forall>md k. lower md \<longrightarrow> lower (md_Copy G md) \<and> lower (md_Delete G md k)) \<and>
     (\<forall>md k. md_Get G (md_Copy G md) k = md_Get G md k) \<and>
     (\<forall>md k k'. lower md \<longrightarrow> md_Get G (md_Delete G md k) k' =
        (if ToLower k = ToLower k' then [] else md_Get G md k')) \<and>
     (\<forall>ctx md. lower md \<longrightarrow> (\<exists>md'. FromIncomingContext G (NewIncomingContext G ctx md) = Some md' \<and>
        (\<forall>k. md_Get G md' k = md_Get G md k)))"

section \<open>Metadata keys\<close>

definition MDTenantID :: string where "MDTenantID = ''x-md-global-tenant-id''"
definition MDUserID :: string where "MDUserID = ''x-md-global-user-id''"
definition MDUsername :: string where "MDUsername = ''x-md-global-username''"
definition MDRoles :: string where "MDRoles = ''x-md-global-roles''"
definition MDClientIP :: string where "MDClientIP = ''x-client-ip''"

lemmas md_keys_def = MDTenantID_def MDUserID_def MDUsername_def MDRoles_def MDClientIP_def

section \<open>Reading claims\<close>

definition GetMetadataValue :: "('ctx, 'md) grpc_md \<Rightarrow> 'ctx \<Rightarrow> string \<Rightarrow> string" where
  "GetMetadataValue G ctx key =
     (case FromIncomingContext G ctx of
        None \<Rightarrow> []
      | Some md \<Rightarrow> (let vals = md_Get G md key in if length vals = 0 then [] else vals ! 0))"

definition GetTenantIDFromContext :: "('ctx, 'md) grpc_md \<Rightarrow> 'ctx \<Rightarrow> u32" where
  "GetTenantIDFromContext G ctx =
     (let tenantStr = GetMetadataValue G ctx MDTenantID in
      if tenantStr = [] then 0
      else case ParseUint 32 tenantStr of None \<Rightarrow> 0 | Some tenantID \<Rightarrow> word_of_nat tenantID)"

definition GetUserIDFromContext :: "('ctx, 'md) grpc_md \<Rightarrow> 'ctx \<Rightarrow> string" where
  "GetUserIDFromContext G ctx = GetMetadataValue G ctx MDUserID"

definition GetUserIDAsUint32 :: "('ctx, 'md) grpc_md \<Rightarrow> 'ctx \<Rightarrow> u32 option" where
  "GetUserIDAsUint32 G ctx =
     (let userStr = GetUserIDFromContext G ctx in
      if userStr = [] then None
      else case ParseUint 32 userStr of None \<Rightarrow> None | Some userID \<Rightarrow> Some (word_of_nat userID))"

definition GetUsernameFromContext :: "('ctx, 'md) grpc_md \<Rightarrow> 'ctx \<Rightarrow> string" where
  "GetUsernameFromContext G ctx = GetMetadataValue G ctx MDUsername"

text \<open>
  The roles header is cut by hand: the loop keeps the position where the current role starts.
\<close>

definition roles_step :: "string \<Rightarrow> nat \<Rightarrow> nat \<times> string list \<Rightarrow> nat \<times> string list" where
  "roles_step rolesStr i st =
     (let (start, roles) = st in
      if rolesStr ! i = CHR '','' then
        let role = take (i - start) (drop start rolesStr)
        in (i + 1, if role \<noteq> [] then roles @ [role] else roles)
      else (start, roles))"

definition split_roles :: "string \<Rightarrow> string list" where
  "split_roles rolesStr =
     (let (start, roles) = fold (roles_step rolesStr) [0..<length rolesStr] (0, []) in
      if start < length rolesStr then
        let role = drop start rolesStr in if role \<noteq> [] then roles @ [role] else roles
      else roles)"

definition GetRolesFromContext :: "('ctx, 'md) grpc_md \<Rightarrow> 'ctx \<Rightarrow> string list" where
  "GetRolesFromContext G ctx =
     (let rolesStr = GetMetadataValue G ctx MDRoles in
      if rolesStr = [] then [] else split_roles rolesStr)"

definition GetClientIPFromContext :: "('ctx, 'md) grpc_md \<Rightarrow> 'ctx \<Rightarrow> string" where
  "GetClientIPFromContext G ctx = GetMetadataValue G ctx MDClientIP"

definition IsPlatformAdmin :: "('ctx, 'md) grpc_md \<Rightarrow> 'ctx \<Rightarrow> bool" where
  "IsPlatformAdmin G ctx =
     list_ex (\<lambda>role. role = ''platform:admin'' \<or> role = ''super:admin'') (GetRolesFromContext G ctx)"

section \<open>The module secret\<close>

definition ModuleSecretMetadataKey :: string where
  "ModuleSecretMetadataKey = ''x-registration-secret''"

definition EnvModuleBootstrapSecret :: string where
  "EnvModuleBootstrapSecret = ''MODULE_BOOTSTRAP_SECRET''"

text \<open>\<open>os.Getenv\<close>: unset variables read as the empty string.\<close>

type_synonym environ = "string \<Rightarrow> string"

definition ModuleBootstrapSecret :: "environ \<Rightarrow> string" where
  "ModuleBootstrapSecret env = env EnvModuleBootstrapSecret"

definition ModuleSecretUnaryClientInterceptor ::
    "('ctx, 'md) grpc_md \<Rightarrow> environ \<Rightarrow> ('ctx \<Rightarrow> 'call \<Rightarrow> 'out) \<Rightarrow> 'ctx \<Rightarrow> 'call \<Rightarrow> 'out" where
  "ModuleSecretUnaryClientInterceptor G env invoker ctx call =
     (let secret = ModuleBootstrapSecret env;
          ctx' = (if secret \<noteq> [] then AppendToOutgoingContext G ctx ModuleSecretMetadataKey secret else ctx)
      in invoker ctx' call)"

definition GetModuleSecretFromContext :: "('ctx, 'md) grpc_md \<Rightarrow> 'ctx \<Rightarrow> string" where
  "GetModuleSecretFromContext G ctx = GetMetadataValue G ctx ModuleSecretMetadataKey"

text \<open>\<open>subtle.ConstantTimeCompare\<close> answers 1 exactly on equal slices.\<close>

definition ConstantTimeCompare :: "byte list \<Rightarrow> byte list \<Rightarrow> int" where
  "ConstantTimeCompare x y = (if x = y then 1 else 0)"

definition ValidateModuleSecret :: "('ctx, 'md) grpc_md \<Rightarrow> 'ctx \<Rightarrow> string \<Rightarrow> bool" where
  "ValidateModuleSecret G ctx expected =
     (if expected = [] then False
      else ConstantTimeCompare (bytes_of_string (GetModuleSecretFromContext G ctx)) (bytes_of_string expected) = 1)"

section \<open>Lemmas\<close>

lemma bytes_of_string_inj [simp]: "bytes_of_string s = bytes_of_string t \<longleftrightarrow> s = t"
  by (metis string_of_bytes_of_string)

lemma Split_snoc:
  "Split c (s @ [x]) =
     (if x = c then Split c s @ [[]] else butlast (Split c s) @ [last (Split c s) @ [x]])"
proof (induction s)
  case Nil
  then show ?case by simp
next
  case (Cons y s)
  obtain p ps where s: "Split c s = p # ps" by (cases "Split c s") auto
  show ?case using Cons by (auto simp: s)
qed

lemma roles_loop:
  assumes "i \<le> length s"
  shows "\<exists>start roles parts. fold (roles_step s) [0..<i] (0, []) = (start, roles) \<and> start \<le> i \<and>
    Split CHR '','' (take i s) = parts @ [drop start (take i s)] \<and> roles = filter (\<lambda>r. r \<noteq> []) parts"
  using assms
proof (induction i)
  case 0
  then show ?case by simp
next
  case (Suc i)
  then obtain start roles parts where IH: "fold (roles_step s) [0..<i] (0, []) = (start, roles)"
    "start \<le> i" "Split CHR '','' (take i s) = parts @ [drop start (take i s)]"
    "roles = filter (\<lambda>r. r \<noteq> []) parts" by auto
  have t: "take (Suc i) s = take i s @ [s ! i]" using Suc.prems by (simp add: take_Suc_conv_app_nth)
  have role: "take (i - start) (drop start s) = drop start (take i s)" by (simp add: drop_take)
  have l: "length (take i s) = i" using Suc.prems by simp
  have f: "fold (roles_step s) [0..<Suc i] (0, []) = roles_step s i (start, roles)" by (simp add: IH(1))
  show ?case
  proof (cases "s ! i = CHR '',''")
    case True
    have "roles_step s i (start, roles) =
        (Suc i, filter (\<lambda>r. r \<noteq> []) (parts @ [drop start (take i s)]))"
      using True IH(4) by (simp only: roles_step_def Let_def role prod.case) simp
    moreover have "Split CHR '','' (take (Suc i) s) = (parts @ [drop start (take i s)]) @ [drop (Suc i) (take (Suc i) s)]"
      using True IH(3) by (simp add: t Split_snoc)
    ultimately show ?thesis unfolding f by blast
  next
    case False
    have "roles_step s i (start, roles) = (start, roles)" using False by (simp add: roles_step_def)
    moreover have "Split CHR '','' (take (Suc i) s) = parts @ [drop start (take (Suc i) s)]"
      using False IH(2,3) l by (simp add: t Split_snoc)
    ultimately show ?thesis using IH(2,4) unfolding f by auto
  qed
qed

lemma split_roles_spec: "split_roles s = filter (\<lambda>r. r \<noteq> []) (Split CHR '','' s)"
proof -
  obtain start roles parts where l: "fold (roles_step s) [0..<length s] (0, []) = (start, roles)"
    "start \<le> length s" "Split CHR '','' s = parts @ [drop start s]" "roles = filter (\<lambda>r. r \<noteq> []) parts"
    using roles_loop[of "length s" s] by auto
  show ?thesis by (simp add: split_roles_def l Let_def)
qed

lemma GetRoles_spec:
  "GetRolesFromContext G ctx = filter (\<lambda>r. r \<noteq> []) (Split CHR '','' (GetMetadataValue G ctx MDRoles))"
  by (simp add: GetRolesFromContext_def Let_def split_roles_spec)

lemma IsPlatformAdmin_iff:
  "IsPlatformAdmin G ctx \<longleftrightarrow>
     ''platform:admin'' \<in> set (Split CHR '','' (GetMetadataValue G ctx MDRoles)) \<or>
     ''super:admin'' \<in> set (Split CHR '','' (GetMetadataValue G ctx MDRoles))"
  by (auto simp: IsPlatformAdmin_def list_ex_iff GetRoles_spec)

section \<open>Properties\<close>

text \<open>
  \<open>roles_roundtrip\<close>: the hand-written role splitter inverts joining with commas.  For
  non-empty roles without a comma, a context whose roles header is their comma-joined list gives
  exactly these roles in order, and the caller is a platform admin exactly when one of the two
  admin roles is among them.
\<close>

theorem roles_roundtrip:
  assumes "GetMetadataValue G ctx MDRoles = Join '','' roles"
    and "\<forall>r \<in> set roles. r \<noteq> [] \<and> CHR '','' \<notin> set r"
  shows "GetRolesFromContext G ctx = roles \<and>
    (IsPlatformAdmin G ctx \<longleftrightarrow> ''platform:admin'' \<in> set roles \<or> ''super:admin'' \<in> set roles)"
proof -
  have "GetRolesFromContext G ctx = roles"
  proof (cases "roles = []")
    case True
    then show ?thesis using assms(1) by (simp add: GetRolesFromContext_def)
  next
    case False
    then have "Split CHR '','' (Join '','' roles) = roles" using assms(2) by (intro Split_Join) auto
    then show ?thesis using assms by (simp add: GetRoles_spec filter_True)
  qed
  then show ?thesis by (auto simp: IsPlatformAdmin_def list_ex_iff)
qed

text \<open>A concrete metadata package for the examples: contexts are metadata, metadata is an association list.\<close>

definition alist_md :: "((string \<times> string list) list option, (string \<times> string list) list) grpc_md" where
  "alist_md = \<lparr>FromIncomingContext = (\<lambda>ctx. ctx), NewIncomingContext = (\<lambda>_ md. Some md),
     md_Get = (\<lambda>md k. concat (map snd (filter (\<lambda>(k', _). ToLower k' = ToLower k) md))),
     md_Copy = (\<lambda>md. md), md_Delete = (\<lambda>md k. filter (\<lambda>(k', _). ToLower k' \<noteq> ToLower k) md),
     AppendToOutgoingContext = (\<lambda>ctx _ _. ctx)\<rparr>"

lemma alist_md_laws: "metadata_laws alist_md (\<lambda>_. True)"
proof -
  have "filter (\<lambda>x. (case x of (k'', _) \<Rightarrow> ToLower k'' = ToLower k') \<and> (case x of (k'', _) \<Rightarrow> ToLower k'' \<noteq> ToLower k)) md =
    (if ToLower k = ToLower k' then [] else filter (\<lambda>(k'', _). ToLower k'' = ToLower k') md)"
    for k k' :: string and md :: "(string \<times> string list) list"
    by (induction md) auto
  then show ?thesis by (simp add: metadata_laws_def alist_md_def conj_commute)
qed

theorem roles_roundtrip_witness:
  "GetRolesFromContext alist_md (Some [(MDRoles, [''viewer,super:admin''])]) = [''viewer'', ''super:admin''] \<and>
   IsPlatformAdmin alist_md (Some [(MDRoles, [''viewer,super:admin''])])"
proof -
  have "GetMetadataValue alist_md (Some [(MDRoles, [''viewer,super:admin''])]) MDRoles =
      Join '','' [''viewer'', ''super:admin'']"
    by (simp add: GetMetadataValue_def alist_md_def)
  from roles_roundtrip[OF this] show ?thesis by simp
qed

text \<open>
  A module call is accepted exactly when a secret is configured and the call presents that secret;
  with no secret configured nobody is accepted.
\<close>

lemma module_secret_check:
  "ValidateModuleSecret G ctx expected \<longleftrightarrow>
     expected \<noteq> [] \<and> (\<exists>md vals. FromIncomingContext G ctx = Some md \<and>
        md_Get G md ModuleSecretMetadataKey = expected # vals)"
proof (cases "FromIncomingContext G ctx")
  case None
  then show ?thesis
    by (auto simp: ValidateModuleSecret_def GetModuleSecretFromContext_def GetMetadataValue_def ConstantTimeCompare_def)
next
  case (Some md)
  then show ?thesis
    by (cases "md_Get G md ModuleSecretMetadataKey")
      (auto simp: ValidateModuleSecret_def GetModuleSecretFromContext_def GetMetadataValue_def ConstantTimeCompare_def)
qed

text \<open>
  A call between two processes.  \<open>sent ctx k\<close> lists the values a context sends under a key; appending
  adds one, and the context at the other end, \<open>deliver ctx\<close>, reads what was sent.
\<close>

definition transport_laws :: "('ctx, 'md) grpc_md \<Rightarrow> ('ctx \<Rightarrow> string \<Rightarrow> string list) \<Rightarrow> ('ctx \<Rightarrow> 'ctx) \<Rightarrow> bool" where
  "transport_laws G sent deliver \<longleftrightarrow>
     (\<forall>ctx k v k'. sent (AppendToOutgoingContext G ctx k v) k' = sent ctx k' @ (if ToLower k' = ToLower k then [v] else [])) \<and>
     (\<forall>ctx. \<exists>md. FromIncomingContext G (deliver ctx) = Some md \<and> (\<forall>k. md_Get G md k = sent ctx k))"

text \<open>
  C32 (\<open>module_secret_handshake\<close>): a call made through the client interceptor passes the check at the other
  end exactly when both ends are configured with the same non-empty secret, unless the caller has put
  a value of its own under the key before.
\<close>

theorem module_secret_handshake:
  assumes "transport_laws G sent deliver" and "sent ctx ModuleSecretMetadataKey = []"
  shows "ModuleSecretUnaryClientInterceptor G env (\<lambda>ctx' _. ValidateModuleSecret G (deliver ctx') expected) ctx call \<longleftrightarrow>
    expected \<noteq> [] \<and> ModuleBootstrapSecret env = expected"
proof -
  have v: "ValidateModuleSecret G (deliver c) expected \<longleftrightarrow> expected \<noteq> [] \<and> (\<exists>vals. sent c ModuleSecretMetadataKey = expected # vals)" for c
    using assms(1)[unfolded transport_laws_def, THEN conjunct2, rule_format, of c] unfolding module_secret_check by auto
  have "sent (AppendToOutgoingContext G ctx ModuleSecretMetadataKey x) ModuleSecretMetadataKey = [x]" for x
    using assms by (simp add: transport_laws_def)
  then show ?thesis using assms(2) by (auto simp: ModuleSecretUnaryClientInterceptor_def Let_def v)
qed

text \<open>Contexts that hold the metadata of both directions, the outgoing one second.\<close>

definition pair_md :: "((string \<times> string list) list option \<times> (string \<times> string list) list, (string \<times> string list) list) grpc_md" where
  "pair_md = \<lparr>FromIncomingContext = fst, NewIncomingContext = (\<lambda>c md. (Some md, snd c)), md_Get = md_Get alist_md,
     md_Copy = md_Copy alist_md, md_Delete = md_Delete alist_md,
     AppendToOutgoingContext = (\<lambda>c k v. (fst c, snd c @ [(k, [v])]))\<rparr>"

theorem module_secret_handshake_witness:
  "ModuleSecretUnaryClientInterceptor pair_md (\<lambda>_. ''s3'') (\<lambda>ctx' _. ValidateModuleSecret pair_md (Some (snd ctx'), []) ''s3'') (None, []) ()"
proof -
  have "transport_laws pair_md (\<lambda>c k. md_Get alist_md (snd c) k) (\<lambda>c. (Some (snd c), []))"
    by (auto simp: transport_laws_def pair_md_def alist_md_def)
  from module_secret_handshake[OF this, of "(None, [])" "\<lambda>_. ''s3''" "''s3''" "()"] show ?thesis
    by (simp add: alist_md_def ModuleBootstrapSecret_def)
qed

end
