(* ===== verification/Claims.thy ===== *)
theory Claims
  imports Metadata
begin

text \<open>
  Claim binding, after \<^verbatim>\<open>grpcx/claims_signing.go\<close> and \<^verbatim>\<open>middleware/claims/claims.go\<close>: the
  gateway signs the identity claims it forwards, a module verifies the signature and, in
  enforce mode, strips claims that are not covered by one.

  \<open>hmac\<close> stands for HMAC-SHA256 keyed with its first argument; nothing is assumed of it.
  Times are Unix seconds.  Log output is not modelled.
\<close>

section \<open>Keys and the canonical message\<close>

definition MDClaimsSig :: string where "MDClaimsSig = ''x-md-global-claims-sig''"
definition MDClaimsExp :: string where "MDClaimsExp = ''x-md-global-claims-exp''"

definition signedClaimKeys :: "string list" where
  "signedClaimKeys = [MDTenantID, MDUserID, MDUsername, MDRoles]"

definition NL :: string where "NL = [CHR 0x0A]"

definition canonicalClaimMessage :: "string \<Rightarrow> string \<Rightarrow> string \<Rightarrow> string \<Rightarrow> int \<Rightarrow> byte list" where
  "canonicalClaimMessage tenantID userID username roles exp =
     (let msg = tenantID @ NL @ userID @ NL @ username @ NL @ roles @ NL @ FormatInt exp
      in bytes_of_string msg)"

section \<open>Signing and verifying\<close>

type_synonym mac = "byte list \<Rightarrow> byte list \<Rightarrow> byte list"

text \<open>\<open>hex.EncodeToString\<close>: two lower-case digits per byte.\<close>

definition hex_digit :: "nat \<Rightarrow> char" where
  "hex_digit d = (if d < 10 then char_of (48 + d) else char_of (87 + d))"

definition hex_EncodeToString :: "byte list \<Rightarrow> string" where
  "hex_EncodeToString bs = concat (map (\<lambda>b. [hex_digit (unat b div 16), hex_digit (unat b mod 16)]) bs)"

definition SignClaims :: "mac \<Rightarrow> byte list \<Rightarrow> string \<Rightarrow> string \<Rightarrow> string \<Rightarrow> string \<Rightarrow> int \<Rightarrow> string" where
  "SignClaims hmac secret tenantID userID username roles exp =
     hex_EncodeToString (hmac secret (canonicalClaimMessage tenantID userID username roles exp))"

definition HasUserClaims :: "('ctx, 'md) grpc_md \<Rightarrow> 'md \<Rightarrow> bool" where
  "HasUserClaims G md =
     list_ex (\<lambda>k. let vals = md_Get G md k in length vals > 0 \<and> vals ! 0 \<noteq> []) signedClaimKeys"

definition firstMD :: "('ctx, 'md) grpc_md \<Rightarrow> 'md \<Rightarrow> string \<Rightarrow> string" where
  "firstMD G md key = (let vals = md_Get G md key in if length vals > 0 then vals ! 0 else [])"

definition VerifyClaimsSignature :: "('ctx, 'md) grpc_md \<Rightarrow> mac \<Rightarrow> 'md \<Rightarrow> byte list \<Rightarrow> int \<Rightarrow> bool" where
  "VerifyClaimsSignature G hmac md secret now =
     (if length secret = 0 then False
      else let sig = firstMD G md MDClaimsSig in
      if sig = [] then False
      else case ParseInt 64 (firstMD G md MDClaimsExp) of
        None \<Rightarrow> False
      | Some exp \<Rightarrow>
          if now > exp then False
          else let want = SignClaims hmac secret (firstMD G md MDTenantID) (firstMD G md MDUserID)
                 (firstMD G md MDUsername) (firstMD G md MDRoles) exp
               in ConstantTimeCompare (bytes_of_string sig) (bytes_of_string want) = 1)"

definition StripUserClaims :: "('ctx, 'md) grpc_md \<Rightarrow> 'ctx \<Rightarrow> 'ctx" where
  "StripUserClaims G ctx =
     (case FromIncomingContext G ctx of
        None \<Rightarrow> ctx
      | Some md \<Rightarrow>
          let stripped = md_Copy G md;
              stripped = fold (\<lambda>k m. md_Delete G m k) signedClaimKeys stripped;
              stripped = md_Delete G stripped MDClaimsSig;
              stripped = md_Delete G stripped MDClaimsExp
          in NewIncomingContext G ctx stripped)"

section \<open>The middleware\<close>

definition EnvSigningSecret :: string where "EnvSigningSecret = ''CLAIMS_SIGNING_SECRET''"
definition EnvBindingMode :: string where "EnvBindingMode = ''CLAIMS_BINDING_MODE''"
definition ModeOff :: string where "ModeOff = ''off''"
definition ModeWarn :: string where "ModeWarn = ''warn''"
definition ModeEnforce :: string where "ModeEnforce = ''enforce''"

lemmas claim_modes_def = ModeOff_def ModeWarn_def ModeEnforce_def

record claims_Options =
  co_Secret :: "byte list"
  co_Mode :: string

definition claims_WithSecret :: "byte list \<Rightarrow> claims_Options \<Rightarrow> claims_Options" where
  "claims_WithSecret secret o0 = o0\<lparr>co_Secret := secret\<rparr>"

definition claims_WithMode :: "string \<Rightarrow> claims_Options \<Rightarrow> claims_Options" where
  "claims_WithMode mode o0 = o0\<lparr>co_Mode := mode\<rparr>"

text \<open>The options after the functional options and the environment defaults.\<close>

definition claims_options :: "environ \<Rightarrow> (claims_Options \<Rightarrow> claims_Options) list \<Rightarrow> claims_Options" where
  "claims_options env opts =
     (let o1 = fold (\<lambda>opt. opt) opts \<lparr>co_Secret = [], co_Mode = []\<rparr>;
          o2 = (if length (co_Secret o1) = 0
                then o1\<lparr>co_Secret := bytes_of_string (env EnvSigningSecret)\<rparr> else o1);
          o3 = (if co_Mode o2 = [] then o2\<lparr>co_Mode := env EnvBindingMode\<rparr> else o2)
      in if co_Mode o3 = [] then o3\<lparr>co_Mode := ModeWarn\<rparr> else o3)"

definition claims_Server :: "('ctx, 'md) grpc_md \<Rightarrow> mac \<Rightarrow> environ \<Rightarrow> (claims_Options \<Rightarrow> claims_Options) list
    \<Rightarrow> int \<Rightarrow> ('ctx \<Rightarrow> 'req \<Rightarrow> 'res) \<Rightarrow> 'ctx \<Rightarrow> 'req \<Rightarrow> 'res" where
  "claims_Server G hmac env opts now handler ctx req =
     (let options = claims_options env opts in
      if co_Mode options = ModeOff then handler ctx req
      else case FromIncomingContext G ctx of
        None \<Rightarrow> handler ctx req
      | Some md \<Rightarrow>
          if \<not> HasUserClaims G md then handler ctx req
          else if VerifyClaimsSignature G hmac md (co_Secret options) now then handler ctx req
          else if co_Mode options = ModeEnforce then handler (StripUserClaims G ctx) req
          else handler ctx req)"

section \<open>Lemmas\<close>

lemma firstMD_GetMetadataValue:
  "FromIncomingContext G ctx = Some md \<Longrightarrow> GetMetadataValue G ctx k = firstMD G md k"
  by (simp add: GetMetadataValue_def firstMD_def Let_def)

lemma HasUserClaims_iff: "HasUserClaims G md \<longleftrightarrow> (\<exists>k \<in> set signedClaimKeys. firstMD G md k \<noteq> [])"
  by (auto simp: HasUserClaims_def list_ex_iff firstMD_def Let_def)

lemma hex_digit_inj: "a < 16 \<Longrightarrow> b < 16 \<Longrightarrow> hex_digit a = hex_digit b \<Longrightarrow> a = b"
  by (auto simp: hex_digit_def char_of_eq_iff take_bit_eq_mod split: if_splits)

lemma hex_byte_inj:
  fixes x y :: byte
  assumes "hex_digit (unat x div 16) = hex_digit (unat y div 16)"
    and "hex_digit (unat x mod 16) = hex_digit (unat y mod 16)"
  shows "x = y"
proof -
  have u: "unat x < 256" "unat y < 256" using unsigned_less[of x] unsigned_less[of y] by simp_all
  have "unat x div 16 = unat y div 16" by (rule hex_digit_inj) (use u assms(1) in auto)
  moreover have "unat x mod 16 = unat y mod 16" by (rule hex_digit_inj) (use assms(2) in auto)
  ultimately have "unat x = unat y" by (metis div_mult_mod_eq)
  then show ?thesis by (simp add: word_unat_eq_iff)
qed

lemma hex_inj: "hex_EncodeToString xs = hex_EncodeToString ys \<Longrightarrow> xs = ys"
proof (induction xs arbitrary: ys)
  case Nil
  then show ?case by (cases ys) (auto simp: hex_EncodeToString_def)
next
  case (Cons x xs)
  then show ?case by (cases ys) (auto simp: hex_EncodeToString_def intro: hex_byte_inj)
qed

lemma canonical_Join:
  "canonicalClaimMessage t u n r e = bytes_of_string (Join NL [t, u, n, r, FormatInt e])"
  by (simp add: canonicalClaimMessage_def)

lemma canonical_inj:
  assumes "CHR 0x0A \<notin> set (t @ u @ n @ r)" and "CHR 0x0A \<notin> set (t' @ u' @ n' @ r')"
    and "canonicalClaimMessage t u n r e = canonicalClaimMessage t' u' n' r' e'"
  shows "t = t' \<and> u = u' \<and> n = n' \<and> r = r' \<and> e = e'"
proof -
  have "Join NL [t, u, n, r, FormatInt e] = Join NL [t', u', n', r', FormatInt e']"
    using assms(3) unfolding canonical_Join by simp
  then have "Split CHR 0x0A (Join NL [t, u, n, r, FormatInt e]) =
      Split CHR 0x0A (Join NL [t', u', n', r', FormatInt e'])" by simp
  then have "[t, u, n, r, FormatInt e] = [t', u', n', r', FormatInt e']"
    using assms(1,2) FormatInt_no_newline unfolding NL_def
    by (subst (asm) Split_Join, force, force, subst (asm) Split_Join) force+
  then show ?thesis by (auto dest: FormatInt_inj)
qed

lemma verify_iff:
  "VerifyClaimsSignature G hmac md secret now \<longleftrightarrow>
     secret \<noteq> [] \<and> firstMD G md MDClaimsSig \<noteq> [] \<and>
     (\<exists>exp. ParseInt 64 (firstMD G md MDClaimsExp) = Some exp \<and> now \<le> exp \<and>
        firstMD G md MDClaimsSig = SignClaims hmac secret (firstMD G md MDTenantID) (firstMD G md MDUserID)
          (firstMD G md MDUsername) (firstMD G md MDRoles) exp)"
  by (auto simp: VerifyClaimsSignature_def ConstantTimeCompare_def Let_def not_less split: option.splits)

text \<open>Where the stripped context reads: nothing under the claim keys, everything else as before.\<close>

lemma delete_get:
  "metadata_laws G lower \<Longrightarrow> lower md \<Longrightarrow> lower (md_Delete G md k) \<and>
     md_Get G (md_Delete G md k) k' = (if ToLower k = ToLower k' then [] else md_Get G md k')"
  by (simp add: metadata_laws_def)

lemma fold_delete_get:
  assumes "metadata_laws G lower"
  shows "lower md \<Longrightarrow> lower (fold (\<lambda>k m. md_Delete G m k) ks md) \<and>
    md_Get G (fold (\<lambda>k m. md_Delete G m k) ks md) k' =
      (if ToLower k' \<in> ToLower ` set ks then [] else md_Get G md k')"
  by (induction ks arbitrary: md) (auto simp: delete_get[OF assms])

lemma strip_get:
  assumes "metadata_laws G lower" and "FromIncomingContext G ctx = Some md"
  obtains md' where "FromIncomingContext G (StripUserClaims G ctx) = Some md'"
    and "\<And>k. md_Get G md' k =
      (if ToLower k \<in> ToLower ` set (signedClaimKeys @ [MDClaimsSig, MDClaimsExp]) then [] else md_Get G md k)"
proof -
  let ?ks = "signedClaimKeys @ [MDClaimsSig, MDClaimsExp]"
  let ?s = "fold (\<lambda>k m. md_Delete G m k) ?ks (md_Copy G md)"
  have c: "lower (md_Copy G md)" "\<And>k. md_Get G (md_Copy G md) k = md_Get G md k"
    using assms by (simp_all add: metadata_laws_def)
  have "StripUserClaims G ctx = NewIncomingContext G ctx ?s"
    using assms(2) by (simp add: StripUserClaims_def Let_def)
  moreover obtain md' where "FromIncomingContext G (NewIncomingContext G ctx ?s) = Some md'"
    "\<forall>k. md_Get G md' k = md_Get G ?s k"
    using fold_delete_get[OF assms(1) c(1)] assms(1) unfolding metadata_laws_def by meson
  ultimately show ?thesis using that fold_delete_get[OF assms(1) c(1)] c(2) by metis
qed

lemma stripped_no_claims:
  assumes "metadata_laws G lower" and "FromIncomingContext G (StripUserClaims G ctx) = Some md'"
  shows "\<not> HasUserClaims G md'"
proof (cases "FromIncomingContext G ctx")
  case None
  then show ?thesis using assms(2) by (simp add: StripUserClaims_def)
next
  case (Some md)
  obtain m where m: "FromIncomingContext G (StripUserClaims G ctx) = Some m"
    "\<And>k. md_Get G m k =
      (if ToLower k \<in> ToLower ` set (signedClaimKeys @ [MDClaimsSig, MDClaimsExp]) then [] else md_Get G md k)"
    using strip_get[OF assms(1) Some] by blast
  have "m = md'" using m(1) assms(2) by simp
  then have "md_Get G md' k = []" if "k \<in> set signedClaimKeys" for k
    using m(2)[of k] that by simp
  then show ?thesis by (auto simp: HasUserClaims_iff firstMD_def)
qed

section \<open>The middleware as a gate\<close>

definition claims_admit :: "('ctx, 'md) grpc_md \<Rightarrow> mac \<Rightarrow> claims_Options \<Rightarrow> int \<Rightarrow> 'ctx \<Rightarrow> 'res + 'ctx" where
  "claims_admit G hmac options now ctx =
     Inr (case FromIncomingContext G ctx of
            None \<Rightarrow> ctx
          | Some md \<Rightarrow>
              if co_Mode options = ModeEnforce \<and> HasUserClaims G md \<and>
                 \<not> VerifyClaimsSignature G hmac md (co_Secret options) now
              then StripUserClaims G ctx else ctx)"

interpretation claims_gate: gate_middleware "claims_Server G hmac env opts now"
    "claims_admit G hmac (claims_options env opts) now"
  by unfold_locales
    (auto simp: claims_Server_def claims_admit_def Let_def claim_modes_def split: option.split)

text \<open>In enforce mode, what the handler is given is verified or carries no claim at all.\<close>

definition claims_trusted :: "('ctx, 'md) grpc_md \<Rightarrow> mac \<Rightarrow> byte list \<Rightarrow> int \<Rightarrow> 'ctx \<Rightarrow> bool" where
  "claims_trusted G hmac secret now ctx =
     (case FromIncomingContext G ctx of
        None \<Rightarrow> True
      | Some md \<Rightarrow> \<not> HasUserClaims G md \<or> VerifyClaimsSignature G hmac md secret now)"

lemma enforce_admits_trusted:
  assumes "metadata_laws G lower" and "co_Mode options = ModeEnforce"
    and "claims_admit G hmac options now ctx = Inr ctx'"
  shows "claims_trusted G hmac (co_Secret options) now ctx'"
  using assms stripped_no_claims[OF assms(1)]
  by (auto simp: claims_admit_def claims_trusted_def split: option.splits if_splits)

lemma admin_has_claims:
  assumes "IsPlatformAdmin G ctx"
  shows "\<exists>md. FromIncomingContext G ctx = Some md \<and> HasUserClaims G md"
proof -
  have ne: "GetMetadataValue G ctx MDRoles \<noteq> []" using assms by (auto simp: IsPlatformAdmin_iff)
  then obtain md where md: "FromIncomingContext G ctx = Some md"
    by (cases "FromIncomingContext G ctx") (simp_all add: GetMetadataValue_def)
  with ne have "firstMD G md MDRoles \<noteq> []" by (simp add: firstMD_GetMetadataValue)
  then show ?thesis using md by (auto simp: HasUserClaims_iff signedClaimKeys_def)
qed

section \<open>Properties\<close>

text \<open>
  C2 (\<open>enforce_blocks_forged_claims\<close>): in enforce mode a handler is never run on claims the
  gateway did not sign.  Two handlers that agree on every context whose metadata carries no user
  claim or an unexpired valid signature answer every call alike behind the middleware.
\<close>

theorem enforce_blocks_forged_claims:
  assumes "metadata_laws G lower" and "co_Mode (claims_options env opts) = ModeEnforce"
    and "\<And>ctx'. claims_trusted G hmac (co_Secret (claims_options env opts)) now ctx' \<Longrightarrow> h ctx' req = h' ctx' req"
  shows "claims_Server G hmac env opts now h ctx req = claims_Server G hmac env opts now h' ctx req"
proof (rule claims_gate.handler_runs_only_if)
  fix ctx'
  assume "claims_admit G hmac (claims_options env opts) now ctx = Inr ctx'"
  then show "claims_trusted G hmac (co_Secret (claims_options env opts)) now ctx'"
    by (rule enforce_admits_trusted[OF assms(1,2)])
qed (rule assms(3))

text \<open>An example key, a toy MAC that keeps its message, and a module configured to enforce.\<close>

definition demo_mac :: mac where "demo_mac k m = k @ m"

definition demo_env :: environ where
  "demo_env v = (if v = EnvSigningSecret then ''key'' else if v = EnvBindingMode then ModeEnforce else [])"

lemma demo_options: "claims_options demo_env [] = \<lparr>co_Secret = bytes_of_string ''key'', co_Mode = ModeEnforce\<rparr>"
  by (simp add: claims_options_def demo_env_def Let_def EnvSigningSecret_def EnvBindingMode_def claim_modes_def)

theorem enforce_blocks_forged_claims_witness:
  "claims_Server alist_md demo_mac demo_env [] 5
     (\<lambda>ctx' _. claims_trusted alist_md demo_mac (co_Secret (claims_options demo_env [])) 5 ctx')
     (Some [(MDRoles, [''super:admin''])]) () =
   claims_Server alist_md demo_mac demo_env [] 5 (\<lambda>_ _. True) (Some [(MDRoles, [''super:admin''])]) ()"
  by (rule enforce_blocks_forged_claims[OF alist_md_laws]) (simp_all add: demo_options)

text \<open>
  \<open>enforce_admin_is_signed\<close>: behind the middleware in enforce mode, a handler that asks
  whether the caller is a platform admin is told so only for a call that presents a signature by
  the configured non-empty secret over exactly the tenant, user, name and roles it carries, with
  an expiry that has not passed.
\<close>

theorem enforce_admin_is_signed:
  assumes "metadata_laws G lower" and "co_Mode (claims_options env opts) = ModeEnforce"
    and "claims_Server G hmac env opts now (\<lambda>ctx' _. IsPlatformAdmin G ctx') ctx req"
  shows "\<exists>md exp. FromIncomingContext G ctx = Some md \<and> co_Secret (claims_options env opts) \<noteq> [] \<and>
    ParseInt 64 (firstMD G md MDClaimsExp) = Some exp \<and> now \<le> exp \<and>
    firstMD G md MDClaimsSig = SignClaims hmac (co_Secret (claims_options env opts)) (firstMD G md MDTenantID)
      (firstMD G md MDUserID) (firstMD G md MDUsername) (firstMD G md MDRoles) exp"
proof -
  let ?o = "claims_options env opts"
  obtain ctx' where a: "(claims_admit G hmac ?o now ctx :: bool + 'a) = Inr ctx'" by (simp add: claims_admit_def)
  then have "IsPlatformAdmin G ctx'" using assms(3) by (simp add: claims_gate.gate)
  from admin_has_claims[OF this] obtain md where md: "FromIncomingContext G ctx' = Some md" "HasUserClaims G md" by blast
  have "ctx' = ctx"
    using a md stripped_no_claims[OF assms(1)] by (auto simp: claims_admit_def split: option.splits if_splits)
  moreover have "VerifyClaimsSignature G hmac md (co_Secret ?o) now"
    using enforce_admits_trusted[OF assms(1,2) a] md by (simp add: claims_trusted_def)
  ultimately show ?thesis using md(1) unfolding verify_iff by blast
qed

text \<open>A call that carries its own signature.\<close>

definition demo_signed :: "(string \<times> string list) list" where
  "demo_signed =
     [(MDTenantID, [''1'']), (MDUserID, [''7'']), (MDUsername, [''ann'']), (MDRoles, [''super:admin'']),
      (MDClaimsExp, [FormatInt 9]),
      (MDClaimsSig, [SignClaims demo_mac (bytes_of_string ''key'') ''1'' ''7'' ''ann'' ''super:admin'' 9])]"

lemma demo_signed_first:
  "firstMD alist_md demo_signed MDTenantID = ''1''" "firstMD alist_md demo_signed MDUserID = ''7''"
  "firstMD alist_md demo_signed MDUsername = ''ann''" "firstMD alist_md demo_signed MDRoles = ''super:admin''"
  "firstMD alist_md demo_signed MDClaimsExp = FormatInt 9"
  "firstMD alist_md demo_signed MDClaimsSig =
     SignClaims demo_mac (bytes_of_string ''key'') ''1'' ''7'' ''ann'' ''super:admin'' 9"
proof -
  have d: "distinct (map ToLower [MDTenantID, MDUserID, MDUsername, MDRoles, MDClaimsExp, MDClaimsSig])"
    by code_simp
  show "firstMD alist_md demo_signed MDTenantID = ''1''" "firstMD alist_md demo_signed MDUserID = ''7''"
  "firstMD alist_md demo_signed MDUsername = ''ann''" "firstMD alist_md demo_signed MDRoles = ''super:admin''"
  "firstMD alist_md demo_signed MDClaimsExp = FormatInt 9"
  "firstMD alist_md demo_signed MDClaimsSig =
     SignClaims demo_mac (bytes_of_string ''key'') ''1'' ''7'' ''ann'' ''super:admin'' 9"
    using d by (simp_all add: firstMD_def demo_signed_def alist_md_def)
qed

lemma demo_verifies: "VerifyClaimsSignature alist_md demo_mac demo_signed (bytes_of_string ''key'') 5"
proof -
  have "SignClaims demo_mac (bytes_of_string ''key'') t u n r e \<noteq> []" for t u n r e
    by (simp add: SignClaims_def hex_EncodeToString_def demo_mac_def bytes_of_string_def)
  moreover have "ParseInt 64 (FormatInt 9) = Some 9" using ParseInt_FormatInt[of 64 9] by simp
  ultimately show ?thesis unfolding verify_iff demo_signed_first by (simp add: bytes_of_string_def)
qed

theorem enforce_admin_is_signed_witness:
  "\<exists>md exp. FromIncomingContext alist_md (Some demo_signed) = Some md \<and>
    co_Secret (claims_options demo_env []) \<noteq> [] \<and> ParseInt 64 (firstMD alist_md md MDClaimsExp) = Some exp \<and>
    5 \<le> exp \<and> firstMD alist_md md MDClaimsSig = SignClaims demo_mac (co_Secret (claims_options demo_env []))
      (firstMD alist_md md MDTenantID) (firstMD alist_md md MDUserID) (firstMD alist_md md MDUsername)
      (firstMD alist_md md MDRoles) exp"
proof (rule enforce_admin_is_signed[OF alist_md_laws])
  have f: "FromIncomingContext alist_md (Some demo_signed) = Some demo_signed" by (simp add: alist_md_def)
  have "IsPlatformAdmin alist_md (Some demo_signed)"
    unfolding IsPlatformAdmin_iff firstMD_GetMetadataValue[OF f] demo_signed_first by simp
  then show "claims_Server alist_md demo_mac demo_env [] 5 (\<lambda>ctx' _. IsPlatformAdmin alist_md ctx')
      (Some demo_signed) ()"
    using demo_verifies by (simp add: claims_Server_def demo_options f)
qed (simp add: demo_options)

text \<open>
  C19 (\<open>signature_binds_claims\<close>): what a signature vouches for.  If a call verifies with a
  signature the gateway issued for some newline-free claims and expiry, then it carries exactly
  those claims and that expiry, or the two canonical messages are a collision of the HMAC under
  the secret.
\<close>

theorem signature_binds_claims:
  assumes "VerifyClaimsSignature G hmac md secret now"
    and "firstMD G md MDClaimsSig = SignClaims hmac secret t u n r e"
    and "CHR 0x0A \<notin> set (t @ u @ n @ r)"
    and "\<forall>k \<in> set signedClaimKeys. CHR 0x0A \<notin> set (firstMD G md k)"
  shows "(firstMD G md MDTenantID = t \<and> firstMD G md MDUserID = u \<and> firstMD G md MDUsername = n \<and>
      firstMD G md MDRoles = r \<and> ParseInt 64 (firstMD G md MDClaimsExp) = Some e \<and> now \<le> e) \<or>
    (\<exists>m. m \<noteq> canonicalClaimMessage t u n r e \<and> hmac secret m = hmac secret (canonicalClaimMessage t u n r e))"
proof -
  from assms(1) obtain e' where e': "ParseInt 64 (firstMD G md MDClaimsExp) = Some e'" "now \<le> e'"
    "firstMD G md MDClaimsSig = SignClaims hmac secret (firstMD G md MDTenantID) (firstMD G md MDUserID)
      (firstMD G md MDUsername) (firstMD G md MDRoles) e'"
    unfolding verify_iff by blast
  let ?m = "canonicalClaimMessage (firstMD G md MDTenantID) (firstMD G md MDUserID)
      (firstMD G md MDUsername) (firstMD G md MDRoles) e'"
  have h: "hmac secret ?m = hmac secret (canonicalClaimMessage t u n r e)"
    using e'(3) assms(2) by (auto simp: SignClaims_def dest: hex_inj)
  show ?thesis
  proof (cases "?m = canonicalClaimMessage t u n r e")
    case True
    then show ?thesis using canonical_inj[OF _ assms(3) True] assms(4) e' by (auto simp: signedClaimKeys_def)
  next
    case False
    then show ?thesis using h by blast
  qed
qed

theorem signature_binds_claims_witness:
  "(firstMD alist_md demo_signed MDTenantID = ''1'' \<and> firstMD alist_md demo_signed MDUserID = ''7'' \<and>
      firstMD alist_md demo_signed MDUsername = ''ann'' \<and> firstMD alist_md demo_signed MDRoles = ''super:admin'' \<and>
      ParseInt 64 (firstMD alist_md demo_signed MDClaimsExp) = Some 9 \<and> 5 \<le> (9 :: int)) \<or>
    (\<exists>m. m \<noteq> canonicalClaimMessage ''1'' ''7'' ''ann'' ''super:admin'' 9 \<and>
      demo_mac (bytes_of_string ''key'') m =
        demo_mac (bytes_of_string ''key'') (canonicalClaimMessage ''1'' ''7'' ''ann'' ''super:admin'' 9))"
  by (rule signature_binds_claims[OF demo_verifies]) (simp_all add: demo_signed_first signedClaimKeys_def)

text \<open>
  \<open>signed_claims_accepted\<close>: what the gateway signs a module accepts.  Metadata that carries
  the signature and the decimal expiry of its own claims verifies under the same non-empty secret
  until the expiry has passed, and not afterwards.
\<close>

theorem signed_claims_accepted:
  assumes "secret \<noteq> []" and "hmac secret (canonicalClaimMessage t u n r e) \<noteq> []"
    and "- (2 ^ 63) \<le> e" and "e < 2 ^ 63"
    and "firstMD G md MDTenantID = t" and "firstMD G md MDUserID = u"
    and "firstMD G md MDUsername = n" and "firstMD G md MDRoles = r"
    and "firstMD G md MDClaimsExp = FormatInt e" and "firstMD G md MDClaimsSig = SignClaims hmac secret t u n r e"
  shows "VerifyClaimsSignature G hmac md secret now \<longleftrightarrow> now \<le> e"
proof -
  have "SignClaims hmac secret t u n r e \<noteq> []"
    using assms(2) by (cases "hmac secret (canonicalClaimMessage t u n r e)")
      (simp_all add: SignClaims_def hex_EncodeToString_def)
  moreover have "ParseInt 64 (FormatInt e) = Some e" using ParseInt_FormatInt[of 64 e] assms(3,4) by simp
  ultimately show ?thesis using assms by (auto simp: verify_iff)
qed

theorem signed_claims_accepted_witness:
  "VerifyClaimsSignature alist_md demo_mac demo_signed (bytes_of_string ''key'') 9 \<and>
   \<not> VerifyClaimsSignature alist_md demo_mac demo_signed (bytes_of_string ''key'') 10"
proof -
  have "VerifyClaimsSignature alist_md demo_mac demo_signed (bytes_of_string ''key'') now \<longleftrightarrow> now \<le> 9" for now
    by (rule signed_claims_accepted[of _ _ "''1''" "''7''" "''ann''" "''super:admin''"])
      (simp_all add: demo_signed_first demo_mac_def bytes_of_string_def)
  then show ?thesis by simp
qed

end
