(* ===== verification/Mtls.thy ===== *)
theory Mtls
  imports Metadata
begin

text \<open>
  Mutual-TLS authentication, after \<^verbatim>\<open>middleware/mtls/middleware.go\<close> and
  \<^verbatim>\<open>middleware/mtls/context.go\<close>.

  A certificate carries the fields the code reads; the printed form of a distinguished name is
  one of them.  Times are points on the time line, \<open>now\<close> is the reading of the clock.
  \<open>*ClientInfo\<close> is an address into a heap, because \<open>SetTenantIDInPlace\<close> writes through the
  pointer that outer middleware holds as well.  Log output is not modelled.
\<close>

section \<open>Certificates, peers and contexts\<close>

record Name =
  nm_String :: string
  nm_CommonName :: string
  nm_Organization :: "string list"
  nm_OrganizationalUnit :: "string list"

record Certificate =
  ce_Subject :: Name
  ce_Issuer :: Name
  ce_SerialNumber :: int
  ce_NotBefore :: int
  ce_NotAfter :: int

datatype AuthInfo = NoAuthInfo | TLSInfo "Certificate list" | OtherAuthInfo

record Peer =
  pe_Addr :: "string option"
  pe_AuthInfo :: AuthInfo

record ClientInfo =
  ci_Certificate :: "Certificate option"
  ci_Subject :: string
  ci_Issuer :: string
  ci_SerialNumber :: string
  ci_CommonName :: string
  ci_Organizations :: "string list"
  ci_NotBefore :: int
  ci_NotAfter :: int
  ci_IsAuthenticated :: bool
  ci_TenantID :: u32

text \<open>The zero value, for \<open>&ClientInfo{TenantID: tenantID}\<close>.\<close>

definition ClientInfo_zero :: ClientInfo where
  "ClientInfo_zero = \<lparr>ci_Certificate = None, ci_Subject = [], ci_Issuer = [], ci_SerialNumber = [],
     ci_CommonName = [], ci_Organizations = [], ci_NotBefore = 0, ci_NotAfter = 0,
     ci_IsAuthenticated = False, ci_TenantID = 0\<rparr>"

text \<open>
  A heap is the list of allocated \<open>ClientInfo\<close> cells; the address of a cell is its position.
  The value under \<open>ClientInfoKey\<close> is absent, a nil pointer or an address.
\<close>

type_synonym heap = "ClientInfo list"

record server_ctx =
  sc_Operation :: "string option"
  sc_Peer :: "Peer option"
  sc_ClientInfo :: "nat option option"

definition alloc :: "ClientInfo \<Rightarrow> heap \<Rightarrow> nat \<times> heap" where
  "alloc ci h = (length h, h @ [ci])"

section \<open>The context\<close>

definition GetClientInfoFromContext :: "('a server_ctx_scheme) \<Rightarrow> nat option" where
  "GetClientInfoFromContext ctx = (case sc_ClientInfo ctx of Some (Some p) \<Rightarrow> Some p | _ \<Rightarrow> None)"

definition deref :: "heap \<Rightarrow> nat \<Rightarrow> ClientInfo" where
  "deref h p = (if p < length h then h ! p else ClientInfo_zero)"

definition GetClientCertificateFromContext :: "heap \<Rightarrow> ('a server_ctx_scheme) \<Rightarrow> Certificate option" where
  "GetClientCertificateFromContext h ctx =
     (case GetClientInfoFromContext ctx of None \<Rightarrow> None | Some p \<Rightarrow> ci_Certificate (deref h p))"

definition IsClientAuthenticated :: "heap \<Rightarrow> ('a server_ctx_scheme) \<Rightarrow> bool" where
  "IsClientAuthenticated h ctx =
     (case GetClientInfoFromContext ctx of None \<Rightarrow> False | Some p \<Rightarrow> ci_IsAuthenticated (deref h p))"

definition GetClientID :: "heap \<Rightarrow> ('a server_ctx_scheme) \<Rightarrow> string" where
  "GetClientID h ctx =
     (case GetClientInfoFromContext ctx of
        None \<Rightarrow> []
      | Some p \<Rightarrow> if ci_CommonName (deref h p) \<noteq> [] then ci_CommonName (deref h p) else [])"

definition GetTenantID :: "heap \<Rightarrow> ('a server_ctx_scheme) \<Rightarrow> u32" where
  "GetTenantID h ctx =
     (case GetClientInfoFromContext ctx of None \<Rightarrow> 0 | Some p \<Rightarrow> ci_TenantID (deref h p))"

definition SetClientInfoInContext :: "('a server_ctx_scheme) \<Rightarrow> nat option \<Rightarrow> ('a server_ctx_scheme)" where
  "SetClientInfoInContext ctx p = ctx\<lparr>sc_ClientInfo := Some p\<rparr>"

definition UpdateTenantID :: "heap \<Rightarrow> ('a server_ctx_scheme) \<Rightarrow> u32 \<Rightarrow> ('a server_ctx_scheme) \<times> heap" where
  "UpdateTenantID h ctx tenantID =
     (let updatedInfo = (case GetClientInfoFromContext ctx of
            Some p \<Rightarrow> (deref h p)\<lparr>ci_TenantID := tenantID\<rparr>
          | None \<Rightarrow> ClientInfo_zero\<lparr>ci_TenantID := tenantID\<rparr>);
          (q, h') = alloc updatedInfo h
      in (SetClientInfoInContext ctx (Some q), h'))"

definition SetTenantIDInPlace :: "heap \<Rightarrow> ('a server_ctx_scheme) \<Rightarrow> u32 \<Rightarrow> heap" where
  "SetTenantIDInPlace h ctx tenantID =
     (case GetClientInfoFromContext ctx of
        None \<Rightarrow> h
      | Some p \<Rightarrow> h[p := (deref h p)\<lparr>ci_TenantID := tenantID\<rparr>])"

section \<open>Options\<close>

definition EnvIdentityMode :: string where "EnvIdentityMode = ''MTLS_IDENTITY_MODE''"
definition EnvAllowedIdentities :: string where "EnvAllowedIdentities = ''MTLS_ALLOWED_IDENTITIES''"
definition IdentityModeOff :: string where "IdentityModeOff = ''off''"
definition IdentityModeWarn :: string where "IdentityModeWarn = ''warn''"
definition IdentityModeEnforce :: string where "IdentityModeEnforce = ''enforce''"

lemmas identity_modes_def = IdentityModeOff_def IdentityModeWarn_def IdentityModeEnforce_def

record mtls_Options =
  mo_PublicEndpoints :: "string list"
  mo_TrustedOrgs :: "string list"
  mo_TrustedOrgUnits :: "string list"
  mo_AllowedCommonNames :: "string list"
  mo_IdentityMode :: string

definition WithPublicEndpoints :: "string list \<Rightarrow> mtls_Options \<Rightarrow> mtls_Options" where
  "WithPublicEndpoints endpoints o0 = o0\<lparr>mo_PublicEndpoints := mo_PublicEndpoints o0 @ endpoints\<rparr>"

definition WithTrustedOrgs :: "string list \<Rightarrow> mtls_Options \<Rightarrow> mtls_Options" where
  "WithTrustedOrgs orgs o0 = o0\<lparr>mo_TrustedOrgs := mo_TrustedOrgs o0 @ orgs\<rparr>"

definition WithTrustedOrgUnits :: "string list \<Rightarrow> mtls_Options \<Rightarrow> mtls_Options" where
  "WithTrustedOrgUnits ous o0 = o0\<lparr>mo_TrustedOrgUnits := mo_TrustedOrgUnits o0 @ ous\<rparr>"

definition WithAllowedIdentities :: "string list \<Rightarrow> mtls_Options \<Rightarrow> mtls_Options" where
  "WithAllowedIdentities cns o0 = o0\<lparr>mo_AllowedCommonNames := mo_AllowedCommonNames o0 @ cns\<rparr>"

definition WithIdentityMode :: "string \<Rightarrow> mtls_Options \<Rightarrow> mtls_Options" where
  "WithIdentityMode mode o0 = o0\<lparr>mo_IdentityMode := mode\<rparr>"

definition mtls_defaults :: mtls_Options where
  "mtls_defaults = \<lparr>mo_PublicEndpoints = [], mo_TrustedOrgs = [''LCM''],
     mo_TrustedOrgUnits = [''LCM Certificate Authority'', ''LCM''], mo_AllowedCommonNames = [],
     mo_IdentityMode = []\<rparr>"

text \<open>The part of \<open>MTLSMiddleware\<close> that runs once: options, then the environment.\<close>

definition mtls_options :: "environ \<Rightarrow> (mtls_Options \<Rightarrow> mtls_Options) list \<Rightarrow> mtls_Options" where
  "mtls_options env opts =
     (let o1 = fold (\<lambda>opt. opt) opts mtls_defaults;
          o2 = (if mo_IdentityMode o1 = [] then o1\<lparr>mo_IdentityMode := env EnvIdentityMode\<rparr> else o1);
          o3 = (if mo_IdentityMode o2 = [] then o2\<lparr>mo_IdentityMode := IdentityModeWarn\<rparr> else o2)
      in fold (\<lambda>cn ops. let cn' = TrimSpace cn in
                 if cn' \<noteq> [] then ops\<lparr>mo_AllowedCommonNames := mo_AllowedCommonNames ops @ [cn']\<rparr> else ops)
           (Split CHR '','' (env EnvAllowedIdentities)) o3)"

section \<open>Validation\<close>

datatype cert_error = NotYetValid | Expired | NoIssuer | UntrustedIssuer string | IdentityNotAllowed string

definition isPublicEndpoint :: "string \<Rightarrow> string list \<Rightarrow> bool" where
  "isPublicEndpoint operation publicEndpoints = List.member publicEndpoints operation"

definition validateCertificateValidity :: "int \<Rightarrow> Certificate \<Rightarrow> (cert_error, unit) result" where
  "validateCertificateValidity now cert =
     (if ce_NotBefore cert > now then Inl NotYetValid
      else if ce_NotAfter cert < now then Inl Expired
      else Inr ())"

definition validateCertificateIssuer :: "Certificate \<Rightarrow> mtls_Options \<Rightarrow> (cert_error, unit) result" where
  "validateCertificateIssuer cert opts =
     (let issuerStr = nm_String (ce_Issuer cert) in
      if issuerStr = [] then Inl NoIssuer
      else if list_ex (List.member (mo_TrustedOrgUnits opts)) (nm_OrganizationalUnit (ce_Issuer cert)) then Inr ()
      else if list_ex (List.member (mo_TrustedOrgs opts)) (nm_Organization (ce_Issuer cert)) then Inr ()
      else Inl (UntrustedIssuer issuerStr))"

definition validateCertificateIdentity :: "Certificate \<Rightarrow> mtls_Options \<Rightarrow> (cert_error, unit) result" where
  "validateCertificateIdentity cert opts =
     (if length (mo_AllowedCommonNames opts) = 0 \<or> mo_IdentityMode opts = IdentityModeOff then Inr ()
      else let cn = nm_CommonName (ce_Subject cert) in
      if List.member (mo_AllowedCommonNames opts) cn then Inr ()
      else if mo_IdentityMode opts = IdentityModeEnforce then Inl (IdentityNotAllowed cn)
      else Inr ())"

definition extractClientInfo :: "int \<Rightarrow> Peer \<Rightarrow> mtls_Options \<Rightarrow> ClientInfo option" where
  "extractClientInfo now p opts =
     (case pe_AuthInfo p of
        NoAuthInfo \<Rightarrow> None
      | OtherAuthInfo \<Rightarrow> None
      | TLSInfo certs \<Rightarrow>
          (case certs of
             [] \<Rightarrow> None
           | clientCert # _ \<Rightarrow>
               let clientInfo = \<lparr>ci_Certificate = Some clientCert,
                     ci_Subject = nm_String (ce_Subject clientCert),
                     ci_Issuer = nm_String (ce_Issuer clientCert),
                     ci_SerialNumber = FormatInt (ce_SerialNumber clientCert),
                     ci_CommonName = nm_CommonName (ce_Subject clientCert),
                     ci_Organizations = nm_Organization (ce_Subject clientCert),
                     ci_NotBefore = ce_NotBefore clientCert, ci_NotAfter = ce_NotAfter clientCert,
                     ci_IsAuthenticated = False, ci_TenantID = 0\<rparr>
               in case validateCertificateValidity now clientCert of
                    Inl _ \<Rightarrow> Some clientInfo
                  | Inr _ \<Rightarrow>
                 (case validateCertificateIssuer clientCert opts of
                    Inl _ \<Rightarrow> Some clientInfo
                  | Inr _ \<Rightarrow>
                 (case validateCertificateIdentity clientCert opts of
                    Inl _ \<Rightarrow> Some clientInfo
                  | Inr _ \<Rightarrow> Some (clientInfo\<lparr>ci_IsAuthenticated := True\<rparr>)))))"

section \<open>The middleware\<close>

text \<open>Code 16 is \<open>codes.Unauthenticated\<close>.\<close>

datatype 'e rpc_error = Status nat string | HandlerError 'e

definition Unauthenticated :: nat where "Unauthenticated = 16"

definition msg_no_peer :: string where "msg_no_peer = ''failed to get peer information''"
definition msg_cert_required :: string where
  "msg_cert_required = ''client certificate required for this endpoint''"

text \<open>A typed nil pointer stored in the context is \<open>Some None\<close>.\<close>

definition alloc_info :: "ClientInfo option \<Rightarrow> heap \<Rightarrow> nat option \<times> heap" where
  "alloc_info info h = (case info of None \<Rightarrow> (None, h) | Some ci \<Rightarrow> (let (p, h') = alloc ci h in (Some p, h')))"

definition MTLSMiddleware :: "environ \<Rightarrow> (mtls_Options \<Rightarrow> mtls_Options) list \<Rightarrow> int
    \<Rightarrow> (heap \<times> ('a server_ctx_scheme) \<Rightarrow> 'req \<Rightarrow> ('e rpc_error, 'resp) result \<times> heap)
    \<Rightarrow> heap \<times> ('a server_ctx_scheme) \<Rightarrow> 'req \<Rightarrow> ('e rpc_error, 'resp) result \<times> heap" where
  "MTLSMiddleware env opts now handler hc req =
     (let (h, ctx) = hc; options = mtls_options env opts in
      case sc_Operation ctx of
        None \<Rightarrow> handler (h, ctx) req
      | Some operation \<Rightarrow>
          (case sc_Peer ctx of
             None \<Rightarrow> (Inl (Status Unauthenticated msg_no_peer), h)
           | Some p \<Rightarrow>
               let (clientInfo, h') = alloc_info (extractClientInfo now p options) h in
               if isPublicEndpoint operation (mo_PublicEndpoints options) then
                 handler (h', SetClientInfoInContext ctx clientInfo) req
               else case clientInfo of
                 None \<Rightarrow> (Inl (Status Unauthenticated msg_cert_required), h')
               | Some q \<Rightarrow>
                   if \<not> ci_IsAuthenticated (deref h' q)
                   then (Inl (Status Unauthenticated msg_cert_required), h')
                   else handler (h', SetClientInfoInContext ctx (Some q)) req))"

datatype ext_error = NoClientCert

definition ExtractClientCertificate :: "heap \<Rightarrow> ('a server_ctx_scheme) \<Rightarrow> (ext_error, Certificate) result" where
  "ExtractClientCertificate h ctx =
     (case GetClientCertificateFromContext h ctx of Some cert \<Rightarrow> Inr cert | None \<Rightarrow> Inl NoClientCert)"

section \<open>What authentication means\<close>

text \<open>
  The specification: the peer presented a leaf certificate that is inside its validity period,
  whose issuer is trusted by unit or organisation, and whose common name passes the allow-list
  when one is configured and enforced.
\<close>

definition identity_ok :: "mtls_Options \<Rightarrow> string \<Rightarrow> bool" where
  "identity_ok opts cn \<longleftrightarrow> mo_AllowedCommonNames opts = [] \<or> mo_IdentityMode opts \<noteq> IdentityModeEnforce \<or>
     cn \<in> set (mo_AllowedCommonNames opts)"

definition cert_ok :: "mtls_Options \<Rightarrow> int \<Rightarrow> Certificate \<Rightarrow> bool" where
  "cert_ok opts now c \<longleftrightarrow> ce_NotBefore c \<le> now \<and> now \<le> ce_NotAfter c \<and> nm_String (ce_Issuer c) \<noteq> [] \<and>
     (set (nm_OrganizationalUnit (ce_Issuer c)) \<inter> set (mo_TrustedOrgUnits opts) \<noteq> {} \<or>
      set (nm_Organization (ce_Issuer c)) \<inter> set (mo_TrustedOrgs opts) \<noteq> {}) \<and>
     identity_ok opts (nm_CommonName (ce_Subject c))"

lemma validity_ok: "is_ok (validateCertificateValidity now c) \<longleftrightarrow> ce_NotBefore c \<le> now \<and> now \<le> ce_NotAfter c"
  by (auto simp: validateCertificateValidity_def)

lemma issuer_ok: "is_ok (validateCertificateIssuer c opts) \<longleftrightarrow> nm_String (ce_Issuer c) \<noteq> [] \<and>
     (set (nm_OrganizationalUnit (ce_Issuer c)) \<inter> set (mo_TrustedOrgUnits opts) \<noteq> {} \<or>
      set (nm_Organization (ce_Issuer c)) \<inter> set (mo_TrustedOrgs opts) \<noteq> {})"
  by (auto simp: validateCertificateIssuer_def Let_def list_ex_iff List.member_iff)

lemma identity_ok_iff:
  "is_ok (validateCertificateIdentity c opts) \<longleftrightarrow> identity_ok opts (nm_CommonName (ce_Subject c))"
  by (auto simp: validateCertificateIdentity_def identity_ok_def Let_def identity_modes_def List.member_iff)

lemma cert_ok_validations: "cert_ok opts now c \<longleftrightarrow> is_ok (validateCertificateValidity now c) \<and>
    is_ok (validateCertificateIssuer c opts) \<and> is_ok (validateCertificateIdentity c opts)"
  unfolding cert_ok_def validity_ok issuer_ok identity_ok_iff by simp

lemma extract_authenticated:
  assumes "extractClientInfo now p opts = Some ci"
  shows "\<exists>c cs. pe_AuthInfo p = TLSInfo (c # cs) \<and> ci_Certificate ci = Some c \<and>
    ci_CommonName ci = nm_CommonName (ce_Subject c) \<and> ci_TenantID ci = 0 \<and>
    (ci_IsAuthenticated ci \<longleftrightarrow> cert_ok opts now c)"
proof -
  obtain c cs where p: "pe_AuthInfo p = TLSInfo (c # cs)"
    using assms by (auto simp: extractClientInfo_def split: AuthInfo.splits list.splits)
  show ?thesis
    using assms unfolding extractClientInfo_def p cert_ok_validations
    by (cases "validateCertificateValidity now c"; cases "validateCertificateIssuer c opts";
        cases "validateCertificateIdentity c opts"; auto simp: Let_def)
qed

lemma extract_Some: "pe_AuthInfo p = TLSInfo (c # cs) \<Longrightarrow> extractClientInfo now p opts \<noteq> None"
  by (auto simp: extractClientInfo_def Let_def split: sum.splits)

section \<open>The middleware as a gate\<close>

definition mtls_admit :: "mtls_Options \<Rightarrow> int \<Rightarrow> heap \<times> ('a server_ctx_scheme)
    \<Rightarrow> (('e rpc_error, 'resp) result \<times> heap) + (heap \<times> ('a server_ctx_scheme))" where
  "mtls_admit options now hc =
     (case sc_Operation (snd hc) of
        None \<Rightarrow> Inr hc
      | Some operation \<Rightarrow>
          (case sc_Peer (snd hc) of
             None \<Rightarrow> Inl (Inl (Status Unauthenticated msg_no_peer), fst hc)
           | Some p \<Rightarrow>
               let (ci, h') = alloc_info (extractClientInfo now p options) (fst hc) in
               if operation \<in> set (mo_PublicEndpoints options) \<or>
                  (\<exists>q. ci = Some q \<and> ci_IsAuthenticated (deref h' q))
               then Inr (h', SetClientInfoInContext (snd hc) ci)
               else Inl (Inl (Status Unauthenticated msg_cert_required), h')))"

interpretation mtls_gate: gate_middleware "MTLSMiddleware env opts now" "mtls_admit (mtls_options env opts) now"
  by unfold_locales
    (auto simp: MTLSMiddleware_def mtls_admit_def Let_def isPublicEndpoint_def List.member_iff
      split: option.split prod.split)

lemma deref_alloc [simp]: "deref (h @ [ci]) (length h) = ci"
  by (simp add: deref_def)

lemma mtls_admitted:
  assumes "mtls_admit options now (h, ctx) = Inr (h', ctx')" and "sc_Operation ctx = Some operation"
    and "operation \<notin> set (mo_PublicEndpoints options)"
  shows "\<exists>p c cs. sc_Peer ctx = Some p \<and> pe_AuthInfo p = TLSInfo (c # cs) \<and> cert_ok options now c \<and>
    IsClientAuthenticated h' ctx' \<and> GetClientCertificateFromContext h' ctx' = Some c \<and>
    GetClientID h' ctx' = nm_CommonName (ce_Subject c) \<and> GetTenantID h' ctx' = 0"
proof -
  obtain p where p: "sc_Peer ctx = Some p" using assms(1,2) by (auto simp: mtls_admit_def split: option.splits)
  obtain ci where ci: "extractClientInfo now p options = Some ci" "ci_IsAuthenticated ci"
    "h' = h @ [ci]" "ctx' = SetClientInfoInContext ctx (Some (length h))"
    using assms p by (auto simp: mtls_admit_def alloc_info_def alloc_def split: option.splits if_splits)
  from extract_authenticated[OF ci(1)] show ?thesis
    using p ci(2) by (auto simp: ci(3,4) IsClientAuthenticated_def GetClientInfoFromContext_def
        SetClientInfoInContext_def GetClientCertificateFromContext_def GetClientID_def GetTenantID_def)
qed

section \<open>Properties\<close>

text \<open>
  C5 (\<open>protected_endpoint_authenticated\<close>): on an operation that is not public, the middleware
  answers every handler alike with an \<open>Unauthenticated\<close> status, or it runs the handler with a
  context that authenticates the peer's leaf certificate: the certificate is within its validity
  period, was issued by a trusted unit or organisation and passes an enforced allow-list, and
  the context reports it, its common name and tenant 0.
\<close>

theorem protected_endpoint_authenticated:
  assumes "sc_Operation ctx = Some operation"
    and "operation \<notin> set (mo_PublicEndpoints (mtls_options env opts))"
  shows "(\<exists>msg h'. \<forall>handler :: heap \<times> 'a server_ctx_scheme \<Rightarrow> 'req \<Rightarrow> ('e rpc_error, 'r) result \<times> heap. MTLSMiddleware env opts now handler (h, ctx) req = (Inl (Status Unauthenticated msg), h')) \<or>
    (\<exists>h' ctx' p c cs. (\<forall>handler :: heap \<times> 'a server_ctx_scheme \<Rightarrow> 'req \<Rightarrow> ('e rpc_error, 'r) result \<times> heap. MTLSMiddleware env opts now handler (h, ctx) req = handler (h', ctx') req) \<and>
       sc_Peer ctx = Some p \<and> pe_AuthInfo p = TLSInfo (c # cs) \<and> cert_ok (mtls_options env opts) now c \<and>
       IsClientAuthenticated h' ctx' \<and> GetClientCertificateFromContext h' ctx' = Some c \<and>
       GetClientID h' ctx' = nm_CommonName (ce_Subject c) \<and> GetTenantID h' ctx' = 0)"
proof (cases "mtls_admit (mtls_options env opts) now (h, ctx) :: (('e rpc_error, 'r) result \<times> heap) + _")
  case (Inl r)
  then have "\<exists>msg h'. r = (Inl (Status Unauthenticated msg), h')"
    by (auto simp: mtls_admit_def split: option.splits if_splits prod.splits)
  then show ?thesis using mtls_gate.rejected[OF Inl] by metis
next
  case (Inr hc)
  obtain h' ctx' where hc: "hc = (h', ctx')" by (cases hc)
  have "\<forall>handler :: heap \<times> 'a server_ctx_scheme \<Rightarrow> 'req \<Rightarrow> ('e rpc_error, 'r) result \<times> heap.
      MTLSMiddleware env opts now handler (h, ctx) req = handler (h', ctx') req"
    by (simp add: mtls_gate.admitted[OF Inr] hc)
  moreover note mtls_admitted[OF Inr[unfolded hc] assms]
  ultimately show ?thesis by blast
qed

text \<open>
  \<open>valid_certificate_admitted\<close>: the converse.  A peer whose leaf certificate passes the
  checks reaches the handler on every operation.
\<close>

theorem valid_certificate_admitted:
  assumes "sc_Peer ctx = Some p" and "pe_AuthInfo p = TLSInfo (c # cs)" and "cert_ok (mtls_options env opts) now c"
  shows "\<exists>h' ctx'. \<forall>handler :: heap \<times> 'a server_ctx_scheme \<Rightarrow> 'req \<Rightarrow> ('e rpc_error, 'r) result \<times> heap. MTLSMiddleware env opts now handler (h, ctx) req = handler (h', ctx') req"
proof -
  obtain ci where ci: "extractClientInfo now p (mtls_options env opts) = Some ci"
    using extract_Some[OF assms(2)] by blast
  then have "ci_IsAuthenticated ci" using extract_authenticated[OF ci] assms(2,3) by auto
  then have "\<exists>hc'. (mtls_admit (mtls_options env opts) now (h, ctx) :: (('e rpc_error, 'r) result \<times> heap) + _) = Inr hc'"
    using assms(1) ci by (auto simp: mtls_admit_def alloc_info_def alloc_def split: option.splits)
  then show ?thesis using mtls_gate.admitted by (metis surj_pair)
qed

text \<open>
  \<open>tenant_update_visibility\<close>: who sees a tenant update.  \<open>SetTenantIDInPlace\<close> is seen through
  every context that holds the same pointer, the one of outer middleware included, and through no
  context that holds another; \<open>UpdateTenantID\<close> is seen through the context it returns and through no
  context that existed before.
\<close>

theorem tenant_update_visibility:
  assumes "GetClientInfoFromContext ctx = Some p" and "p < length h"
    and "GetClientInfoFromContext outer = Some q" and "q < length h"
    and "UpdateTenantID h ctx t = (ctx', h')"
  shows "GetTenantID (SetTenantIDInPlace h ctx t) outer = (if q = p then t else GetTenantID h outer) \<and>
    GetTenantID h' ctx' = t \<and> GetTenantID h' outer = GetTenantID h outer \<and>
    GetClientID h' ctx' = GetClientID h ctx \<and> IsClientAuthenticated h' ctx' = IsClientAuthenticated h ctx"
proof -
  have u: "ctx' = SetClientInfoInContext ctx (Some (length h))" "h' = h @ [(deref h p)\<lparr>ci_TenantID := t\<rparr>]"
    using assms(1,5) by (simp_all add: UpdateTenantID_def alloc_def Let_def)
  have d: "deref h' q = deref h q" using assms(4) u(2) by (simp add: deref_def nth_append)
  have g: "GetClientInfoFromContext ctx' = Some (length h)"
    by (simp add: u(1) GetClientInfoFromContext_def SetClientInfoInContext_def)
  have "deref (SetTenantIDInPlace h ctx t) q =
      (if q = p then (deref h p)\<lparr>ci_TenantID := t\<rparr> else deref h q)"
    using assms by (auto simp: SetTenantIDInPlace_def deref_def)
  then show ?thesis using assms(1,3) d g u(2)
    by (simp add: GetTenantID_def GetClientID_def IsClientAuthenticated_def)
qed

text \<open>An example certificate, peer and heap.\<close>

definition demo_cert :: Certificate where
  "demo_cert = \<lparr>ce_Subject = \<lparr>nm_String = ''CN=lcm-gw'', nm_CommonName = ''lcm-gw'', nm_Organization = [], nm_OrganizationalUnit = []\<rparr>,
     ce_Issuer = \<lparr>nm_String = ''O=LCM'', nm_CommonName = [], nm_Organization = [''LCM''], nm_OrganizationalUnit = []\<rparr>,
     ce_SerialNumber = 1, ce_NotBefore = 0, ce_NotAfter = 10\<rparr>"

definition demo_peer :: Peer where
  "demo_peer = \<lparr>pe_Addr = Some ''10.0.0.1:5000'', pe_AuthInfo = TLSInfo [demo_cert]\<rparr>"

definition demo_ctx :: server_ctx where
  "demo_ctx = \<lparr>sc_Operation = Some ''/svc/Get'',  sc_Peer = Some demo_peer, sc_ClientInfo = Some (Some 0)\<rparr>"

definition no_env :: environ where "no_env v = []"

lemma demo_mtls_options: "mtls_options no_env [] = mtls_defaults\<lparr>mo_IdentityMode := IdentityModeWarn\<rparr>"
  by (simp add: mtls_options_def no_env_def mtls_defaults_def TrimSpace_def identity_modes_def)

lemma demo_cert_ok: "cert_ok (mtls_options no_env []) 5 demo_cert"
  by (simp add: demo_mtls_options cert_ok_def demo_cert_def mtls_defaults_def identity_ok_def)

theorem protected_endpoint_authenticated_witness:
  "(\<exists>msg h'. \<forall>handler :: heap \<times> server_ctx \<Rightarrow> unit \<Rightarrow> (unit rpc_error, unit) result \<times> heap.
      MTLSMiddleware no_env [] 5 handler ([], demo_ctx) () = (Inl (Status Unauthenticated msg), h')) \<or>
    (\<exists>h' ctx' p c cs. (\<forall>handler :: heap \<times> server_ctx \<Rightarrow> unit \<Rightarrow> (unit rpc_error, unit) result \<times> heap.
         MTLSMiddleware no_env [] 5 handler ([], demo_ctx) () = handler (h', ctx') ()) \<and>
       sc_Peer demo_ctx = Some p \<and> pe_AuthInfo p = TLSInfo (c # cs) \<and> cert_ok (mtls_options no_env []) 5 c \<and>
       IsClientAuthenticated h' ctx' \<and> GetClientCertificateFromContext h' ctx' = Some c \<and>
       GetClientID h' ctx' = nm_CommonName (ce_Subject c) \<and> GetTenantID h' ctx' = 0)"
  by (rule protected_endpoint_authenticated[of _ "''/svc/Get''"])
    (simp_all add: demo_ctx_def demo_mtls_options mtls_defaults_def)

theorem valid_certificate_admitted_witness:
  "\<exists>h' ctx'. \<forall>handler :: heap \<times> server_ctx \<Rightarrow> unit \<Rightarrow> (unit rpc_error, unit) result \<times> heap.
     MTLSMiddleware no_env [] 5 handler ([], demo_ctx) () = handler (h', ctx') ()"
  by (rule valid_certificate_admitted[OF _ _ demo_cert_ok, of _ demo_peer "[]"])
    (simp_all add: demo_ctx_def demo_peer_def)

theorem tenant_update_visibility_witness:
  "GetTenantID (SetTenantIDInPlace [ClientInfo_zero] demo_ctx 3) demo_ctx = 3 \<and>
   GetTenantID (snd (UpdateTenantID [ClientInfo_zero] demo_ctx 3)) demo_ctx = 0"
proof -
  obtain c' h' where u: "UpdateTenantID [ClientInfo_zero] demo_ctx 3 = (c', h')" by (metis surj_pair)
  have g: "GetClientInfoFromContext demo_ctx = Some 0" by (simp add: demo_ctx_def GetClientInfoFromContext_def)
  have "GetTenantID [ClientInfo_zero] demo_ctx = 0"
    by (simp add: GetTenantID_def g deref_def ClientInfo_zero_def)
  then show ?thesis using tenant_update_visibility[OF g _ g _ u] u by simp
qed

end
