(* ===== verification/AuditTrail.thy ===== *)
theory AuditTrail
  imports Claims Mtls
begin

text \<open>
  Audit logging, after \<^verbatim>\<open>middleware/audit\<close>: the log record, its hash and ECDSA signature with
  the hand-written DER codec, the middleware and the writers.

  SHA-256, ECDSA and \<open>encoding/json\<close> are fields of the record \<open>audit_api\<close>, an argument of the
  definitions that use them; so are the error decoder of Kratos and the UUID, clock and random
  source of a request.  A writer is a function on the state \<open>'w\<close> of whatever it writes to.
\<close>

unbundle bit_operations_syntax

section \<open>Log records\<close>

record GeoLocation =
  geo_CountryCode :: string
  geo_Province :: string
  geo_City :: string
  geo_ISP :: string

record AuditLog =
  al_ID :: string
  al_RequestID :: string
  al_Timestamp :: int
  al_LatencyMs :: int
  al_Operation :: string
  al_ServiceName :: string
  al_ClientID :: string
  al_ClientCommonName :: string
  al_ClientOrganization :: string
  al_ClientSerialNumber :: string
  al_IsAuthenticated :: bool
  al_TenantID :: u32
  al_Success :: bool
  al_ErrorCode :: int
  al_ErrorMessage :: string
  al_PeerAddress :: string
  al_GeoLocation :: "GeoLocation option"
  al_LogHash :: string
  al_Signature :: "byte list option"
  al_Metadata :: "string \<rightharpoonup> string"

record SignContent =
  sg_TenantID :: u32
  sg_ClientID :: string
  sg_Operation :: string
  sg_Timestamp :: int
  sg_LogHash :: string

record AuditLogEntry =
  ae_AuditID :: string
  ae_RequestID :: string
  ae_TenantID :: u32
  ae_Operation :: string
  ae_ServiceName :: string
  ae_ClientID :: string
  ae_ClientCommonName :: string
  ae_ClientOrganization :: string
  ae_ClientSerialNumber :: string
  ae_IsAuthenticated :: bool
  ae_Success :: bool
  ae_ErrorCode :: int
  ae_ErrorMessage :: string
  ae_LatencyMs :: int
  ae_PeerAddress :: string
  ae_GeoLocation :: "string \<rightharpoonup> string"
  ae_LogHash :: string
  ae_Signature :: "byte list option"
  ae_Metadata :: "string \<rightharpoonup> string"
  ae_Timestamp :: int

text \<open>A nil map reads like an empty one.\<close>

definition ToEntry :: "AuditLog \<Rightarrow> AuditLogEntry" where
  "ToEntry a =
     \<lparr>ae_AuditID = al_ID a, ae_RequestID = al_RequestID a, ae_TenantID = al_TenantID a,
      ae_Operation = al_Operation a, ae_ServiceName = al_ServiceName a, ae_ClientID = al_ClientID a,
      ae_ClientCommonName = al_ClientCommonName a, ae_ClientOrganization = al_ClientOrganization a,
      ae_ClientSerialNumber = al_ClientSerialNumber a, ae_IsAuthenticated = al_IsAuthenticated a,
      ae_Success = al_Success a, ae_ErrorCode = al_ErrorCode a, ae_ErrorMessage = al_ErrorMessage a,
      ae_LatencyMs = al_LatencyMs a, ae_PeerAddress = al_PeerAddress a,
      ae_GeoLocation = (case al_GeoLocation a of
          None \<Rightarrow> Map.empty
        | Some g \<Rightarrow> [''country_code'' \<mapsto> geo_CountryCode g, ''province'' \<mapsto> geo_Province g,
                     ''city'' \<mapsto> geo_City g, ''isp'' \<mapsto> geo_ISP g]),
      ae_LogHash = al_LogHash a, ae_Signature = al_Signature a, ae_Metadata = al_Metadata a,
      ae_Timestamp = al_Timestamp a\<rparr>"

section \<open>DER\<close>

text \<open>\<open>big.Int.Bytes\<close> (minimal big-endian) and \<open>big.Int.SetBytes\<close>.\<close>

fun big_Bytes :: "nat \<Rightarrow> byte list" where
  "big_Bytes n = (if n = 0 then [] else big_Bytes (n div 256) @ [word_of_nat (n mod 256)])"

declare big_Bytes.simps [simp del]

definition big_SetBytes :: "byte list \<Rightarrow> nat" where
  "big_SetBytes bs = fold (\<lambda>b n. n * 256 + unat b) bs 0"

definition der_pad :: "byte list \<Rightarrow> byte list" where
  "der_pad bs = (if length bs > 0 \<and> (bs ! 0) AND 0x80 \<noteq> 0 then 0x00 # bs else bs)"

definition EncodeDER :: "nat \<Rightarrow> nat \<Rightarrow> byte list" where
  "EncodeDER r s =
     (let rBytes = der_pad (big_Bytes r); sBytes = der_pad (big_Bytes s) in
      [0x30, word_of_nat (2 + length rBytes + 2 + length sBytes)] @
      [0x02, word_of_nat (length rBytes)] @ rBytes @
      [0x02, word_of_nat (length sBytes)] @ sBytes)"

datatype der_error = DerTooShort | NoSequenceTag | DerLengthMismatch | NoIntegerTagR | RLengthMismatch
  | TooShortForS | NoIntegerTagS | SLengthMismatch

definition DecodeDER :: "byte list \<Rightarrow> (der_error, nat \<times> nat) result" where
  "DecodeDER der =
     (if length der < 8 then Inl DerTooShort
      else if der ! 0 \<noteq> 0x30 then Inl NoSequenceTag
      else let totalLen = unat (der ! 1) in
      if length der < 2 + totalLen then Inl DerLengthMismatch
      else if der ! 2 \<noteq> 0x02 then Inl NoIntegerTagR
      else let rLen = unat (der ! 3) in
      if length der < 4 + rLen then Inl RLengthMismatch
      else let r = big_SetBytes (take rLen (drop 4 der)); sOffset = 4 + rLen in
      if length der < sOffset + 2 then Inl TooShortForS
      else if der ! sOffset \<noteq> 0x02 then Inl NoIntegerTagS
      else let sLen = unat (der ! (sOffset + 1)) in
      if length der < sOffset + 2 + sLen then Inl SLengthMismatch
      else Inr (r, big_SetBytes (take sLen (drop (sOffset + 2) der))))"

section \<open>Hashing and signing\<close>

text \<open>
  \<open>rng\<close> is the state of the random source a signature or key generation draws from.
\<close>

record ('priv, 'pub, 'rng, 'err) audit_api =
  sha256 :: "byte list \<Rightarrow> byte list"
  json_AuditLog :: "AuditLog \<Rightarrow> byte list option"
  json_SignContent :: "SignContent \<Rightarrow> byte list option"
  ecdsa_Sign :: "'rng \<Rightarrow> 'priv \<Rightarrow> byte list \<Rightarrow> (nat \<times> nat) option"
  ecdsa_Verify :: "'pub \<Rightarrow> byte list \<Rightarrow> nat \<Rightarrow> nat \<Rightarrow> bool"
  ecdsa_GenerateKey :: "'rng \<Rightarrow> 'priv option"
  PublicKey :: "'priv \<Rightarrow> 'pub"
  FromError :: "'err \<Rightarrow> (int \<times> string) option"
  err_Error :: "'err \<Rightarrow> string"

datatype audit_error = NilArgument | GenerateKeyFailed | MarshalFailed | SignFailed | DecodeFailed der_error

definition GenerateECDSAKeyPair :: "('priv, 'pub, 'rng, 'err) audit_api \<Rightarrow> 'rng \<Rightarrow> (audit_error, 'priv \<times> 'pub) result" where
  "GenerateECDSAKeyPair A rng =
     (case ecdsa_GenerateKey A rng of
        None \<Rightarrow> Inl GenerateKeyFailed
      | Some privateKey \<Rightarrow> Inr (privateKey, PublicKey A privateKey))"

definition HashLog :: "('priv, 'pub, 'rng, 'err) audit_api \<Rightarrow> AuditLog option \<Rightarrow> string" where
  "HashLog A log =
     (case log of
        None \<Rightarrow> []
      | Some l \<Rightarrow>
          let logCopy = l\<lparr>al_LogHash := [], al_Signature := None\<rparr> in
          case json_AuditLog A logCopy of
            None \<Rightarrow> []
          | Some rawBytes \<Rightarrow> hex_EncodeToString (sha256 A rawBytes))"

definition sign_content :: "AuditLog \<Rightarrow> SignContent" where
  "sign_content log = \<lparr>sg_TenantID = al_TenantID log, sg_ClientID = al_ClientID log,
     sg_Operation = al_Operation log, sg_Timestamp = al_Timestamp log, sg_LogHash = al_LogHash log\<rparr>"

definition SignLog :: "('priv, 'pub, 'rng, 'err) audit_api \<Rightarrow> 'rng \<Rightarrow> AuditLog option \<Rightarrow> 'priv option
    \<Rightarrow> (audit_error, byte list) result" where
  "SignLog A rng log privateKey =
     (case (log, privateKey) of
        (Some l, Some key) \<Rightarrow>
          (case json_SignContent A (sign_content l) of
             None \<Rightarrow> Inl MarshalFailed
           | Some scBytes \<Rightarrow>
               (case ecdsa_Sign A rng key (sha256 A scBytes) of
                  None \<Rightarrow> Inl SignFailed
                | Some (r, s) \<Rightarrow> Inr (EncodeDER r s)))
      | _ \<Rightarrow> Inl NilArgument)"

definition VerifySignature :: "('priv, 'pub, 'rng, 'err) audit_api \<Rightarrow> AuditLog option \<Rightarrow> 'pub option
    \<Rightarrow> (audit_error, bool) result" where
  "VerifySignature A log publicKey =
     (case (log, publicKey) of
        (Some l, Some key) \<Rightarrow>
          (case al_Signature l of
             None \<Rightarrow> Inl NilArgument
           | Some sig \<Rightarrow>
               (case json_SignContent A (sign_content l) of
                  None \<Rightarrow> Inl MarshalFailed
                | Some scBytes \<Rightarrow>
                    (case DecodeDER sig of
                       Inl e \<Rightarrow> Inl (DecodeFailed e)
                     | Inr (r, s) \<Rightarrow> Inr (ecdsa_Verify A key (sha256 A scBytes) r s))))
      | _ \<Rightarrow> Inl NilArgument)"

definition HashString :: "('priv, 'pub, 'rng, 'err) audit_api \<Rightarrow> string \<Rightarrow> string" where
  "HashString A s = hex_EncodeToString (sha256 A (bytes_of_string s))"

section \<open>Writers and options\<close>

type_synonym ('ctx, 'w, 'err) WriteAuditLogFunc = "'ctx \<Rightarrow> AuditLog \<Rightarrow> 'w \<Rightarrow> 'err option \<times> 'w"

definition NewDatabaseWriter :: "('ctx \<Rightarrow> AuditLogEntry \<Rightarrow> 'w \<Rightarrow> 'err option \<times> 'w) option
    \<Rightarrow> ('ctx, 'w, 'err) WriteAuditLogFunc" where
  "NewDatabaseWriter repo ctx log w =
     (case repo of None \<Rightarrow> (None, w) | Some CreateFromEntry \<Rightarrow> CreateFromEntry ctx (ToEntry log) w)"

definition CombinedWriter :: "('ctx, 'w, 'err) WriteAuditLogFunc option list \<Rightarrow> ('ctx, 'w, 'err) WriteAuditLogFunc" where
  "CombinedWriter writers ctx log w =
     fold (\<lambda>wr (lastErr, w). case wr of
         None \<Rightarrow> (lastErr, w)
       | Some f \<Rightarrow> (case f ctx log w of (Some err, w') \<Rightarrow> (Some err, w') | (None, w') \<Rightarrow> (lastErr, w')))
       writers (None, w)"

definition LoggingWriter :: "('ctx, 'w, 'err) WriteAuditLogFunc" where
  "LoggingWriter ctx log w = (None, w)"

record ('ctx, 'w, 'err, 'priv, 'pub) audit_options =
  writeAuditLogFunc :: "('ctx, 'w, 'err) WriteAuditLogFunc option"
  skipOperations :: "string \<Rightarrow> bool"
  ecPrivateKey :: "'priv option"
  ecPublicKey :: "'pub option"
  serviceName :: string

definition WithWriteAuditLogFunc :: "('ctx, 'w, 'err) WriteAuditLogFunc
    \<Rightarrow> ('ctx, 'w, 'err, 'priv, 'pub) audit_options \<Rightarrow> ('ctx, 'w, 'err, 'priv, 'pub) audit_options" where
  "WithWriteAuditLogFunc fnc opts = opts\<lparr>writeAuditLogFunc := Some fnc\<rparr>"

definition WithSkipOperations :: "string list
    \<Rightarrow> ('ctx, 'w, 'err, 'priv, 'pub) audit_options \<Rightarrow> ('ctx, 'w, 'err, 'priv, 'pub) audit_options" where
  "WithSkipOperations operations opts =
     opts\<lparr>skipOperations := fold (\<lambda>x m. m(x := True)) operations (skipOperations opts)\<rparr>"

definition WithECPrivateKey :: "'priv option
    \<Rightarrow> ('ctx, 'w, 'err, 'priv, 'pub) audit_options \<Rightarrow> ('ctx, 'w, 'err, 'priv, 'pub) audit_options" where
  "WithECPrivateKey key opts = opts\<lparr>ecPrivateKey := key\<rparr>"

definition WithECPublicKey :: "'pub option
    \<Rightarrow> ('ctx, 'w, 'err, 'priv, 'pub) audit_options \<Rightarrow> ('ctx, 'w, 'err, 'priv, 'pub) audit_options" where
  "WithECPublicKey key opts = opts\<lparr>ecPublicKey := key\<rparr>"

definition WithServiceName :: "string
    \<Rightarrow> ('ctx, 'w, 'err, 'priv, 'pub) audit_options \<Rightarrow> ('ctx, 'w, 'err, 'priv, 'pub) audit_options" where
  "WithServiceName name opts = opts\<lparr>serviceName := name\<rparr>"

definition defaultServiceName :: string where "defaultServiceName = ''unknown-service''"
definition metadataKeyRequestID :: string where "metadataKeyRequestID = ''x-request-id''"

definition audit_defaults :: "string \<Rightarrow> ('ctx, 'w, 'err, 'priv, 'pub) audit_options" where
  "audit_defaults name = \<lparr>writeAuditLogFunc = None, skipOperations = (\<lambda>_. False), ecPrivateKey = None,
     ecPublicKey = None, serviceName = name\<rparr>"

definition GetPublicKey :: "(('ctx, 'w, 'err, 'priv, 'pub) audit_options \<Rightarrow> ('ctx, 'w, 'err, 'priv, 'pub) audit_options) list
    \<Rightarrow> 'pub option" where
  "GetPublicKey opts = ecPublicKey (fold (\<lambda>opt. opt) opts (audit_defaults []))"

section \<open>The middleware\<close>

definition extractIP :: "string \<Rightarrow> string" where
  "extractIP addr =
     (if addr = [] then []
      else if HasPrefix addr ''['' then
        (case Index addr '']:'' of
           Some idx \<Rightarrow> take (idx - 1) (drop 1 addr)
         | None \<Rightarrow> TrimPrefix (TrimSuffix addr '']'') ''['')
      else case SplitHostPort addr of None \<Rightarrow> addr | Some (host, _) \<Rightarrow> host)"

text \<open>What a request draws from its surroundings: a fresh id, two clock readings, randomness.\<close>

record 'rng audit_inputs =
  in_uuid :: string
  in_now :: int
  in_latencyMs :: int
  in_rng :: 'rng

text \<open>The part of \<open>Server\<close> that runs once.\<close>

definition audit_setup :: "('priv, 'pub, 'rng, 'err) audit_api \<Rightarrow> 'rng
    \<Rightarrow> (('ctx, 'w, 'err, 'priv, 'pub) audit_options \<Rightarrow> ('ctx, 'w, 'err, 'priv, 'pub) audit_options) list
    \<Rightarrow> ('ctx, 'w, 'err, 'priv, 'pub) audit_options" where
  "audit_setup A rng opts =
     (let op = fold (\<lambda>opt. opt) opts (audit_defaults defaultServiceName) in
      if ecPrivateKey op = None \<or> ecPublicKey op = None then
        (case GenerateECDSAKeyPair A rng of
           Inl _ \<Rightarrow> op\<lparr>ecPrivateKey := None, ecPublicKey := None\<rparr>
         | Inr (priv, pub) \<Rightarrow> op\<lparr>ecPrivateKey := Some priv, ecPublicKey := Some pub\<rparr>)
      else op)"

definition empty_log :: AuditLog where
  "empty_log = \<lparr>al_ID = [], al_RequestID = [], al_Timestamp = 0, al_LatencyMs = 0, al_Operation = [],
     al_ServiceName = [], al_ClientID = [], al_ClientCommonName = [], al_ClientOrganization = [],
     al_ClientSerialNumber = [], al_IsAuthenticated = False, al_TenantID = 0, al_Success = False,
     al_ErrorCode = 0, al_ErrorMessage = [], al_PeerAddress = [], al_GeoLocation = None,
     al_LogHash = [], al_Signature = None, al_Metadata = Map.empty\<rparr>"

definition log_client :: "ClientInfo option \<Rightarrow> AuditLog \<Rightarrow> AuditLog" where
  "log_client info a =
     (case info of
        None \<Rightarrow> a
      | Some ci \<Rightarrow>
          a\<lparr>al_ClientID := ci_CommonName ci, al_ClientCommonName := ci_CommonName ci,
            al_ClientSerialNumber := ci_SerialNumber ci, al_IsAuthenticated := ci_IsAuthenticated ci,
            al_TenantID := ci_TenantID ci,
            al_ClientOrganization := (if length (ci_Organizations ci) > 0
               then Join '', '' (ci_Organizations ci) else al_ClientOrganization a)\<rparr>)"

definition log_error :: "('priv, 'pub, 'rng, 'err) audit_api \<Rightarrow> 'err option \<Rightarrow> AuditLog \<Rightarrow> AuditLog" where
  "log_error A err a =
     (case err of
        None \<Rightarrow> a
      | Some e \<Rightarrow>
          (case FromError A e of
             Some (code, message) \<Rightarrow> a\<lparr>al_Success := False, al_ErrorCode := code, al_ErrorMessage := message\<rparr>
           | None \<Rightarrow> a\<lparr>al_Success := False, al_ErrorMessage := err_Error A e\<rparr>))"

definition buildAuditLog :: "('priv, 'pub, 'rng, 'err) audit_api \<Rightarrow> ('a server_ctx_scheme, 'md) grpc_md
    \<Rightarrow> 'rng audit_inputs \<Rightarrow> heap \<Rightarrow> 'a server_ctx_scheme
    \<Rightarrow> ('ctx, 'w, 'err, 'priv, 'pub) audit_options \<Rightarrow> string \<Rightarrow> 'err option \<Rightarrow> AuditLog" where
  "buildAuditLog A G inp h ctx op operation err =
     (let a1 = empty_log\<lparr>al_ID := in_uuid inp, al_Timestamp := in_now inp, al_LatencyMs := in_latencyMs inp,
                 al_Operation := operation, al_ServiceName := serviceName op, al_Success := (err = None)\<rparr>;
          a2 = (case FromIncomingContext G ctx of
                  None \<Rightarrow> a1
                | Some md \<Rightarrow> (let vals = md_Get G md metadataKeyRequestID in
                    if length vals > 0 then a1\<lparr>al_RequestID := vals ! 0\<rparr> else a1));
          a3 = log_client (map_option (deref h) (GetClientInfoFromContext ctx)) a2;
          a4 = (case sc_Peer ctx of
                  None \<Rightarrow> a3
                | Some p \<Rightarrow> (case pe_Addr p of None \<Rightarrow> a3 | Some addr \<Rightarrow> a3\<lparr>al_PeerAddress := extractIP addr\<rparr>))
      in log_error A err a4)"

text \<open>The hashed and signed record that is handed to the writer.\<close>

definition seal_log :: "('priv, 'pub, 'rng, 'err) audit_api \<Rightarrow> 'rng \<Rightarrow> 'priv option \<Rightarrow> AuditLog \<Rightarrow> AuditLog" where
  "seal_log A rng key a =
     (let a' = a\<lparr>al_LogHash := HashLog A (Some a)\<rparr> in
      if key \<noteq> None then
        (case SignLog A rng (Some a') key of Inl _ \<Rightarrow> a' | Inr sig \<Rightarrow> a'\<lparr>al_Signature := Some sig\<rparr>)
      else a')"

text \<open>
  A handler returns a reply and an error, Go style, and may change the heap and the world.
\<close>

definition audit_Server :: "('priv, 'pub, 'rng, 'err) audit_api \<Rightarrow> ('a server_ctx_scheme, 'md) grpc_md
    \<Rightarrow> ('a server_ctx_scheme, 'w, 'err, 'priv, 'pub) audit_options \<Rightarrow> 'rng audit_inputs
    \<Rightarrow> ('a server_ctx_scheme \<Rightarrow> 'req \<Rightarrow> heap \<times> 'w \<Rightarrow> ('resp \<times> 'err option) \<times> heap \<times> 'w)
    \<Rightarrow> 'a server_ctx_scheme \<Rightarrow> 'req \<Rightarrow> heap \<times> 'w \<Rightarrow> ('resp \<times> 'err option) \<times> heap \<times> 'w" where
  "audit_Server A G op inp handler ctx req st =
     (let ((reply, err), h, w) = handler ctx req st in
      case sc_Operation ctx of
        None \<Rightarrow> ((reply, err), h, w)
      | Some operation \<Rightarrow>
          if skipOperations op operation then ((reply, err), h, w)
          else let auditLog = seal_log A (in_rng inp) (ecPrivateKey op)
                     (buildAuditLog A G inp h ctx op operation err)
               in case writeAuditLogFunc op of
                    None \<Rightarrow> ((reply, err), h, w)
                  | Some wr \<Rightarrow> ((reply, err), h, snd (wr ctx auditLog w)))"

section \<open>DER: lemmas\<close>

lemma SetBytes_snoc: "big_SetBytes (bs @ [b]) = big_SetBytes bs * 256 + unat b"
  by (simp add: big_SetBytes_def)

lemma unat_byte_of_nat [simp]: "unat (word_of_nat n :: byte) = n mod 256"
  by (simp add: unat_of_nat)

lemma SetBytes_Bytes: "big_SetBytes (big_Bytes n) = n"
proof (induction n rule: big_Bytes.induct)
  case (1 n)
  then show ?case by (subst big_Bytes.simps) (auto simp: SetBytes_snoc, simp add: big_SetBytes_def)
qed

lemma SetBytes_pad: "big_SetBytes (der_pad bs) = big_SetBytes bs"
  by (simp add: der_pad_def big_SetBytes_def)

lemma length_Bytes: "n < 256 ^ k \<Longrightarrow> length (big_Bytes n) \<le> k"
proof (induction n arbitrary: k rule: big_Bytes.induct)
  case (1 n)
  show ?case
  proof (cases "n = 0")
    case True
    then show ?thesis by (simp add: big_Bytes.simps)
  next
    case False
    with 1(2) obtain j where k: "k = Suc j" by (cases k) auto
    have "n div 256 < 256 ^ j" using 1(2) k by (simp add: less_mult_imp_div_less mult.commute)
    then show ?thesis using 1(1)[OF False] k False by (subst big_Bytes.simps) simp
  qed
qed

lemma Bytes_not_Nil: "0 < n \<Longrightarrow> big_Bytes n \<noteq> []"
  by (subst big_Bytes.simps) simp

lemma length_pad: "length (der_pad bs) \<le> length bs + 1" "bs \<noteq> [] \<Longrightarrow> der_pad bs \<noteq> []"
  by (simp_all add: der_pad_def)

lemma DecodeDER_parts:
  assumes "R \<noteq> []" and "S \<noteq> []" and "length R + length S \<le> 251"
  shows "DecodeDER ([0x30, word_of_nat (2 + length R + 2 + length S)] @ [0x02, word_of_nat (length R)] @ R @
    [0x02, word_of_nat (length S)] @ S) = Inr (big_SetBytes R, big_SetBytes S)"
proof -
  let ?d = "[0x30, word_of_nat (2 + length R + 2 + length S)] @ [0x02, word_of_nat (length R)] @ R @
    [0x02, word_of_nat (length S)] @ S :: byte list"
  have l: "1 \<le> length R" "1 \<le> length S" using assms(1,2) by (simp_all add: Suc_leI)
  have n: "length ?d = 6 + length R + length S" "?d ! 0 = 0x30" "unat (?d ! 1) = 4 + length R + length S"
    "?d ! 2 = 0x02" "unat (?d ! 3) = length R" "?d ! (4 + length R) = 0x02"
    "unat (?d ! (4 + length R + 1)) = length S"
    using assms(3) by (simp_all add: nth_append del: of_nat_add of_nat_Suc)
  have t: "take (length R) (drop 4 ?d) = R" "drop (4 + length R + 2) ?d = S" by (simp_all add: numeral_eq_Suc)
  show ?thesis using l unfolding DecodeDER_def Let_def n t by simp
qed

lemma der_roundtrip_lengths:
  assumes "0 < r" and "0 < s" and "r < 256 ^ k" and "s < 256 ^ k" and "k \<le> 124"
  shows "DecodeDER (EncodeDER r s) = Inr (r, s)"
proof -
  have "length (der_pad (big_Bytes n)) \<le> 125" if "n < 256 ^ k" for n
    using length_Bytes[OF that] length_pad(1)[of "big_Bytes n"] assms(5) by linarith
  from this[OF assms(3)] this[OF assms(4)]
  have "length (der_pad (big_Bytes r)) + length (der_pad (big_Bytes s)) \<le> 251" by linarith
  then show ?thesis
    using DecodeDER_parts[of "der_pad (big_Bytes r)" "der_pad (big_Bytes s)"] assms(1,2) Bytes_not_Nil length_pad(2)
    by (simp add: EncodeDER_def Let_def SetBytes_pad SetBytes_Bytes)
qed

section \<open>The sealed log\<close>

text \<open>What \<open>crypto/ecdsa\<close> promises of P-256 signatures made with a private key.\<close>

definition ecdsa_laws :: "('priv, 'pub, 'rng, 'err) audit_api \<Rightarrow> 'priv \<Rightarrow> bool" where
  "ecdsa_laws A key \<longleftrightarrow> (\<forall>rng m r s. ecdsa_Sign A rng key m = Some (r, s) \<longrightarrow>
     0 < r \<and> r < 2 ^ 256 \<and> 0 < s \<and> s < 2 ^ 256 \<and> ecdsa_Verify A (PublicKey A key) m r s)"

lemma HashLog_frame [simp]:
  "HashLog A (Some (a\<lparr>al_LogHash := x\<rparr>)) = HashLog A (Some a)"
  "HashLog A (Some (a\<lparr>al_Signature := y\<rparr>)) = HashLog A (Some a)"
  by (simp_all add: HashLog_def)

lemma sign_content_frame [simp]: "sign_content (a\<lparr>al_Signature := y\<rparr>) = sign_content a"
  by (simp add: sign_content_def)

lemma sign_verify:
  assumes "ecdsa_laws A key" and "SignLog A rng (Some a) (Some key) = Inr sig"
  shows "VerifySignature A (Some (a\<lparr>al_Signature := Some sig\<rparr>)) (Some (PublicKey A key)) = Inr True"
proof -
  obtain sc r s where sc: "json_SignContent A (sign_content a) = Some sc"
    "ecdsa_Sign A rng key (sha256 A sc) = Some (r, s)" "sig = EncodeDER r s"
    using assms(2) by (auto simp: SignLog_def split: option.splits)
  have p: "0 < r" "r < 256 ^ 32" "0 < s" "s < 256 ^ 32" "ecdsa_Verify A (PublicKey A key) (sha256 A sc) r s"
    using assms(1) sc(2) by (auto simp: ecdsa_laws_def power_mult[of 2 8 32, symmetric])
  show ?thesis
    using der_roundtrip_lengths[OF p(1,3,2,4)] sc p(5) by (simp add: VerifySignature_def)
qed

lemma seal_log_hash: "al_LogHash (seal_log A rng key a) = HashLog A (Some (seal_log A rng key a))"
  by (auto simp: seal_log_def Let_def split: sum.split)

lemma seal_log_keeps:
  "al_Operation (seal_log A rng key a) = al_Operation a" "al_Success (seal_log A rng key a) = al_Success a"
  "al_TenantID (seal_log A rng key a) = al_TenantID a" "al_ClientID (seal_log A rng key a) = al_ClientID a"
  "al_IsAuthenticated (seal_log A rng key a) = al_IsAuthenticated a"
  by (auto simp: seal_log_def Let_def split: sum.split)

lemma seal_log_signature:
  assumes "ecdsa_laws A k" and "al_Signature a = None"
  shows "case json_SignContent A (sign_content (seal_log A rng (Some k) a)) of
      None \<Rightarrow> al_Signature (seal_log A rng (Some k) a) = None
    | Some sc \<Rightarrow>
        (case ecdsa_Sign A rng k (sha256 A sc) of
           None \<Rightarrow> al_Signature (seal_log A rng (Some k) a) = None
         | Some _ \<Rightarrow> VerifySignature A (Some (seal_log A rng (Some k) a)) (Some (PublicKey A k)) = Inr True)"
proof -
  let ?a = "a\<lparr>al_LogHash := HashLog A (Some a)\<rparr>"
  have c: "sign_content (seal_log A rng (Some k) a) = sign_content ?a"
    by (auto simp: seal_log_def Let_def split: sum.split)
  show ?thesis
  proof (cases "SignLog A rng (Some ?a) (Some k)")
    case (Inl e)
    then have "seal_log A rng (Some k) a = ?a" by (simp add: seal_log_def Let_def)
    then show ?thesis using Inl assms(2) by (auto simp: SignLog_def split: option.splits)
  next
    case (Inr sig)
    then have "seal_log A rng (Some k) a = ?a\<lparr>al_Signature := Some sig\<rparr>" by (simp add: seal_log_def Let_def)
    moreover have "json_SignContent A (sign_content ?a) \<noteq> None"
      "\<And>sc. json_SignContent A (sign_content ?a) = Some sc \<Longrightarrow> ecdsa_Sign A rng k (sha256 A sc) \<noteq> None"
      using Inr by (auto simp: SignLog_def split: option.splits)
    ultimately show ?thesis using sign_verify[OF assms(1) Inr] unfolding c by (auto split: option.split)
  qed
qed

lemma build_fields:
  "al_Operation (buildAuditLog A G inp h ctx op operation err) = operation"
  "al_Success (buildAuditLog A G inp h ctx op operation err) \<longleftrightarrow> err = None"
  "al_TenantID (buildAuditLog A G inp h ctx op operation err) = GetTenantID h ctx"
  "al_ClientID (buildAuditLog A G inp h ctx op operation err) = GetClientID h ctx"
  "al_IsAuthenticated (buildAuditLog A G inp h ctx op operation err) = IsClientAuthenticated h ctx"
  "al_Signature (buildAuditLog A G inp h ctx op operation err) = None"
  by (auto simp: buildAuditLog_def Let_def log_error_def log_client_def empty_log_def GetTenantID_def GetClientID_def
      IsClientAuthenticated_def split: option.split)

section \<open>Properties\<close>

text \<open>
  C27 (\<open>audited_call\<close>): the middleware is transparent and writes one trustworthy record.  Reply,
  error and heap are those of the handler.  The writer runs at most once, exactly when the call
  has an operation that is not skipped and a writer is configured, and then on a record that names
  the operation, succeeded exactly when the handler did, has the client and tenant as the context
  shows them after the handler ran, carries its own hash, and carries a signature that verifies under the public key
  of the configured private key, unless the signed content cannot be encoded or the signing itself fails,
  in which case it carries none.
\<close>

theorem audited_call:
  assumes "handler ctx req st = ((reply, err), h, w)" and "ecPrivateKey op = Some k" and "ecdsa_laws A k"
  shows "\<exists>log. audit_Server A G op inp handler ctx req st =
      ((reply, err), h, case (sc_Operation ctx, writeAuditLogFunc op) of
          (Some operation, Some wr) \<Rightarrow> if skipOperations op operation then w else snd (wr ctx log w)
        | _ \<Rightarrow> w) \<and>
    sc_Operation ctx \<in> {None, Some (al_Operation log)} \<and> (al_Success log \<longleftrightarrow> err = None) \<and>
    al_TenantID log = GetTenantID h ctx \<and> al_ClientID log = GetClientID h ctx \<and>
    al_IsAuthenticated log = IsClientAuthenticated h ctx \<and> al_LogHash log = HashLog A (Some log) \<and>
    (case json_SignContent A (sign_content log) of
       None \<Rightarrow> al_Signature log = None
     | Some sc \<Rightarrow>
         (case ecdsa_Sign A (in_rng inp) k (sha256 A sc) of
            None \<Rightarrow> al_Signature log = None
          | Some _ \<Rightarrow> VerifySignature A (Some log) (Some (PublicKey A k)) = Inr True))"
proof -
  define operation where "operation = (case sc_Operation ctx of None \<Rightarrow> [] | Some x \<Rightarrow> x)"
  define b where "b = buildAuditLog A G inp h ctx op operation err"
  define log where "log = seal_log A (in_rng inp) (Some k) b"
  have "audit_Server A G op inp handler ctx req st =
      ((reply, err), h, case (sc_Operation ctx, writeAuditLogFunc op) of
          (Some operation, Some wr) \<Rightarrow> if skipOperations op operation then w else snd (wr ctx log w)
        | _ \<Rightarrow> w)"
    by (auto simp: audit_Server_def assms(1,2) Let_def log_def b_def operation_def split: option.split)
  moreover have "sc_Operation ctx \<in> {None, Some (al_Operation log)}"
    by (auto simp: log_def seal_log_keeps b_def build_fields operation_def split: option.split)
  moreover have "case json_SignContent A (sign_content log) of
       None \<Rightarrow> al_Signature log = None
     | Some sc \<Rightarrow>
         (case ecdsa_Sign A (in_rng inp) k (sha256 A sc) of
            None \<Rightarrow> al_Signature log = None
          | Some _ \<Rightarrow> VerifySignature A (Some log) (Some (PublicKey A k)) = Inr True)"
    unfolding log_def by (rule seal_log_signature[OF assms(3)]) (simp add: b_def build_fields)
  moreover have "al_LogHash log = HashLog A (Some log)" unfolding log_def by (rule seal_log_hash)
  ultimately show ?thesis
    by (intro exI[of _ log]) (simp add: log_def b_def seal_log_keeps build_fields)
qed

text \<open>An example API: hashes keep their input, every signature is (1, 1) and verifies.\<close>

definition demo_audit :: "(unit, unit, unit, unit) audit_api" where
  "demo_audit = \<lparr>sha256 = (\<lambda>b. b), json_AuditLog = (\<lambda>l. Some (bytes_of_string (al_Operation l))),
     json_SignContent = (\<lambda>s. Some (bytes_of_string (sg_Operation s))), ecdsa_Sign = (\<lambda>_ _ _. Some (1, 1)),
     ecdsa_Verify = (\<lambda>_ _ _ _. True), ecdsa_GenerateKey = (\<lambda>_. Some ()), PublicKey = (\<lambda>_. ()),
     FromError = (\<lambda>_. None), err_Error = (\<lambda>_. [])\<rparr>"

lemma demo_ecdsa_laws: "ecdsa_laws demo_audit ()"
  by (simp add: ecdsa_laws_def demo_audit_def)

definition demo_server_md :: "(server_ctx, unit) grpc_md" where
  "demo_server_md = \<lparr>FromIncomingContext = (\<lambda>_. None), NewIncomingContext = (\<lambda>c _. c), md_Get = (\<lambda>_ _. []),
     md_Copy = (\<lambda>m. m), md_Delete = (\<lambda>m _. m), AppendToOutgoingContext = (\<lambda>c _ _. c)\<rparr>"

definition demo_audit_options :: "(server_ctx, AuditLog list, unit, unit, unit) audit_options" where
  "demo_audit_options = \<lparr>writeAuditLogFunc = Some (\<lambda>_ log w. (None, w @ [log])), skipOperations = (\<lambda>_. False),
     ecPrivateKey = Some (), ecPublicKey = Some (), serviceName = ''svc''\<rparr>"

theorem audited_call_witness:
  "\<exists>log. audit_Server demo_audit demo_server_md demo_audit_options
      \<lparr>in_uuid = ''u'', in_now = 0, in_latencyMs = 1, in_rng = ()\<rparr> (\<lambda>_ _ (h, w). ((''ok'', None), h, w))
      demo_ctx () ([ClientInfo_zero], []) = ((''ok'', None), [ClientInfo_zero], [log]) \<and>
    al_Operation log = ''/svc/Get'' \<and> al_Success log \<and> VerifySignature demo_audit (Some log) (Some ()) = Inr True"
proof -
  have v: "PublicKey demo_audit k = ()" "json_SignContent demo_audit c = Some (bytes_of_string (sg_Operation c))"
    "ecdsa_Sign demo_audit rng k m = Some (1, 1)" for k c rng m by (simp_all add: demo_audit_def)
  have k: "ecPrivateKey demo_audit_options = Some ()" by (simp add: demo_audit_options_def)
  from audited_call[OF _ k demo_ecdsa_laws, of "\<lambda>_ _ (h, w). ((''ok'', None), h, w)" demo_ctx "()"
      "([ClientInfo_zero], [])" "''ok''" None "[ClientInfo_zero]" "[]" demo_server_md
      "\<lparr>in_uuid = ''u'', in_now = 0, in_latencyMs = 1, in_rng = ()\<rparr>"]
  show ?thesis by (auto simp: demo_ctx_def demo_audit_options_def v)
qed

text \<open>
  C28 (\<open>der_roundtrip\<close>): the hand-written DER encoder and decoder agree on every pair of positive
  integers of at most 124 bytes, which includes all P-256 signatures.
\<close>

theorem der_roundtrip:
  assumes "0 < r" and "0 < s" and "r < 256 ^ 124" and "s < 256 ^ 124"
  shows "DecodeDER (EncodeDER r s) = Inr (r, s)"
  by (rule der_roundtrip_lengths[OF assms]) simp

theorem der_roundtrip_witness: "DecodeDER (EncodeDER 200 70000) = Inr (200, 70000)"
  by (rule der_roundtrip) simp_all

text \<open>
  \<open>sign_then_verify\<close>: a signature \<open>SignLog\<close> makes verifies under the matching public key.
\<close>

theorem sign_then_verify:
  assumes "ecdsa_laws A key" and "SignLog A rng (Some log) (Some key) = Inr sig"
  shows "VerifySignature A (Some (log\<lparr>al_Signature := Some sig\<rparr>)) (Some (PublicKey A key)) = Inr True"
  by (rule sign_verify[OF assms])

theorem sign_then_verify_witness:
  "VerifySignature demo_audit (Some (empty_log\<lparr>al_Signature := Some (EncodeDER 1 1)\<rparr>)) (Some ()) = Inr True"
proof -
  have "SignLog demo_audit () (Some empty_log) (Some ()) = Inr (EncodeDER 1 1)"
    by (simp add: SignLog_def demo_audit_def)
  from sign_then_verify[OF demo_ecdsa_laws this] show ?thesis by simp
qed

text \<open>
  \<open>unsigned_fields_not_covered\<close>: \<open>VerifySignature\<close> compares the recorded hash with nothing.
  Outcome, error, peer and request fields of a verified record can be replaced and it still
  verifies; only recomputing the hash would tell.
\<close>

theorem unsigned_fields_not_covered:
  "VerifySignature A (Some (log\<lparr>al_Success := b, al_ErrorCode := c, al_ErrorMessage := m, al_PeerAddress := p,
      al_RequestID := q, al_IsAuthenticated := i, al_ClientSerialNumber := n\<rparr>)) key = VerifySignature A (Some log) key"
  by (cases key; cases "al_Signature log"; simp add: VerifySignature_def sign_content_def)

text \<open>
  \<open>private_key_alone_discarded\<close>: a server configured with a private key but no public key does
  not sign with that key.  Whatever key the options gave, the one in use is a freshly generated one
  (or none, when generation fails).
\<close>

theorem private_key_alone_discarded:
  "ecPrivateKey (audit_setup A rng [WithECPrivateKey (Some key)]) = ecdsa_GenerateKey A rng"
  by (simp add: audit_setup_def WithECPrivateKey_def audit_defaults_def GenerateECDSAKeyPair_def split: option.split)

text \<open>
  \<open>combined_writer_runs_all\<close>: a combined writer runs every writer that is not nil, in order
  and whether or not earlier ones failed, and reports the error of the last one that failed.
\<close>

definition run_writers :: "('ctx, 'w, 'err) WriteAuditLogFunc list \<Rightarrow> 'ctx \<Rightarrow> AuditLog \<Rightarrow> 'w \<Rightarrow> 'err list \<times> 'w" where
  "run_writers fs ctx log w = fold (\<lambda>f (errs, w). case f ctx log w of (e, w') \<Rightarrow>
     ((case e of None \<Rightarrow> errs | Some x \<Rightarrow> errs @ [x]), w')) fs ([], w)"

theorem combined_writer_runs_all:
  "CombinedWriter writers ctx log w =
     (let (errs, w') = run_writers (List.map_filter id writers) ctx log w
      in (if errs = [] then None else Some (last errs), w'))"
proof -
  let ?c = "\<lambda>wr (lastErr, w). case wr of None \<Rightarrow> (lastErr, w)
    | Some f \<Rightarrow> (case f ctx log w of (Some err, w') \<Rightarrow> (Some err, w') | (None, w') \<Rightarrow> (lastErr, w'))"
  let ?r = "\<lambda>f (errs, w). case f ctx log w of (e, w') \<Rightarrow> ((case e of None \<Rightarrow> errs | Some x \<Rightarrow> errs @ [x]), w')"
  have "fold ?c writers (if errs = [] then None else Some (last errs), w) =
      (let (errs', w') = fold ?r (List.map_filter id writers) (errs, w)
       in (if errs' = [] then None else Some (last errs'), w'))" for errs w
  proof (induction writers arbitrary: errs w)
    case Nil
    then show ?case by simp
  next
    case (Cons wr writers)
    show ?case
    proof (cases wr)
      case None
      then show ?thesis using Cons[of errs w] by simp
    next
      case (Some f)
      obtain e w' where f: "f ctx log w = (e, w')" by (metis surj_pair)
      show ?thesis
        using Cons[of errs w'] Cons[of "errs @ [the e]" w'] Some f by (cases e; cases "errs = []") simp_all
    qed
  qed
  from this[of "[]" w] show ?thesis by (simp add: CombinedWriter_def run_writers_def)
qed

text \<open>
  \<open>extract_ip_forms\<close>: the recorded peer address is the host part of the two address forms of
  the network library, with the brackets of an IPv6 address removed.
\<close>

theorem extract_ip_forms:
  assumes "host \<noteq> []" and "set port \<inter> {CHR '':'', CHR ''['', CHR '']''} = {}"
    and "set host \<inter> {CHR ''['', CHR '']''} = {}"
  shows "(CHR '':'' \<notin> set host \<longrightarrow> extractIP (host @ '':'' @ port) = host) \<and>
    extractIP (''['' @ host @ '']:'' @ port) = host"
proof
  have np: "\<not> HasPrefix (host @ '':'' @ port) ''[''"
    using assms(1,3) by (cases host) (auto simp: HasPrefix_def)
  show "CHR '':'' \<notin> set host \<longrightarrow> extractIP (host @ '':'' @ port) = host"
    using SplitHostPort_plain[of host port] assms np by (simp add: extractIP_def)
  have "Index (host @ '']:'' @ port) '']:'' = Some (length host)"
    using assms(3) by (induction host) (auto simp: HasPrefix_def)
  then have "Index (''['' @ host @ '']:'' @ port) '']:'' = Some (length host + 1)"
    by (simp add: HasPrefix_def)
  then show "extractIP (''['' @ host @ '']:'' @ port) = host"
    by (simp add: extractIP_def HasPrefix_def)
qed

theorem extract_ip_forms_witness:
  "extractIP ''10.0.0.1:5000'' = ''10.0.0.1'' \<and> extractIP ''[::1]:80'' = ''::1''"
  using extract_ip_forms[of "''10.0.0.1''" "''5000''"] extract_ip_forms[of "''::1''" "''80''"] by simp

end
