(* ===== verification/Routes.thy ===== *)
theory Routes
  imports GoStrings "HOL-Library.AList" "HOL-Library.Sublist"
begin

text \<open>
  Routes of the gateway (\<^verbatim>\<open>gateway/transcoder/descriptor_parser.go\<close>): the HTTP bindings of a
  module's gRPC methods as parsed from its descriptor set, the matching of a path against a
  pattern, and the selection of the method a request is sent to.

  A Go map that is iterated is an association list in iteration order, which Go leaves
  unspecified; a map that is only looked up is a partial function.  The protobuf runtime that
  decodes a descriptor set is a parameter; what the parser reads of a descriptor is a field of
  the datatypes below.
\<close>

section \<open>Data\<close>

record HTTPRule =
  hr_Method :: string
  hr_Pattern :: string
  hr_Body :: string
  hr_ResponseBody :: string

record MethodInfo =
  mi_ServiceName :: string
  mi_MethodName :: string
  mi_FullName :: string
  mi_InputType :: string
  mi_OutputType :: string
  mi_HTTPRules :: "HTTPRule list"
  mi_IsClientStreaming :: bool
  mi_IsServerStreaming :: bool

record ServiceInfo =
  si_Name :: string
  si_FullName :: string
  si_Methods :: "(string \<times> MethodInfo) list"

record 'types ParsedDescriptor =
  pd_Services :: "(string \<times> ServiceInfo) list"
  pd_Types :: 'types

section \<open>Descriptors, as the parser reads them\<close>

datatype HttpPattern =
    HttpGet string | HttpPost string | HttpPut string | HttpDelete string | HttpPatch string
  | HttpCustom (custom_kind: string) (custom_path: string)
  | HttpNone

datatype HttpRuleAnn =
  HttpRuleAnn (ann_pattern: HttpPattern) (ann_body: string) (ann_response_body: string)
    (ann_additional: "HttpRuleAnn list")

record MethodDesc =
  md_Name :: string
  md_FullName :: string
  md_Input :: string
  md_Output :: string
  md_StreamingClient :: bool
  md_StreamingServer :: bool
  md_Http :: "HttpRuleAnn option"

record ServiceDesc =
  sd_Name :: string
  sd_FullName :: string
  sd_Methods :: "MethodDesc list"

datatype MessageDesc =
  MessageDesc (msg_FullName: string) (msg_Messages: "MessageDesc list") (msg_Enums: "string list")

record FileDesc =
  file_Services :: "ServiceDesc list"
  file_Messages :: "MessageDesc list"
  file_Enums :: "string list"

section \<open>Parsing a descriptor set\<close>

definition convertHTTPRule :: "HttpRuleAnn \<Rightarrow> HTTPRule" where
  "convertHTTPRule rule =
     (let mk = (\<lambda>m p. \<lparr>hr_Method = m, hr_Pattern = p, hr_Body = ann_body rule,
                       hr_ResponseBody = ann_response_body rule\<rparr>)
      in case ann_pattern rule of
           HttpGet p \<Rightarrow> mk ''GET'' p
         | HttpPost p \<Rightarrow> mk ''POST'' p
         | HttpPut p \<Rightarrow> mk ''PUT'' p
         | HttpDelete p \<Rightarrow> mk ''DELETE'' p
         | HttpPatch p \<Rightarrow> mk ''PATCH'' p
         | HttpCustom k p \<Rightarrow> mk k p
         | HttpNone \<Rightarrow> mk [] [])"

definition extractHTTPRule :: "HttpRuleAnn option \<Rightarrow> (HTTPRule \<times> HTTPRule list) option" where
  "extractHTTPRule ext =
     (case ext of
        None \<Rightarrow> None
      | Some rule \<Rightarrow> Some (convertHTTPRule rule, map convertHTTPRule (ann_additional rule)))"

definition parseMethod :: "ServiceDesc \<Rightarrow> MethodDesc \<Rightarrow> MethodInfo" where
  "parseMethod sd md =
     \<lparr>mi_ServiceName = sd_Name sd, mi_MethodName = md_Name md, mi_FullName = md_FullName md,
      mi_InputType = md_Input md, mi_OutputType = md_Output md,
      mi_HTTPRules =
        (case extractHTTPRule (md_Http md) of
           None \<Rightarrow> []
         | Some (primary, additional) \<Rightarrow> [primary] @ additional),
      mi_IsClientStreaming = md_StreamingClient md, mi_IsServerStreaming = md_StreamingServer md\<rparr>"

definition parseService :: "ServiceDesc \<Rightarrow> ServiceInfo" where
  "parseService sd =
     \<lparr>si_Name = sd_Name sd, si_FullName = sd_FullName sd,
      si_Methods = fold (\<lambda>md ms. let mi = parseMethod sd md in AList.update (mi_MethodName mi) mi ms)
                     (sd_Methods sd) []\<rparr>"

text \<open>
  Type registration: \<open>regM\<close> and \<open>regE\<close> are the registry's operations; an error is only
  logged, so the registry stays as it was.
\<close>

definition try_register :: "('ty \<Rightarrow> string \<Rightarrow> (string, 'ty) result) \<Rightarrow> string \<Rightarrow> 'ty \<Rightarrow> 'ty" where
  "try_register reg n ty = (case reg ty n of Inl _ \<Rightarrow> ty | Inr ty' \<Rightarrow> ty')"

fun registerMessage :: "('ty \<Rightarrow> string \<Rightarrow> (string, 'ty) result) \<Rightarrow> ('ty \<Rightarrow> string \<Rightarrow> (string, 'ty) result)
    \<Rightarrow> MessageDesc \<Rightarrow> 'ty \<Rightarrow> 'ty" where
  "registerMessage regM regE (MessageDesc n nested enums) ty =
     fold (try_register regE) enums
       (fold (\<lambda>m ty. registerMessage regM regE m ty) nested (try_register regM n ty))"

definition registerTypes :: "('ty \<Rightarrow> string \<Rightarrow> (string, 'ty) result) \<Rightarrow> ('ty \<Rightarrow> string \<Rightarrow> (string, 'ty) result)
    \<Rightarrow> FileDesc \<Rightarrow> 'ty \<Rightarrow> 'ty" where
  "registerTypes regM regE fd ty =
     fold (try_register regE) (file_Enums fd) (fold (registerMessage regM regE) (file_Messages fd) ty)"

datatype parse_err = EmptyDescriptor | BadDescriptor string

text \<open>
  \<open>files\<close> stands for \<open>proto.Unmarshal\<close> followed by \<open>protodesc.NewFiles\<close>; the list is in the
  order \<open>RangeFiles\<close> visits the files.
\<close>

definition Parse :: "(byte list \<Rightarrow> (string, FileDesc list) result)
    \<Rightarrow> ('ty \<Rightarrow> string \<Rightarrow> (string, 'ty) result) \<Rightarrow> ('ty \<Rightarrow> string \<Rightarrow> (string, 'ty) result) \<Rightarrow> 'ty
    \<Rightarrow> byte list \<Rightarrow> (parse_err, 'ty ParsedDescriptor) result" where
  "Parse files regM regE ty0 b =
     (if b = [] then Inl EmptyDescriptor
      else case files b of
             Inl e \<Rightarrow> Inl (BadDescriptor e)
           | Inr fds \<Rightarrow>
               Inr \<lparr>pd_Services =
                      fold (\<lambda>sd ss. let si = parseService sd in AList.update (si_Name si) si ss)
                        (concat (map file_Services fds)) [],
                    pd_Types = fold (registerTypes regM regE) fds ty0\<rparr>)"

definition GetMethod :: "'ty ParsedDescriptor \<Rightarrow> string \<Rightarrow> string \<Rightarrow> MethodInfo option" where
  "GetMethod pd serviceName methodName =
     (case map_of (pd_Services pd) serviceName of
        None \<Rightarrow> None
      | Some service \<Rightarrow> map_of (si_Methods service) methodName)"

definition ListMethods :: "'ty ParsedDescriptor \<Rightarrow> MethodInfo list" where
  "ListMethods pd = concat (map (\<lambda>(_, service). map snd (si_Methods service)) (pd_Services pd))"

definition ListServices :: "'ty ParsedDescriptor \<Rightarrow> string list" where
  "ListServices pd = map fst (pd_Services pd)"

section \<open>Matching a path\<close>

definition segments :: "string \<Rightarrow> string list" where
  "segments s = Split CHR ''/'' (TrimByte CHR ''/'' s)"

definition is_param :: "string \<Rightarrow> bool" where
  "is_param part = (HasPrefix part ''{'' \<and> HasSuffix part ''}'')"

definition param_name :: "string \<Rightarrow> string" where
  "param_name part =
     (let n = TrimSuffix (TrimPrefix part ''{'') ''}'' in
      case Index n ''='' of
        None \<Rightarrow> n
      | Some idx \<Rightarrow> if idx > 0 then take idx n else n)"

definition is_rest :: "string \<Rightarrow> bool" where
  "is_rest n = (n = ''**'' \<or> HasSuffix n ''=**'')"

fun match_parts :: "string list \<Rightarrow> string list \<Rightarrow> (string \<rightharpoonup> string) \<Rightarrow> (string \<rightharpoonup> string) option" where
  "match_parts [] ss params = Some params"
| "match_parts (p # ps) [] params = None"
| "match_parts (p # ps) (s # ss) params =
     (if is_param p then
        let n = param_name p in
        if is_rest n then Some (params(TrimSuffix n ''=**'' \<mapsto> Join ''/'' (s # ss)))
        else match_parts ps ss (params(n \<mapsto> s))
      else if p \<noteq> s then None
      else match_parts ps ss params)"

definition MatchPath :: "string \<Rightarrow> string \<Rightarrow> (string \<rightharpoonup> string) option" where
  "MatchPath pattern path =
     (if length (segments pattern) \<noteq> length (segments path) \<and> \<not> Contains pattern ''**'' then None
      else match_parts (segments pattern) (segments path) Map.empty)"

section \<open>Selecting a method\<close>

definition part_score :: "string \<Rightarrow> int" where
  "part_score part =
     (if is_param part then (if Contains part ''**'' then -10 else 0) else 10)"

definition calculateSpecificity :: "string \<Rightarrow> int" where
  "calculateSpecificity pattern =
     (let parts = segments pattern
      in fold (\<lambda>part sp. sp + part_score part) parts 0 + int (length parts))"

record routeMatch =
  rm_method :: MethodInfo
  rm_params :: "string \<rightharpoonup> string"
  rm_specificity :: int

definition rule_matches :: "string \<Rightarrow> string \<Rightarrow> MethodInfo \<Rightarrow> HTTPRule \<Rightarrow> routeMatch list" where
  "rule_matches httpMethod path method rule =
     (if EqualFold (hr_Method rule) httpMethod then
        case MatchPath (hr_Pattern rule) path of
          None \<Rightarrow> []
        | Some params \<Rightarrow> [\<lparr>rm_method = method, rm_params = params,
                            rm_specificity = calculateSpecificity (hr_Pattern rule)\<rparr>]
      else [])"

definition all_matches :: "'ty ParsedDescriptor \<Rightarrow> string \<Rightarrow> string \<Rightarrow> routeMatch list" where
  "all_matches pd httpMethod path =
     concat (map (\<lambda>method. concat (map (rule_matches httpMethod path method) (mi_HTTPRules method)))
       (ListMethods pd))"

definition better :: "routeMatch \<Rightarrow> routeMatch \<Rightarrow> routeMatch" where
  "better m best = (if rm_specificity m > rm_specificity best then m else best)"

definition FindMethodByHTTP :: "'ty ParsedDescriptor \<Rightarrow> string \<Rightarrow> string
    \<Rightarrow> (MethodInfo \<times> (string \<rightharpoonup> string)) option" where
  "FindMethodByHTTP pd httpMethod path =
     (case all_matches pd httpMethod path of
        [] \<Rightarrow> None
      | m # ms \<Rightarrow> let best = fold better ms m in Some (rm_method best, rm_params best))"

section \<open>Descriptors as types\<close>

text \<open>
  The adapters that let the registry hold the descriptors of a module as types.  \<open>newMessage\<close> is the
  runtime's constructor of empty messages.
\<close>

datatype 'ed dynamicEnumType = dynamicEnumType 'ed

record 'ed dynamicEnum =
  de_desc :: 'ed
  de_num :: "32 word"

fun enumType_New :: "'ed dynamicEnumType \<Rightarrow> 32 word \<Rightarrow> 'ed dynamicEnum" where
  "enumType_New (dynamicEnumType d) n = \<lparr>de_desc = d, de_num = n\<rparr>"

fun enumType_Descriptor :: "'ed dynamicEnumType \<Rightarrow> 'ed" where
  "enumType_Descriptor (dynamicEnumType d) = d"

definition enum_Descriptor :: "'ed dynamicEnum \<Rightarrow> 'ed" where
  "enum_Descriptor d = de_desc d"

definition enum_Type :: "'ed dynamicEnum \<Rightarrow> 'ed dynamicEnumType" where
  "enum_Type d = dynamicEnumType (de_desc d)"

definition enum_Number :: "'ed dynamicEnum \<Rightarrow> 32 word" where
  "enum_Number d = de_num d"

datatype 'md dynamicMessageType = dynamicMessageType 'md

fun messageType_New :: "('md \<Rightarrow> 'msg) \<Rightarrow> 'md dynamicMessageType \<Rightarrow> 'msg" where
  "messageType_New newMessage (dynamicMessageType md) = newMessage md"

fun messageType_Zero :: "('md \<Rightarrow> 'msg) \<Rightarrow> 'md dynamicMessageType \<Rightarrow> 'msg" where
  "messageType_Zero newMessage (dynamicMessageType md) = newMessage md"

fun messageType_Descriptor :: "'md dynamicMessageType \<Rightarrow> 'md" where
  "messageType_Descriptor (dynamicMessageType md) = md"

text \<open>A value of an enumeration can be taken apart and put together again.\<close>

lemma enum_adapter: "enumType_New (enum_Type e) (enum_Number e) = (e :: 'ed dynamicEnum)"
  "enum_Type (enumType_New ty n) = ty" "enum_Descriptor (enumType_New ty n) = enumType_Descriptor ty"
  by (cases ty; simp add: enum_Type_def enum_Number_def enum_Descriptor_def)+

section \<open>Matching: lemmas\<close>

lemma Contains_sublist: "Contains s p \<longleftrightarrow> sublist p s"
  by (simp add: Contains_iff sublist_def)

lemma sublist_TrimPrefix: "sublist (TrimPrefix s p) s"
  by (simp add: TrimPrefix_def sublist_drop)

lemma sublist_TrimSuffix: "sublist (TrimSuffix s p) s"
  by (simp add: TrimSuffix_def sublist_take)

lemma sublist_param_name: "sublist (param_name p) p"
proof -
  have "sublist (TrimSuffix (TrimPrefix p ''{'') ''}'') p"
    using sublist_TrimSuffix sublist_TrimPrefix sublist_order.order.trans by blast
  then show ?thesis
    by (auto simp: param_name_def Let_def split: option.splits
        intro: sublist_order.order.trans[OF sublist_take])
qed

lemma is_rest_stars: "is_rest n \<Longrightarrow> sublist ''**'' n"
proof (cases "n = ''**''")
  case False
  assume "is_rest n"
  then obtain t where "n = t @ ''=**''" using False by (auto simp: is_rest_def HasSuffix_iff)
  then have "n = (t @ ''='') @ ''**'' @ []" by simp
  then show ?thesis unfolding sublist_def by blast
qed simp

lemma sublist_Split: "p \<in> set (Split c s) \<Longrightarrow> sublist p s"
proof -
  assume "p \<in> set (Split c s)"
  then obtain as bs where "Split c s = as @ p # bs" by (auto simp: in_set_conv_decomp)
  then have s: "s = Join [c] (as @ p # bs)" by (metis Join_Split)
  have "sublist p (Join [c] (as @ p # bs))"
  proof (induction as)
    case Nil
    have "Join [c] (p # bs) = [] @ p @ (if bs = [] then [] else c # Join [c] bs)"
      by (cases bs) auto
    then show ?case unfolding sublist_def by (metis append_Nil)
  next
    case (Cons a as)
    have "Join [c] ((a # as) @ p # bs) = a @ [c] @ Join [c] (as @ p # bs)" by (cases as) auto
    moreover have "sublist (Join [c] (as @ p # bs)) (a @ [c] @ Join [c] (as @ p # bs))"
      unfolding sublist_def by (rule exI[of _ "a @ [c]"], rule exI[of _ "[]"]) simp
    ultimately show ?case using Cons.IH sublist_order.order.trans by metis
  qed
  then show ?thesis by (simp add: s)
qed

lemma sublist_TrimByte: "sublist (TrimByte c s) s"
proof -
  have "suffix (dropWhile (\<lambda>x. x = c) s) s" by (rule suffix_dropWhile)
  moreover have "prefix (TrimByte c s) (dropWhile (\<lambda>x. x = c) s)"
    unfolding TrimByte_def by (metis rev_rev_ident suffix_dropWhile suffix_to_prefix)
  ultimately show ?thesis
    by (metis prefix_imp_sublist suffix_imp_sublist sublist_order.order.trans)
qed

lemma segment_not_rest:
  "\<not> Contains pattern ''**'' \<Longrightarrow> p \<in> set (segments pattern) \<Longrightarrow> \<not> is_rest (param_name p)"
  unfolding Contains_sublist segments_def
  by (meson is_rest_stars sublist_param_name sublist_Split sublist_TrimByte sublist_order.order.trans)

text \<open>The parameters captured from paired pattern and path segments; a later one overrides.\<close>

definition capture :: "string \<times> string \<Rightarrow> (string \<rightharpoonup> string) \<Rightarrow> (string \<rightharpoonup> string)" where
  "capture = (\<lambda>(p, s) m. if is_param p then m(param_name p \<mapsto> s) else m)"

definition seg_ok :: "string \<Rightarrow> string \<Rightarrow> bool" where
  "seg_ok p s = (is_param p \<or> p = s)"

lemma match_parts_spec:
  "\<forall>p \<in> set ps. \<not> is_rest (param_name p) \<Longrightarrow> length ps = length ss \<Longrightarrow>
   match_parts ps ss m = (if list_all2 seg_ok ps ss then Some (fold capture (zip ps ss) m) else None)"
  by (induction ps ss m rule: match_parts.induct) (auto simp: capture_def seg_ok_def Let_def)

lemma fold_capture_param:
  assumes "distinct (map param_name (filter is_param ps))" and "length ps = length ss"
    and "i < length ps" and "is_param (ps ! i)"
  shows "fold capture (zip ps ss) m (param_name (ps ! i)) = Some (ss ! i)"
  using assms(2,1,3,4)
proof (induction ps ss arbitrary: m i rule: list_induct2)
  case Nil
  then show ?case by simp
next
  case (Cons p ps s ss)
  show ?case
  proof (cases i)
    case 0
    have frame: "n \<notin> set (map param_name (filter is_param ps)) \<Longrightarrow> fold capture (zip ps ss) m' n = m' n" for n m'
      using Cons.hyps by (induction ps ss arbitrary: m' rule: list_induct2) (auto simp: capture_def)
    show ?thesis using Cons.prems 0 frame by (auto simp: capture_def)
  next
    case (Suc j)
    then show ?thesis using Cons.IH[of j "capture (p, s) m"] Cons.prems by (auto split: if_splits)
  qed
qed

section \<open>Building a path from a pattern\<close>

definition fill :: "(string \<Rightarrow> string) \<Rightarrow> string \<Rightarrow> string" where
  "fill v p = (if is_param p then v (param_name p) else p)"

definition path_of :: "(string \<Rightarrow> string) \<Rightarrow> string \<Rightarrow> string" where
  "path_of v pattern = ''/'' @ Join ''/'' (map (fill v) (segments pattern))"

lemma Join_not_Nil: "qs \<noteq> [] \<Longrightarrow> hd qs \<noteq> [] \<Longrightarrow> Join sep qs \<noteq> [] \<and> hd (Join sep qs) = hd (hd qs)"
  by (cases "(sep, qs)" rule: Join.cases) auto

lemma Join_last: "qs \<noteq> [] \<Longrightarrow> last qs \<noteq> [] \<Longrightarrow> last (Join sep qs) = last (last qs) \<and> Join sep qs \<noteq> []"
  by (induction sep qs rule: Join.induct) auto

lemma segments_path:
  assumes "qs \<noteq> []" and "\<forall>q \<in> set qs. q \<noteq> [] \<and> CHR ''/'' \<notin> set q"
  shows "segments (''/'' @ Join ''/'' qs) = qs"
proof -
  have h: "hd qs \<in> set qs" and l: "last qs \<in> set qs" using assms(1) by simp_all
  have "TrimByte CHR ''/'' (Join ''/'' qs) = Join ''/'' qs"
  proof (rule TrimByte_id)
    show "Join ''/'' qs \<noteq> []" using assms h Join_not_Nil by blast
    show "hd (Join ''/'' qs) \<noteq> CHR ''/''"
      using assms h Join_not_Nil[of qs "''/''"] hd_in_set[of "hd qs"] by metis
    show "last (Join ''/'' qs) \<noteq> CHR ''/''"
      using assms l Join_last[of qs "''/''"] last_in_set[of "last qs"] by metis
  qed
  then show ?thesis using assms by (simp add: segments_def Split_Join)
qed

lemma segments_no_slash: "p \<in> set (segments s) \<Longrightarrow> CHR ''/'' \<notin> set p"
  unfolding segments_def by (rule Split_no_sep)

lemma segments_not_Nil [simp]: "segments s \<noteq> []"
  by (simp add: segments_def)

section \<open>Selection: lemmas\<close>

lemma fold_score: "fold (\<lambda>part sp. sp + part_score part) ps a = a + sum_list (map part_score ps)"
  by (induction ps arbitrary: a) (auto simp: add.assoc)

lemma specificity_sum:
  "calculateSpecificity p = sum_list (map part_score (segments p)) + int (length (segments p))"
  by (simp add: calculateSpecificity_def Let_def fold_score)

lemma part_score_plain:
  "\<not> Contains pattern ''**'' \<Longrightarrow> part \<in> set (segments pattern) \<Longrightarrow>
     part_score part = (if is_param part then 0 else 10)"
  unfolding part_score_def Contains_sublist segments_def
  by (meson sublist_Split sublist_TrimByte sublist_order.order.trans)

lemma sum_plain: "sum_list (map (\<lambda>x. if P x then 0 else 10) xs) =
    10 * int (length xs) - 10 * int (length (filter P xs))"
  by (induction xs) auto

lemma specificity_plain:
  assumes "\<not> Contains p ''**''"
  shows "calculateSpecificity p =
    11 * int (length (segments p)) - 10 * int (length (filter is_param (segments p)))"
proof -
  have "map part_score (segments p) = map (\<lambda>x. if is_param x then 0 else 10) (segments p)"
    by (rule map_cong[OF refl]) (rule part_score_plain[OF assms])
  from arg_cong[OF this, of sum_list] show ?thesis
    unfolding specificity_sum sum_plain by simp
qed

lemma fold_better:
  "fold better ms m \<in> set (m # ms) \<and>
   (\<forall>x \<in> set (m # ms). rm_specificity x \<le> rm_specificity (fold better ms m))"
proof (induction ms arbitrary: m)
  case Nil
  then show ?case by simp
next
  case (Cons x ms)
  have b: "better x m \<in> {x, m}" "rm_specificity x \<le> rm_specificity (better x m)"
    "rm_specificity m \<le> rm_specificity (better x m)"
    by (auto simp: better_def)
  from Cons[of "better x m"] b show ?case by fastforce
qed

lemma all_matches_iff:
  "r \<in> set (all_matches pd hm path) \<longleftrightarrow>
     (\<exists>mi rule ps. mi \<in> set (ListMethods pd) \<and> rule \<in> set (mi_HTTPRules mi) \<and>
        EqualFold (hr_Method rule) hm \<and> MatchPath (hr_Pattern rule) path = Some ps \<and>
        r = \<lparr>rm_method = mi, rm_params = ps, rm_specificity = calculateSpecificity (hr_Pattern rule)\<rparr>)"
proof -
  have H: "r \<in> set (rule_matches hm path mi rule) \<longleftrightarrow>
      EqualFold (hr_Method rule) hm \<and> (\<exists>ps. MatchPath (hr_Pattern rule) path = Some ps \<and>
        r = \<lparr>rm_method = mi, rm_params = ps, rm_specificity = calculateSpecificity (hr_Pattern rule)\<rparr>)"
    for mi rule
    unfolding rule_matches_def
    by (cases "MatchPath (hr_Pattern rule) path"; cases "EqualFold (hr_Method rule) hm";
        simp only: option.case if_True if_False list.set; blast)
  have "r \<in> set (all_matches pd hm path) \<longleftrightarrow>
      (\<exists>mi \<in> set (ListMethods pd). \<exists>rule \<in> set (mi_HTTPRules mi). r \<in> set (rule_matches hm path mi rule))"
    by (simp add: all_matches_def)
  then show ?thesis unfolding H by blast
qed

lemma find_method_max:
  assumes "FindMethodByHTTP pd hm path = Some (mi, ps)"
  shows "\<exists>rule. mi \<in> set (ListMethods pd) \<and> rule \<in> set (mi_HTTPRules mi) \<and> EqualFold (hr_Method rule) hm \<and>
    MatchPath (hr_Pattern rule) path = Some ps \<and>
    (\<forall>mi' \<in> set (ListMethods pd). \<forall>rule' \<in> set (mi_HTTPRules mi'). EqualFold (hr_Method rule') hm \<longrightarrow>
       MatchPath (hr_Pattern rule') path \<noteq> None \<longrightarrow>
       calculateSpecificity (hr_Pattern rule') \<le> calculateSpecificity (hr_Pattern rule))"
proof -
  obtain m ms where all: "all_matches pd hm path = m # ms" and b: "rm_method (fold better ms m) = mi" "rm_params (fold better ms m) = ps"
    using assms by (auto simp: FindMethodByHTTP_def Let_def split: list.splits)
  let ?b = "fold better ms m"
  have mem: "?b \<in> set (all_matches pd hm path)"
    and max: "\<And>x. x \<in> set (all_matches pd hm path) \<Longrightarrow> rm_specificity x \<le> rm_specificity ?b"
    using fold_better[of ms m] all by auto
  from mem b obtain rule where r: "mi \<in> set (ListMethods pd)" "rule \<in> set (mi_HTTPRules mi)"
    "EqualFold (hr_Method rule) hm" "MatchPath (hr_Pattern rule) path = Some ps"
    "?b = \<lparr>rm_method = mi, rm_params = ps, rm_specificity = calculateSpecificity (hr_Pattern rule)\<rparr>"
    by (auto simp: all_matches_iff)
  have "calculateSpecificity (hr_Pattern rule') \<le> calculateSpecificity (hr_Pattern rule)"
    if "mi' \<in> set (ListMethods pd)" "rule' \<in> set (mi_HTTPRules mi')"
      "EqualFold (hr_Method rule') hm" "MatchPath (hr_Pattern rule') path \<noteq> None" for mi' rule'
  proof -
    have "\<lparr>rm_method = mi', rm_params = the (MatchPath (hr_Pattern rule') path),
        rm_specificity = calculateSpecificity (hr_Pattern rule')\<rparr> \<in> set (all_matches pd hm path)"
      using that by (auto simp: all_matches_iff)
    from max[OF this] show ?thesis using r(5) by simp
  qed
  then show ?thesis using r by blast
qed

lemma find_method_sound:
  assumes "FindMethodByHTTP pd hm path = Some (mi, ps)"
  shows "\<exists>rule \<in> set (mi_HTTPRules mi). EqualFold (hr_Method rule) hm \<and> MatchPath (hr_Pattern rule) path = Some ps"
  using find_method_max[OF assms] by blast

section \<open>Properties\<close>

text \<open>
  \<open>match_path_spec\<close>: what a pattern without a multi-segment wildcard matches.  \<open>MatchPath\<close>
  succeeds exactly on the paths with as many segments as the pattern whose literal segments
  are equal, and then returns exactly the segments standing at the parameters.
\<close>

theorem match_path_spec:
  assumes "\<not> Contains pattern ''**''"
  shows "MatchPath pattern path =
    (if list_all2 seg_ok (segments pattern) (segments path)
     then Some (fold capture (zip (segments pattern) (segments path)) Map.empty) else None)"
proof (cases "length (segments pattern) = length (segments path)")
  case True
  then show ?thesis using segment_not_rest[OF assms] by (simp add: MatchPath_def match_parts_spec)
next
  case False
  then show ?thesis using assms by (auto simp: MatchPath_def dest: list_all2_lengthD)
qed

theorem match_path_spec_witness:
  "MatchPath ''/v1/messages/{id}'' ''/v1/messages/123'' = Some [''id'' \<mapsto> ''123''] \<and>
   MatchPath ''/v1/messages/{id}'' ''/v1/users/123'' = None"
proof -
  have c: "\<not> Contains ''/v1/messages/{id}'' ''**''" by code_simp
  have s: "segments ''/v1/messages/{id}'' = [''v1'', ''messages'', ''{id}'']"
    "segments ''/v1/messages/123'' = [''v1'', ''messages'', ''123'']"
    "segments ''/v1/users/123'' = [''v1'', ''users'', ''123'']" by code_simp+
  have p: "is_param ''{id}''" "\<not> is_param ''v1''" "\<not> is_param ''messages''" "param_name ''{id}'' = ''id''"
    by code_simp+
  show ?thesis
    using match_path_spec[OF c, of "''/v1/messages/123''"] match_path_spec[OF c, of "''/v1/users/123''"]
    by (simp add: s p seg_ok_def capture_def)
qed

text \<open>
  C11 (\<open>match_path_fill\<close>): substituting non-empty, slash-free values for the parameters of a
  pattern gives a path that the pattern matches, with exactly those values.
\<close>

theorem match_path_fill:
  assumes "\<not> Contains pattern ''**''" and "\<forall>p \<in> set (segments pattern). p \<noteq> []"
    and "distinct (map param_name (filter is_param (segments pattern)))"
    and "\<forall>n. v n \<noteq> [] \<and> CHR ''/'' \<notin> set (v n)"
  shows "\<exists>params. MatchPath pattern (path_of v pattern) = Some params \<and>
    (\<forall>p \<in> set (segments pattern). is_param p \<longrightarrow> params (param_name p) = Some (v (param_name p)))"
proof -
  let ?ps = "segments pattern"
  have seg: "segments (path_of v pattern) = map (fill v) ?ps"
    unfolding path_of_def using assms(2,4) segments_no_slash
    by (intro segments_path) (auto simp: fill_def)
  have "list_all2 seg_ok ?ps (map (fill v) ?ps)"
    by (simp add: list_all2_conv_all_nth seg_ok_def fill_def)
  then have m: "MatchPath pattern (path_of v pattern) = Some (fold capture (zip ?ps (map (fill v) ?ps)) Map.empty)"
    using match_path_spec[OF assms(1), of "path_of v pattern"] by (simp add: seg)
  have "fold capture (zip ?ps (map (fill v) ?ps)) Map.empty (param_name p) = Some (v (param_name p))"
    if p: "p \<in> set ?ps" "is_param p" for p
  proof -
    obtain i where "i < length ?ps" "?ps ! i = p" using p(1) by (meson in_set_conv_nth)
    then show ?thesis using fold_capture_param[OF assms(3), of "map (fill v) ?ps" i Map.empty] p(2)
      by (simp add: fill_def)
  qed
  with m show ?thesis by blast
qed

theorem match_path_fill_witness:
  "\<exists>params. MatchPath ''/v1/{a}/x/{b}'' (path_of (\<lambda>_. ''7'') ''/v1/{a}/x/{b}'') = Some params \<and>
    (\<forall>p \<in> set (segments ''/v1/{a}/x/{b}''). is_param p \<longrightarrow> params (param_name p) = Some ''7'')"
proof -
  have "\<not> Contains ''/v1/{a}/x/{b}'' ''**''" "\<forall>p \<in> set (segments ''/v1/{a}/x/{b}''). p \<noteq> []"
    "distinct (map param_name (filter is_param (segments ''/v1/{a}/x/{b}'')))" by code_simp+
  then show ?thesis by (rule match_path_fill) simp
qed

text \<open>
  C10 (\<open>find_method_best\<close>): \<open>FindMethodByHTTP\<close> is complete and picks a most specific binding.  It
  fails only when no binding of any method matches the request; otherwise the method it returns
  has a binding that matches, the parameters are the ones that binding captures, and no matching
  binding of any method is more specific.
\<close>

theorem find_method_best:
  "case FindMethodByHTTP pd hm path of
     None \<Rightarrow> \<not> (\<exists>mi \<in> set (ListMethods pd). \<exists>rule \<in> set (mi_HTTPRules mi).
       EqualFold (hr_Method rule) hm \<and> MatchPath (hr_Pattern rule) path \<noteq> None)
   | Some (mi, ps) \<Rightarrow> mi \<in> set (ListMethods pd) \<and> (\<exists>rule \<in> set (mi_HTTPRules mi).
       EqualFold (hr_Method rule) hm \<and> MatchPath (hr_Pattern rule) path = Some ps \<and>
       \<not> (\<exists>mi' \<in> set (ListMethods pd). \<exists>rule' \<in> set (mi_HTTPRules mi').
         EqualFold (hr_Method rule') hm \<and> MatchPath (hr_Pattern rule') path \<noteq> None \<and>
         calculateSpecificity (hr_Pattern rule') > calculateSpecificity (hr_Pattern rule)))"
proof (cases "all_matches pd hm path")
  case Nil
  have "\<not> (EqualFold (hr_Method rule) hm \<and> MatchPath (hr_Pattern rule) path \<noteq> None)"
    if "mi \<in> set (ListMethods pd)" "rule \<in> set (mi_HTTPRules mi)" for mi rule
  proof
    assume "EqualFold (hr_Method rule) hm \<and> MatchPath (hr_Pattern rule) path \<noteq> None"
    then have "\<exists>r. r \<in> set (all_matches pd hm path)" unfolding all_matches_iff using that by blast
    then show False using Nil by simp
  qed
  then show ?thesis using Nil by (auto simp: FindMethodByHTTP_def)
next
  case (Cons m ms)
  then obtain mi ps where f: "FindMethodByHTTP pd hm path = Some (mi, ps)" by (simp add: FindMethodByHTTP_def Let_def)
  show ?thesis using find_method_max[OF f] unfolding f by (fastforce simp: not_less)
qed

text \<open>
  \<open>fewer_parameters_win\<close>: of two patterns without multi-segment wildcards that match the
  same path, the one with fewer parameters has the higher specificity, so a literal route is
  preferred to a parameterised one.
\<close>

theorem fewer_parameters_win:
  assumes "\<not> Contains p ''**''" and "\<not> Contains q ''**''"
    and "MatchPath p path \<noteq> None" and "MatchPath q path \<noteq> None"
    and "length (filter is_param (segments p)) < length (filter is_param (segments q))"
  shows "calculateSpecificity p > calculateSpecificity q"
proof -
  have "length (segments p) = length (segments path)" "length (segments q) = length (segments path)"
    using assms(1-4) match_path_spec by (auto split: if_splits dest: list_all2_lengthD)
  then show ?thesis using assms(5) by (simp add: specificity_plain[OF assms(1)] specificity_plain[OF assms(2)])
qed

theorem fewer_parameters_win_witness:
  "calculateSpecificity ''/v1/users/me'' > calculateSpecificity ''/v1/users/{id}''"
proof -
  have "MatchPath ''/v1/users/me'' ''/v1/users/me'' \<noteq> None" "MatchPath ''/v1/users/{id}'' ''/v1/users/me'' \<noteq> None"
    "\<not> Contains ''/v1/users/me'' ''**''" "\<not> Contains ''/v1/users/{id}'' ''**''"
    "length (filter is_param (segments ''/v1/users/me'')) < length (filter is_param (segments ''/v1/users/{id}''))"
    by code_simp+
  then show ?thesis by (intro fewer_parameters_win)
qed

text \<open>
  \<open>named_rest_takes_one_segment\<close>: a multi-segment parameter written the way the HTTP
  annotation writes it, \<^verbatim>\<open>{name=**}\<close>, captures only the next segment, and everything behind
  that segment is dropped: the name is cut at the equals sign before the test for \<open>**\<close>.
\<close>

theorem named_rest_takes_one_segment:
  assumes "segments pattern = lits @ [''{'' @ n @ ''=**}'']" and "\<forall>l \<in> set lits. \<not> is_param l"
    and "segments path = lits @ s # rest" and "n \<noteq> []" and "CHR ''='' \<notin> set n"
    and "n \<noteq> ''**''"
  shows "MatchPath pattern path = Some [n \<mapsto> s]"
proof -
  let ?last = "''{'' @ n @ ''=**}''"
  have "sublist ''**'' pattern"
  proof -
    have "sublist ''**'' ?last" unfolding sublist_def
      by (rule exI[of _ "''{'' @ n @ ''=''"], rule exI[of _ "''}''"]) simp
    moreover have "?last \<in> set (segments pattern)" using assms(1) by simp
    ultimately show ?thesis unfolding segments_def
      by (meson sublist_Split sublist_TrimByte sublist_order.order.trans)
  qed
  then have c: "Contains pattern ''**''" by (simp add: Contains_sublist)
  have ip: "is_param ?last" unfolding is_param_def HasPrefix_iff HasSuffix_iff
    by (metis append.assoc append_Cons append_Nil)
  have "TrimSuffix (TrimPrefix ?last ''{'') ''}'' = n @ ''=**''"
    using TrimPrefix_append[of "''{''" "n @ ''=**}''"] TrimSuffix_append[of "n @ ''=**''" "''}''"] by simp
  moreover have "Index (n @ ''=**'') ''='' = Some (length n)"
    using assms(5) by (simp add: Index_char_Some)
  ultimately have pn: "param_name ?last = n" using assms(4) by (simp add: param_name_def)
  have nr: "\<not> is_rest n" using assms(5,6) by (auto simp: is_rest_def HasSuffix_iff)
  have "match_parts (lits @ [?last]) (lits @ s # rest) m = Some (m(n \<mapsto> s))" for m
    using assms(2) by (induction lits) (auto simp: ip[simplified] pn[simplified] nr)
  then show ?thesis using c by (simp add: MatchPath_def assms(1,3))
qed

theorem named_rest_takes_one_segment_witness:
  "MatchPath ''/files/{path=**}'' ''/files/a/b/c'' = Some [''path'' \<mapsto> ''a'']"
proof -
  have p: "segments ''/files/{path=**}'' = [''files''] @ [''{'' @ ''path'' @ ''=**}'']" by code_simp
  have l: "\<forall>l \<in> set [''files'']. \<not> is_param l" by code_simp
  have s: "segments ''/files/a/b/c'' = [''files''] @ ''a'' # [''b'', ''c'']" by code_simp
  show ?thesis by (rule named_rest_takes_one_segment[OF p l s]) simp_all
qed

end
