(* ===== verification/RequestBuilder.thy ===== *)
theory RequestBuilder
  imports Routes
begin

text \<open>
  Building a request message, after \<^verbatim>\<open>gateway/transcoder/request_builder.go\<close>: field lookup under
  several spellings, conversion of strings to field values, nested paths, and the order in which
  body, path and query parameters are applied.

  The protobuf runtime is outside the repository.  Its operations are the fields of the record
  \<open>proto_api\<close>, an argument of the definitions, and so are the parsers of floats, times and
  durations and the JSON codec.  A message is a value; an operation that changes a message returns
  the changed one, with an error too, because what was set before the error stays set.  Storing a
  value of the wrong type panics: \<open>pb_Set\<close> answers \<open>None\<close>.
\<close>

section \<open>The protobuf runtime\<close>

datatype Kind = BoolKind | Int32Kind | Sint32Kind | Sfixed32Kind | Int64Kind | Sint64Kind | Sfixed64Kind
  | Uint32Kind | Fixed32Kind | Uint64Kind | Fixed64Kind | FloatKind | DoubleKind | StringKind | BytesKind
  | EnumKind | MessageKind | GroupKind

datatype ('msg, 'f) pval = VBool bool | VInt32 "32 word" | VInt64 "64 word" | VUint32 "32 word" | VUint64 "64 word"
  | VFloat32 'f | VFloat64 'f | VString string | VBytes "byte list" | VEnum "32 word" | VMessage 'msg
  | VList "('msg, 'f) pval list" | VInvalid

text \<open>A value of a JSON document, as \<open>encoding/json\<close> gives it to Go code.\<close>

datatype ('obj, 'f) goval = GString string | GFloat64 'f | GBool bool | GNil | GOther 'obj

record ('md, 'fd, 'msg, 'f, 'obj) proto_api =
  pb_Descriptor :: "'msg \<Rightarrow> 'md"
  pb_NewMessage :: "'md \<Rightarrow> 'msg"
  pb_ByJSONName :: "'md \<Rightarrow> string \<Rightarrow> 'fd option"
  pb_ByName :: "'md \<Rightarrow> string \<Rightarrow> 'fd option"
  pb_FullName :: "'md \<Rightarrow> string"
  pb_TypeByName :: "string \<Rightarrow> 'md"
  fd_Kind :: "'fd \<Rightarrow> Kind"
  fd_IsList :: "'fd \<Rightarrow> bool"
  fd_Message :: "'fd \<Rightarrow> 'md"
  fd_Name :: "'fd \<Rightarrow> string"
  fd_JSONName :: "'fd \<Rightarrow> string"
  fd_EnumValues :: "'fd \<Rightarrow> (string \<times> 32 word) list"
  pb_Has :: "'msg \<Rightarrow> 'fd \<Rightarrow> bool"
  pb_GetMessage :: "'msg \<Rightarrow> 'fd \<Rightarrow> 'msg option"
  pb_Set :: "'msg \<Rightarrow> 'fd \<Rightarrow> ('msg, 'f) pval \<Rightarrow> 'msg option"
  pb_String :: "('msg, 'f) pval \<Rightarrow> string"
  pb_Fields :: "'msg \<Rightarrow> ('fd \<times> ('msg, 'f) pval) list"
  protojson_Unmarshal :: "byte list \<Rightarrow> 'msg \<Rightarrow> 'msg option"
  json_Unmarshal_obj :: "byte list \<Rightarrow> 'obj option"
  json_Marshal_val :: "('obj, 'f) goval \<Rightarrow> byte list option"
  ParseFloat :: "nat \<Rightarrow> string \<Rightarrow> 'f option"
  FormatFloat :: "'f \<Rightarrow> string"
  time_Parse :: "string \<Rightarrow> (int \<times> int) option"
  ParseDuration :: "string \<Rightarrow> int option"
  int64_Seconds :: "int \<Rightarrow> int"
  f_int32 :: "'f \<Rightarrow> 32 word"
  f_int64 :: "'f \<Rightarrow> 64 word"
  f_uint32 :: "'f \<Rightarrow> 32 word"
  f_uint64 :: "'f \<Rightarrow> 64 word"
  f_float32 :: "'f \<Rightarrow> 'f"

datatype build_error = BodyReadErr | BodyUnmarshalErr | BodyParseErr | SetBodyFieldErr string build_error
  | FieldNotFound string | NotAMessageField string | InvalidValue string | CannotConvert | MarshalValueErr
  | SubMessageErr | UnsupportedKind | RuntimePanic

section \<open>Field names\<close>

definition snake_char :: "nat \<Rightarrow> char \<Rightarrow> string" where
  "snake_char i c = (if is_upper c then (if i > 0 then [CHR ''_'', lower_char c] else [lower_char c]) else [c])"

definition toSnakeCase :: "string \<Rightarrow> string" where
  "toSnakeCase s = concat (map (\<lambda>(i, c). snake_char i c) (enumerate 0 s))"

definition camel_part :: "nat \<Rightarrow> string \<Rightarrow> string" where
  "camel_part i p = (if i \<ge> 1 \<and> length p > 0 then ToUpper (take 1 p) @ drop 1 p else p)"

definition toCamelCase :: "string \<Rightarrow> string" where
  "toCamelCase s = concat (map (\<lambda>(i, p). camel_part i p) (enumerate 0 (Split CHR ''_'' s)))"

definition findField :: "('md, 'fd, 'msg, 'f, 'obj) proto_api \<Rightarrow> 'md \<Rightarrow> string \<Rightarrow> 'fd option" where
  "findField P md name =
     (case pb_ByJSONName P md name of
        Some fd \<Rightarrow> Some fd
      | None \<Rightarrow>
     (case pb_ByName P md name of
        Some fd \<Rightarrow> Some fd
      | None \<Rightarrow>
     (case pb_ByName P md (toSnakeCase name) of
        Some fd \<Rightarrow> Some fd
      | None \<Rightarrow> pb_ByJSONName P md (toCamelCase name))))"

section \<open>Values\<close>

definition set_opt :: "('md, 'fd, 'msg, 'f, 'obj) proto_api \<Rightarrow> 'fd option \<Rightarrow> ('msg, 'f) pval \<Rightarrow> 'msg
    \<Rightarrow> (build_error, 'msg) result" where
  "set_opt P fd v msg =
     (case fd of
        None \<Rightarrow> Inl RuntimePanic
      | Some fd \<Rightarrow> (case pb_Set P msg fd v of None \<Rightarrow> Inl RuntimePanic | Some m \<Rightarrow> Inr m))"

text \<open>A wrapper message with one or two of its fields set.\<close>

definition wrap1 :: "('md, 'fd, 'msg, 'f, 'obj) proto_api \<Rightarrow> 'fd \<Rightarrow> string \<Rightarrow> ('msg, 'f) pval
    \<Rightarrow> (build_error, ('msg, 'f) pval) result" where
  "wrap1 P fd field v =
     rbind (set_opt P (pb_ByName P (fd_Message P fd) field) v (pb_NewMessage P (fd_Message P fd)))
       (\<lambda>wrapper. Inr (VMessage wrapper))"

definition wrap2 :: "('md, 'fd, 'msg, 'f, 'obj) proto_api \<Rightarrow> 'fd \<Rightarrow> int \<Rightarrow> int
    \<Rightarrow> (build_error, ('msg, 'f) pval) result" where
  "wrap2 P fd seconds nanos =
     rbind (set_opt P (pb_ByName P (fd_Message P fd) ''seconds'') (VInt64 (word_of_int seconds))
              (pb_NewMessage P (fd_Message P fd))) (\<lambda>wrapper.
     rbind (set_opt P (pb_ByName P (fd_Message P fd) ''nanos'') (VInt32 (word_of_int nanos)) wrapper) (\<lambda>wrapper.
     Inr (VMessage wrapper)))"

definition nanos_per_second :: int where "nanos_per_second = 1000000000"

text \<open>Go's \<open>%\<close> truncates towards zero.\<close>

definition go_mod :: "int \<Rightarrow> int \<Rightarrow> int" where
  "go_mod a b = (if a < 0 then - ((- a) mod b) else a mod b)"

definition parse_message_value :: "('md, 'fd, 'msg, 'f, 'obj) proto_api \<Rightarrow> 'fd \<Rightarrow> string
    \<Rightarrow> (build_error, ('msg, 'f) pval) result" where
  "parse_message_value P fd v =
     (let fullName = pb_FullName P (fd_Message P fd) in
      if fullName = ''google.protobuf.StringValue'' then wrap1 P fd ''value'' (VString v)
      else if fullName = ''google.protobuf.Int32Value'' \<or> fullName = ''google.protobuf.Int64Value'' then
        (case ParseInt 64 v of
           None \<Rightarrow> Inl (InvalidValue v)
         | Some iv \<Rightarrow>
             if fullName = ''google.protobuf.Int32Value'' then wrap1 P fd ''value'' (VInt32 (word_of_int iv))
             else wrap1 P fd ''value'' (VInt64 (word_of_int iv)))
      else if fullName = ''google.protobuf.BoolValue'' then
        (case ParseBool v of None \<Rightarrow> Inl (InvalidValue v) | Some bv \<Rightarrow> wrap1 P fd ''value'' (VBool bv))
      else if fullName = ''google.protobuf.Timestamp'' then
        (case time_Parse P v of None \<Rightarrow> Inl (InvalidValue v) | Some (unix, nanosecond) \<Rightarrow> wrap2 P fd unix nanosecond)
      else if fullName = ''google.protobuf.Duration'' then
        (case ParseDuration P v of
           None \<Rightarrow> Inl (InvalidValue v)
         | Some d \<Rightarrow> wrap2 P fd (int64_Seconds P d) (go_mod d nanos_per_second))
      else Inl (InvalidValue fullName))"

definition find_enum :: "string \<Rightarrow> (string \<times> 32 word) list \<Rightarrow> 32 word option" where
  "find_enum v evs = map_option snd (List.find (\<lambda>(n, _). n = v \<or> EqualFold n v) evs)"

definition parseSingleValue :: "('md, 'fd, 'msg, 'f, 'obj) proto_api \<Rightarrow> 'fd \<Rightarrow> string
    \<Rightarrow> (build_error, ('msg, 'f) pval) result" where
  "parseSingleValue P fd v =
     (let int_value = (\<lambda>bits f. case ParseInt bits v of None \<Rightarrow> Inl (InvalidValue v) | Some iv \<Rightarrow> Inr (f iv));
          uint_value = (\<lambda>bits f. case ParseUint bits v of None \<Rightarrow> Inl (InvalidValue v) | Some uv \<Rightarrow> Inr (f uv));
          float_value = (\<lambda>bits f. case ParseFloat P bits v of None \<Rightarrow> Inl (InvalidValue v) | Some fv \<Rightarrow> Inr (f fv))
      in case fd_Kind P fd of
        BoolKind \<Rightarrow> (case ParseBool v of None \<Rightarrow> Inl (InvalidValue v) | Some bv \<Rightarrow> Inr (VBool bv))
      | Int32Kind \<Rightarrow> int_value 32 (\<lambda>iv. VInt32 (word_of_int iv))
      | Sint32Kind \<Rightarrow> int_value 32 (\<lambda>iv. VInt32 (word_of_int iv))
      | Sfixed32Kind \<Rightarrow> int_value 32 (\<lambda>iv. VInt32 (word_of_int iv))
      | Int64Kind \<Rightarrow> int_value 64 (\<lambda>iv. VInt64 (word_of_int iv))
      | Sint64Kind \<Rightarrow> int_value 64 (\<lambda>iv. VInt64 (word_of_int iv))
      | Sfixed64Kind \<Rightarrow> int_value 64 (\<lambda>iv. VInt64 (word_of_int iv))
      | Uint32Kind \<Rightarrow> uint_value 32 (\<lambda>uv. VUint32 (word_of_nat uv))
      | Fixed32Kind \<Rightarrow> uint_value 32 (\<lambda>uv. VUint32 (word_of_nat uv))
      | Uint64Kind \<Rightarrow> uint_value 64 (\<lambda>uv. VUint64 (word_of_nat uv))
      | Fixed64Kind \<Rightarrow> uint_value 64 (\<lambda>uv. VUint64 (word_of_nat uv))
      | FloatKind \<Rightarrow> float_value 32 (\<lambda>fv. VFloat32 (f_float32 P fv))
      | DoubleKind \<Rightarrow> float_value 64 VFloat64
      | StringKind \<Rightarrow> Inr (VString v)
      | BytesKind \<Rightarrow> Inr (VBytes (bytes_of_string v))
      | EnumKind \<Rightarrow>
          (case ParseInt 32 v of
             Some iv \<Rightarrow> Inr (VEnum (word_of_int iv))
           | None \<Rightarrow> (case find_enum v (fd_EnumValues P fd) of None \<Rightarrow> Inl (InvalidValue v) | Some n \<Rightarrow> Inr (VEnum n)))
      | MessageKind \<Rightarrow> parse_message_value P fd v
      | GroupKind \<Rightarrow> Inl UnsupportedKind)"

definition parseStringValue :: "('md, 'fd, 'msg, 'f, 'obj) proto_api \<Rightarrow> 'fd \<Rightarrow> string
    \<Rightarrow> (build_error, ('msg, 'f) pval) result" where
  "parseStringValue P fd v =
     (if fd_IsList P fd then
        rbind (fold_err (\<lambda>elems x. rbind (parseSingleValue P fd (TrimSpace x)) (\<lambda>elem. Inr (elems @ [elem]))) []
                 (Split CHR '','' v))
          (\<lambda>elems. Inr (VList elems))
      else parseSingleValue P fd v)"

definition convertToProtoValue :: "('md, 'fd, 'msg, 'f, 'obj) proto_api \<Rightarrow> 'fd \<Rightarrow> ('obj, 'f) goval
    \<Rightarrow> (build_error, ('msg, 'f) pval) result" where
  "convertToProtoValue P fd gv =
     (case gv of
        GString s \<Rightarrow> parseSingleValue P fd s
      | GFloat64 f \<Rightarrow>
          (case fd_Kind P fd of
             Int32Kind \<Rightarrow> Inr (VInt32 (f_int32 P f)) | Sint32Kind \<Rightarrow> Inr (VInt32 (f_int32 P f))
           | Sfixed32Kind \<Rightarrow> Inr (VInt32 (f_int32 P f))
           | Int64Kind \<Rightarrow> Inr (VInt64 (f_int64 P f)) | Sint64Kind \<Rightarrow> Inr (VInt64 (f_int64 P f))
           | Sfixed64Kind \<Rightarrow> Inr (VInt64 (f_int64 P f))
           | Uint32Kind \<Rightarrow> Inr (VUint32 (f_uint32 P f)) | Fixed32Kind \<Rightarrow> Inr (VUint32 (f_uint32 P f))
           | Uint64Kind \<Rightarrow> Inr (VUint64 (f_uint64 P f)) | Fixed64Kind \<Rightarrow> Inr (VUint64 (f_uint64 P f))
           | FloatKind \<Rightarrow> Inr (VFloat32 (f_float32 P f)) | DoubleKind \<Rightarrow> Inr (VFloat64 f)
           | EnumKind \<Rightarrow> Inr (VEnum (f_int32 P f))
           | _ \<Rightarrow> Inl CannotConvert)
      | GBool b \<Rightarrow> Inr (VBool b)
      | GNil \<Rightarrow> Inr VInvalid
      | GOther _ \<Rightarrow> Inl CannotConvert)"

section \<open>Setting fields\<close>

definition setField :: "('md, 'fd, 'msg, 'f, 'obj) proto_api \<Rightarrow> 'msg \<Rightarrow> string \<Rightarrow> ('obj, 'f) goval
    \<Rightarrow> (build_error, 'msg) result" where
  "setField P msg fieldName gv =
     (let md = pb_Descriptor P msg;
          fd = (case pb_ByJSONName P md fieldName of
                  Some fd \<Rightarrow> Some fd
                | None \<Rightarrow> (case pb_ByName P md fieldName of Some fd \<Rightarrow> Some fd | None \<Rightarrow> findField P md fieldName))
      in case fd of
           None \<Rightarrow> Inl (FieldNotFound fieldName)
         | Some fd \<Rightarrow>
             if fd_Kind P fd = MessageKind then
               (case json_Marshal_val P gv of
                  None \<Rightarrow> Inl MarshalValueErr
                | Some jsonBytes \<Rightarrow>
                    (case protojson_Unmarshal P jsonBytes (pb_NewMessage P (fd_Message P fd)) of
                       None \<Rightarrow> Inl SubMessageErr
                     | Some subMsg \<Rightarrow> set_opt P (Some fd) (VMessage subMsg) msg))
             else rbind (convertToProtoValue P fd gv) (\<lambda>pv. set_opt P (Some fd) pv msg))"

text \<open>
  The walk along a dotted path.  A nested message that is missing is created and stored before the
  walk goes on, so it stays there when a later segment fails.
\<close>

fun set_path :: "('md, 'fd, 'msg, 'f, 'obj) proto_api \<Rightarrow> 'msg \<Rightarrow> string list \<Rightarrow> string
    \<Rightarrow> build_error option \<times> 'msg" where
  "set_path P current [] v = (None, current)"
| "set_path P current [part] v =
     (case findField P (pb_Descriptor P current) part of
        None \<Rightarrow> (Some (FieldNotFound part), current)
      | Some fd \<Rightarrow>
          (case parseStringValue P fd v of
             Inl e \<Rightarrow> (Some e, current)
           | Inr pv \<Rightarrow> (case set_opt P (Some fd) pv current of Inl e \<Rightarrow> (Some e, current) | Inr m \<Rightarrow> (None, m))))"
| "set_path P current (part # p # ps) v =
     (case findField P (pb_Descriptor P current) part of
        None \<Rightarrow> (Some (FieldNotFound part), current)
      | Some fd \<Rightarrow>
          if fd_Kind P fd \<noteq> MessageKind then (Some (NotAMessageField part), current)
          else
            (case (if pb_Has P current fd then pb_GetMessage P current fd
                   else Some (pb_NewMessage P (fd_Message P fd))) of
               None \<Rightarrow> (Some RuntimePanic, current)
             | Some nested \<Rightarrow>
                 (let (err, nested') = set_path P nested (p # ps) v in
                  case set_opt P (Some fd) (VMessage nested') current of
                    Inl e \<Rightarrow> (Some e, current)
                  | Inr m \<Rightarrow> (err, m))))"

definition setFieldByPath :: "('md, 'fd, 'msg, 'f, 'obj) proto_api \<Rightarrow> 'msg \<Rightarrow> string \<Rightarrow> string
    \<Rightarrow> build_error option \<times> 'msg" where
  "setFieldByPath P msg path v = set_path P msg (Split CHR ''.'' path) v"

section \<open>Building the request\<close>

datatype Body = NilBody | BrokenBody | Body "byte list"

text \<open>
  The request as the builder and the transcoder read it.  \<open>rq_Query\<close> is the parsed query in the
  order Go iterates it; \<open>rq_Header\<close> is \<open>Header.Get\<close>, empty for a missing header.
\<close>

record 'ctx HttpRequest =
  rq_Method :: string
  rq_Path :: string
  rq_Query :: "(string \<times> string list) list"
  rq_Body :: Body
  rq_ContentLength :: int
  rq_Header :: "string \<Rightarrow> string"
  rq_RemoteAddr :: string
  rq_Context :: 'ctx

definition apply_body :: "('md, 'fd, 'msg, 'f, 'obj) proto_api \<Rightarrow> 'ctx HttpRequest \<Rightarrow> HTTPRule \<Rightarrow> 'msg
    \<Rightarrow> (build_error, 'msg) result" where
  "apply_body P req httpRule msg =
     (if rq_Body req \<noteq> NilBody \<and> rq_ContentLength req > 0 then
        (case rq_Body req of
           Body bodyBytes \<Rightarrow>
             if length bodyBytes > 0 then
               (if hr_Body httpRule = ''*'' then
                  (case protojson_Unmarshal P bodyBytes msg of None \<Rightarrow> Inl BodyUnmarshalErr | Some m \<Rightarrow> Inr m)
                else if hr_Body httpRule \<noteq> [] then
                  (case json_Unmarshal_obj P bodyBytes of
                     None \<Rightarrow> Inl BodyParseErr
                   | Some bodyData \<Rightarrow>
                       (case setField P msg (hr_Body httpRule) (GOther bodyData) of
                          Inl RuntimePanic \<Rightarrow> Inl RuntimePanic
                        | Inl e \<Rightarrow> Inl (SetBodyFieldErr (hr_Body httpRule) e)
                        | Inr m \<Rightarrow> Inr m))
                else Inr msg)
             else Inr msg
         | _ \<Rightarrow> Inl BodyReadErr)
      else Inr msg)"

text \<open>A parameter that cannot be set is only logged; a panic is not.\<close>

definition apply_param :: "('md, 'fd, 'msg, 'f, 'obj) proto_api \<Rightarrow> 'msg \<Rightarrow> string \<times> string
    \<Rightarrow> (build_error, 'msg) result" where
  "apply_param P msg nv =
     (case setFieldByPath P msg (fst nv) (snd nv) of
        (Some RuntimePanic, _) \<Rightarrow> Inl RuntimePanic
      | (_, msg') \<Rightarrow> Inr msg')"

text \<open>\<open>keys\<close> lists the keys of a map in the order Go iterates it.\<close>

definition path_assigns :: "((string \<rightharpoonup> string) \<Rightarrow> string list) \<Rightarrow> (string \<rightharpoonup> string) \<Rightarrow> (string \<times> string) list" where
  "path_assigns keys pathParams = map (\<lambda>n. (n, the (pathParams n))) (keys pathParams)"

definition query_assigns :: "'ctx HttpRequest \<Rightarrow> (string \<rightharpoonup> string) \<Rightarrow> (string \<times> string) list" where
  "query_assigns req pathParams =
     concat (map (\<lambda>(name, values). if pathParams name \<noteq> None then []
                                   else if length values > 0 then [(name, values ! 0)] else []) (rq_Query req))"

definition BuildRequest :: "('md, 'fd, 'msg, 'f, 'obj) proto_api \<Rightarrow> ((string \<rightharpoonup> string) \<Rightarrow> string list)
    \<Rightarrow> 'ctx HttpRequest \<Rightarrow> MethodInfo \<Rightarrow> HTTPRule \<Rightarrow> (string \<rightharpoonup> string) \<Rightarrow> (build_error, 'msg) result" where
  "BuildRequest P keys req method httpRule pathParams =
     rbind (apply_body P req httpRule (pb_NewMessage P (pb_TypeByName P (mi_InputType method)))) (\<lambda>msg.
     rbind (fold_err (apply_param P) msg (path_assigns keys pathParams)) (\<lambda>msg.
     fold_err (apply_param P) msg (query_assigns req pathParams)))"

text \<open>
  The query value of a field, \<open>None\<close> for kinds the function leaves out.  Reading a value with the
  accessor of another type panics, except \<open>String\<close>, which prints any value.
\<close>

definition query_value :: "('md, 'fd, 'msg, 'f, 'obj) proto_api \<Rightarrow> 'fd \<Rightarrow> ('msg, 'f) pval
    \<Rightarrow> (build_error, string option) result" where
  "query_value P fd v =
     (let int_text = (case v of VInt32 i \<Rightarrow> Inr (Some (FormatInt (sint i))) | VInt64 i \<Rightarrow> Inr (Some (FormatInt (sint i)))
                      | _ \<Rightarrow> Inl RuntimePanic);
          uint_text = (case v of VUint32 u \<Rightarrow> Inr (Some (FormatUint (unat u))) | VUint64 u \<Rightarrow> Inr (Some (FormatUint (unat u)))
                       | _ \<Rightarrow> Inl RuntimePanic);
          float_text = (case v of VFloat32 f \<Rightarrow> Inr (Some (FormatFloat P f)) | VFloat64 f \<Rightarrow> Inr (Some (FormatFloat P f))
                        | _ \<Rightarrow> Inl RuntimePanic)
      in case fd_Kind P fd of
        BoolKind \<Rightarrow> (case v of VBool b \<Rightarrow> Inr (Some (FormatBool b)) | _ \<Rightarrow> Inl RuntimePanic)
      | Int32Kind \<Rightarrow> int_text | Int64Kind \<Rightarrow> int_text | Sint32Kind \<Rightarrow> int_text | Sint64Kind \<Rightarrow> int_text
      | Uint32Kind \<Rightarrow> uint_text | Uint64Kind \<Rightarrow> uint_text
      | FloatKind \<Rightarrow> float_text | DoubleKind \<Rightarrow> float_text
      | StringKind \<Rightarrow> Inr (Some (case v of VString s \<Rightarrow> s | _ \<Rightarrow> pb_String P v))
      | EnumKind \<Rightarrow> (case v of VEnum n \<Rightarrow> Inr (Some (FormatInt (sint n))) | _ \<Rightarrow> Inl RuntimePanic)
      | _ \<Rightarrow> Inr None)"

definition BuildQueryString :: "('md, 'fd, 'msg, 'f, 'obj) proto_api \<Rightarrow> 'msg \<Rightarrow> string list
    \<Rightarrow> (build_error, string \<rightharpoonup> string list) result" where
  "BuildQueryString P msg exclude =
     fold_err (\<lambda>vals (fd, v).
        let name = fd_JSONName P fd in
        if set_of_loop exclude name \<or> set_of_loop exclude (fd_Name P fd) then Inr vals
        else rbind (query_value P fd v) (\<lambda>t. Inr (case t of None \<Rightarrow> vals | Some s \<Rightarrow> vals(name \<mapsto> [s]))))
       Map.empty (pb_Fields P msg)"

section \<open>Names: lemmas\<close>

lemma concat_enumerate_tail:
  "0 < k \<Longrightarrow> concat (map (\<lambda>(i, c). snake_char i c) (enumerate k s)) = concat (map (snake_char 1) s)"
  by (induction s arbitrary: k) (auto simp: snake_char_def)

lemma toSnakeCase_Cons: "toSnakeCase (c # s) = snake_char 0 c @ concat (map (snake_char 1) s)"
  by (simp add: toSnakeCase_def concat_enumerate_tail)

lemma concat_enumerate_camel:
  "0 < k \<Longrightarrow> concat (map (\<lambda>(i, p). camel_part i p) (enumerate k ps)) = concat (map (camel_part 1) ps)"
  by (induction ps arbitrary: k) (auto simp: camel_part_def)

lemma snake_plain: "\<not> is_upper c \<Longrightarrow> snake_char i c = [c]"
  by (simp add: snake_char_def)

lemma snake_plain_all: "\<forall>c \<in> set s. \<not> is_upper c \<Longrightarrow> concat (map (snake_char i) s) = s"
  by (induction s) (simp_all add: snake_plain)

lemma upper_lower: "is_lower c \<Longrightarrow> is_upper (upper_char c) \<and> lower_char (upper_char c) = c"
proof -
  assume l: "is_lower c"
  then have "of_char (upper_char c) = (of_char c :: nat) - 32"
    by (auto simp: upper_char_def is_lower_def of_char_of)
  then show ?thesis using l by (auto simp: lower_char_def is_upper_def is_lower_def of_char_of)
qed

lemma is_lower_not_upper: "is_lower c \<Longrightarrow> \<not> is_upper c"
  by (simp add: is_lower_def is_upper_def)

text \<open>A word of a snake-case name: a lower-case letter followed by anything but capitals.\<close>

definition snake_word :: "string \<Rightarrow> bool" where
  "snake_word p \<longleftrightarrow> p \<noteq> [] \<and> is_lower (hd p) \<and> (\<forall>c \<in> set p. \<not> is_upper c \<and> c \<noteq> CHR ''_'')"

lemma snake_camel_part:
  assumes "snake_word p"
  shows "concat (map (snake_char 1) (camel_part 1 p)) = CHR ''_'' # p"
proof -
  obtain c q where p: "p = c # q" "is_lower c" using assms by (cases p) (auto simp: snake_word_def)
  have "snake_char 1 (upper_char c) = [CHR ''_'', c]" using upper_lower[OF p(2)] by (simp add: snake_char_def)
  then show ?thesis using assms p by (simp add: camel_part_def ToUpper_def snake_plain_all snake_word_def)
qed

lemma Join_underscore: "Join ''_'' (p # ps) = p @ concat (map ((#) CHR ''_'') ps)"
  by (induction ps arbitrary: p) auto

lemma snake_of_camel:
  assumes "\<forall>p \<in> set (p0 # ps). snake_word p"
  shows "toSnakeCase (toCamelCase (Join ''_'' (p0 # ps))) = Join ''_'' (p0 # ps)"
proof -
  have "Split CHR ''_'' (Join ''_'' (p0 # ps)) = p0 # ps"
    using assms by (intro Split_Join) (auto simp: snake_word_def)
  then have c: "toCamelCase (Join ''_'' (p0 # ps)) = p0 @ concat (map (camel_part 1) ps)"
    by (simp add: toCamelCase_def concat_enumerate_camel) (simp add: camel_part_def)
  obtain c q where p0: "p0 = c # q" "is_lower c" "\<forall>c \<in> set q. \<not> is_upper c"
    using assms by (cases p0) (auto simp: snake_word_def)
  have "concat (map (snake_char 1) (concat (map (camel_part 1) ps))) = concat (map ((#) CHR ''_'') ps)"
    using assms by (induction ps) (simp_all add: snake_camel_part del: One_nat_def)
  then show ?thesis unfolding c unfolding Join_underscore p0(1)
    by (simp add: toSnakeCase_Cons snake_plain is_lower_not_upper[OF p0(2)] snake_plain_all[OF p0(3)])
qed

section \<open>Values: lemmas\<close>

lemma ParseInt_sint:
  fixes i :: "'a::len word"
  shows "ParseInt LENGTH('a) (FormatInt (sint i)) = Some (sint i)"
  using sint_greater_eq[of i] sint_less[of i] by (intro ParseInt_FormatInt) simp_all

lemma ParseUint_unat:
  fixes u :: "'a::len word"
  shows "ParseUint LENGTH('a) (FormatUint (unat u)) = Some (unat u)"
  by (rule ParseUint_FormatUint) (rule unsigned_less)

lemma ParseInt_32 [simp]: "ParseInt 32 (FormatInt (sint (i :: 32 word))) = Some (sint i)"
  and ParseInt_64 [simp]: "ParseInt 64 (FormatInt (sint (j :: 64 word))) = Some (sint j)"
  and ParseUint_32 [simp]: "ParseUint 32 (FormatUint (unat (u :: 32 word))) = Some (unat u)"
  and ParseUint_64 [simp]: "ParseUint 64 (FormatUint (unat (w :: 64 word))) = Some (unat w)"
  using ParseInt_sint[of i] ParseInt_sint[of j] ParseUint_unat[of u] ParseUint_unat[of w] by simp_all

lemma ParseBool_FormatBool [simp]: "ParseBool (FormatBool b) = Some b"
  by (cases b) (simp_all add: ParseBool_def FormatBool_def)

text \<open>A value that fits the kind of its field, for the kinds whose text is read back exactly.\<close>

definition fits :: "('md, 'fd, 'msg, 'f, 'obj) proto_api \<Rightarrow> 'fd \<Rightarrow> ('msg, 'f) pval \<Rightarrow> bool" where
  "fits P fd v \<longleftrightarrow>
     (case v of
        VBool _ \<Rightarrow> fd_Kind P fd = BoolKind
      | VInt32 _ \<Rightarrow> fd_Kind P fd \<in> {Int32Kind, Sint32Kind}
      | VInt64 _ \<Rightarrow> fd_Kind P fd \<in> {Int64Kind, Sint64Kind}
      | VUint32 _ \<Rightarrow> fd_Kind P fd = Uint32Kind
      | VUint64 _ \<Rightarrow> fd_Kind P fd = Uint64Kind
      | VString _ \<Rightarrow> fd_Kind P fd = StringKind
      | VEnum _ \<Rightarrow> fd_Kind P fd = EnumKind
      | _ \<Rightarrow> False)"

section \<open>Properties\<close>

text \<open>
  \<open>query_value_roundtrip\<close>: what \<open>BuildQueryString\<close> writes for a boolean, integer, string or enum
  field, \<open>parseSingleValue\<close> reads back to the same value, at the width of the field.
\<close>

theorem query_value_roundtrip:
  assumes "fits P fd v"
  shows "\<exists>t. query_value P fd v = Inr (Some t) \<and> parseSingleValue P fd t = Inr v"
  using assms by (cases v) (auto simp: fits_def query_value_def parseSingleValue_def)

text \<open>
  An example runtime: a field descriptor is its kind, a message is the text last stored in it, and
  the only field name is \<open>user_id\<close>, a string.
\<close>

definition demo_proto :: "(unit, Kind, string, unit, unit) proto_api" where
  "demo_proto = \<lparr>pb_Descriptor = (\<lambda>_. ()), pb_NewMessage = (\<lambda>_. []),
     pb_ByJSONName = (\<lambda>_ n. if n = ''userId'' then Some StringKind else None),
     pb_ByName = (\<lambda>_ n. if n = ''user_id'' then Some StringKind else if n = ''value'' then Some Int32Kind else None),
     pb_FullName = (\<lambda>_. ''google.protobuf.Int32Value''), pb_TypeByName = (\<lambda>_. ()),
     fd_Kind = (\<lambda>k. k), fd_IsList = (\<lambda>_. False), fd_Message = (\<lambda>_. ()), fd_Name = (\<lambda>_. ''user_id''),
     fd_JSONName = (\<lambda>_. ''userId''), fd_EnumValues = (\<lambda>_. []), pb_Has = (\<lambda>_ _. False),
     pb_GetMessage = (\<lambda>_ _. None), pb_Set = (\<lambda>_ _ v. Some (case v of VString s \<Rightarrow> s | _ \<Rightarrow> [])),
     pb_String = (\<lambda>_. []), pb_Fields = (\<lambda>m. [(StringKind, VString m)]), protojson_Unmarshal = (\<lambda>_ m. Some m),
     json_Unmarshal_obj = (\<lambda>_. Some ()), json_Marshal_val = (\<lambda>_. Some []), ParseFloat = (\<lambda>_ _. None),
     FormatFloat = (\<lambda>_. []), time_Parse = (\<lambda>_. None), ParseDuration = (\<lambda>_. None), int64_Seconds = (\<lambda>d. d),
     f_int32 = (\<lambda>_. 0), f_int64 = (\<lambda>_. 0), f_uint32 = (\<lambda>_. 0), f_uint64 = (\<lambda>_. 0), f_float32 = (\<lambda>f. f)\<rparr>"

lemma demo_proto_simps [simp]: "fd_Kind demo_proto k = k" "fd_IsList demo_proto k = False"
  "pb_FullName demo_proto md = ''google.protobuf.Int32Value''" "pb_TypeByName demo_proto n = ()"
  "pb_Set demo_proto m k v = Some (case v of VString s \<Rightarrow> s | _ \<Rightarrow> [])"
  "pb_ByJSONName demo_proto md n = (if n = ''userId'' then Some StringKind else None)"
  "pb_ByName demo_proto md n =
     (if n = ''user_id'' then Some StringKind else if n = ''value'' then Some Int32Kind else None)"
  by (simp_all add: demo_proto_def)

definition demo_request :: "unit HttpRequest" where
  "demo_request = \<lparr>rq_Method = ''GET'', rq_Path = ''/v1/users/7'', rq_Query = [(''userId'', [''8''])],
     rq_Body = NilBody, rq_ContentLength = 0, rq_Header = (\<lambda>_. []), rq_RemoteAddr = [], rq_Context = ()\<rparr>"

definition demo_method :: MethodInfo where
  "demo_method = \<lparr>mi_ServiceName = ''Users'', mi_MethodName = ''Get'', mi_FullName = ''acme.Users.Get'',
     mi_InputType = ''acme.GetReq'', mi_OutputType = ''acme.User'',
     mi_HTTPRules = [\<lparr>hr_Method = ''GET'', hr_Pattern = ''/v1/users/{user_id}'', hr_Body = [], hr_ResponseBody = []\<rparr>],
     mi_IsClientStreaming = False, mi_IsServerStreaming = False\<rparr>"

theorem query_value_roundtrip_witness:
  "\<exists>t. query_value demo_proto Int32Kind (VInt32 (- 5)) = Inr (Some t) \<and>
     parseSingleValue demo_proto Int32Kind t = Inr (VInt32 (- 5))"
  by (rule query_value_roundtrip) (simp add: fits_def)

lemma sint_cut32: "sint (word_of_int i :: 32 word) = (i + 2 ^ 31) mod 2 ^ 32 - 2 ^ 31"
  by (simp add: signed_of_int signed_take_bit_eq_take_bit_shift take_bit_eq_mod)

lemma ParseInt_narrow: "ParseInt 32 s = Some j \<Longrightarrow> ParseInt 64 s = Some j"
  by (auto simp: ParseInt_def ParseUint_def Let_def split: if_splits option.splits)

text \<open>
  C40 (\<open>int32_wrapper_wraps\<close>): what becomes of a 64-bit number in a request.  A plain 32-bit field takes it
  exactly when it fits, and refuses it otherwise.  A field of the well-known type \<open>Int32Value\<close> takes every one
  without an error, cut to 32 bits: the value stored is the number wrapped around into the range.
\<close>

theorem int32_wrapper_wraps:
  assumes "fd_Kind P fd = MessageKind" and "pb_FullName P (fd_Message P fd) = ''google.protobuf.Int32Value''"
    and "fd_Kind P fd' = Int32Kind" and "- (2 ^ 63) \<le> i" and "i < 2 ^ 63"
  shows "\<exists>v. parseSingleValue P fd (FormatInt i) = wrap1 P fd ''value'' (VInt32 v) \<and> sint v = (i + 2 ^ 31) mod 2 ^ 32 - 2 ^ 31 \<and>
    parseSingleValue P fd' (FormatInt i) =
      (if - (2 ^ 31) \<le> i \<and> i < 2 ^ 31 then Inr (VInt32 v) else Inl (InvalidValue (FormatInt i)))"
proof -
  have p: "ParseInt 64 (FormatInt i) = Some i" using ParseInt_FormatInt[of 64] assms(4,5) by simp
  have "parseSingleValue P fd' (FormatInt i) =
      (if - (2 ^ 31) \<le> i \<and> i < 2 ^ 31 then Inr (VInt32 (word_of_int i)) else Inl (InvalidValue (FormatInt i)))"
  proof (cases "- (2 ^ 31) \<le> i \<and> i < 2 ^ 31")
    case True
    then have "ParseInt 32 (FormatInt i) = Some i" using ParseInt_FormatInt[of 32] by simp
    then show ?thesis using True assms(3) by (simp add: parseSingleValue_def)
  next
    case False
    have "ParseInt 32 (FormatInt i) = None"
    proof (rule ccontr)
      assume "ParseInt 32 (FormatInt i) \<noteq> None"
      then obtain j where j: "ParseInt 32 (FormatInt i) = Some j" by blast
      then show False using ParseInt_narrow[OF j] p ParseInt_bounds[OF j] False by simp
    qed
    then show ?thesis using False assms(3) by (simp add: parseSingleValue_def)
  qed
  moreover have "parseSingleValue P fd (FormatInt i) = wrap1 P fd ''value'' (VInt32 (word_of_int i))"
    using p assms(1,2) by (simp add: parseSingleValue_def parse_message_value_def Let_def)
  ultimately show ?thesis using sint_cut32[of i] by blast
qed

theorem int32_wrapper_wraps_witness:
  "\<exists>v. parseSingleValue demo_proto MessageKind (FormatInt (7 + 2 ^ 32)) = wrap1 demo_proto MessageKind ''value'' (VInt32 v) \<and> sint v = 7 \<and>
    parseSingleValue demo_proto Int32Kind (FormatInt (7 + 2 ^ 32)) = Inl (InvalidValue (FormatInt (7 + 2 ^ 32)))"
  using int32_wrapper_wraps[of demo_proto MessageKind Int32Kind "7 + 2 ^ 32"] by simp

text \<open>
  \<open>field_name_roundtrip\<close>: converting a snake-case field name to camel case and back gives the
  name again, so a parameter in JSON spelling finds the field it was derived from.
\<close>

theorem field_name_roundtrip:
  assumes "ps \<noteq> []" and "\<forall>p \<in> set ps. snake_word p"
  shows "toSnakeCase (toCamelCase (Join ''_'' ps)) = Join ''_'' ps"
  using snake_of_camel assms by (cases ps) auto

theorem field_name_roundtrip_witness: "toSnakeCase (toCamelCase ''tenant_id'') = ''tenant_id''"
  using field_name_roundtrip[of "[''tenant'', ''id'']"] by (simp add: snake_word_def is_lower_def is_upper_def)

text \<open>
  \<open>unsized_body_ignored\<close>: a request whose body has no declared length, as with chunked transfer,
  is built as if it had no body, without an error.
\<close>

theorem unsized_body_ignored:
  assumes "rq_ContentLength req \<le> 0"
  shows "BuildRequest P keys req method rule params = BuildRequest P keys (req\<lparr>rq_Body := NilBody\<rparr>) method rule params"
  using assms by (simp add: BuildRequest_def apply_body_def query_assigns_def)

theorem unsized_body_ignored_witness:
  "BuildRequest demo_proto (\<lambda>_. []) (demo_request\<lparr>rq_Body := Body [1], rq_ContentLength := - 1\<rparr>) demo_method
     \<lparr>hr_Method = ''POST'', hr_Pattern = ''/v1'', hr_Body = ''*'', hr_ResponseBody = []\<rparr> Map.empty =
   BuildRequest demo_proto (\<lambda>_. []) (demo_request\<lparr>rq_Body := Body [1], rq_ContentLength := - 1, rq_Body := NilBody\<rparr>) demo_method
     \<lparr>hr_Method = ''POST'', hr_Pattern = ''/v1'', hr_Body = ''*'', hr_ResponseBody = []\<rparr> Map.empty"
  by (rule unsized_body_ignored) simp

text \<open>
  \<open>query_alias_overrides_path\<close>: the guard that keeps query parameters from overriding path
  parameters compares spellings, not fields.  When a path parameter and a differently spelled
  query parameter name the same scalar field, the message is the one without the path parameter.
\<close>

theorem query_alias_overrides_path:
  assumes md: "md = pb_TypeByName P (mi_InputType method)"
    and fld: "findField P md p = Some fd" "findField P md q = Some fd" "p \<noteq> q" "CHR ''.'' \<notin> set p" "CHR ''.'' \<notin> set q"
    and val: "parseStringValue P fd v = Inr pv" "parseStringValue P fd w = Inr qv"
    and law: "\<And>m. pb_Descriptor P m = md \<Longrightarrow> \<exists>m1. pb_Set P m fd pv = Some m1 \<and> pb_Descriptor P m1 = md \<and>
        pb_Set P m1 fd qv = pb_Set P m fd qv \<and> pb_Set P m fd qv \<noteq> None"
      "pb_Descriptor P (pb_NewMessage P md) = md"
    and req: "rq_Body req = NilBody" "rq_Query req = [(q, [w])]" "keys [p \<mapsto> v] = [p]" "keys Map.empty = []"
  shows "BuildRequest P keys req method rule [p \<mapsto> v] = BuildRequest P keys req method rule Map.empty \<and>
    is_ok (BuildRequest P keys req method rule [p \<mapsto> v])"
proof -
  let ?m = "pb_NewMessage P md"
  obtain m1 where m1: "pb_Set P ?m fd pv = Some m1" "pb_Descriptor P m1 = md" "pb_Set P m1 fd qv = pb_Set P ?m fd qv"
    using law by blast
  obtain m2 where m2: "pb_Set P ?m fd qv = Some m2" using law by blast
  have "apply_param P ?m (p, v) = Inr m1"
    using fld val law(2) m1 by (simp add: apply_param_def setFieldByPath_def Split_sep_free set_opt_def)
  moreover have "apply_param P m1 (q, w) = Inr m2" "apply_param P ?m (q, w) = Inr m2"
    using fld val law(2) m1 m2 by (simp_all add: apply_param_def setFieldByPath_def Split_sep_free set_opt_def)
  ultimately show ?thesis using req fld(3)
    by (simp add: BuildRequest_def apply_body_def path_assigns_def query_assigns_def flip: md)
qed

theorem query_alias_overrides_path_witness:
  "BuildRequest demo_proto (\<lambda>m. if m = Map.empty then [] else [''user_id'']) demo_request demo_method
      (hd (mi_HTTPRules demo_method)) [''user_id'' \<mapsto> ''7''] =
   BuildRequest demo_proto (\<lambda>m. if m = Map.empty then [] else [''user_id'']) demo_request demo_method
      (hd (mi_HTTPRules demo_method)) Map.empty"
proof -
  have f: "findField demo_proto () ''user_id'' = Some StringKind" "findField demo_proto () ''userId'' = Some StringKind"
    by (simp_all add: findField_def)
  have v: "parseStringValue demo_proto StringKind x = Inr (VString x)" for x
    by (simp add: parseStringValue_def parseSingleValue_def)
  show ?thesis
    by (rule query_alias_overrides_path[THEN conjunct1, OF _ f _ _ _ v[of "''7''"] v[of "''8''"]])
      (simp_all add: demo_request_def)
qed

end
