(* ===== verification/RequestTyping.thy ===== *)
theory RequestTyping
  imports RequestBuilder
begin

text \<open>
  Typing of the messages that \<^verbatim>\<open>gateway/transcoder/request_builder.go\<close> builds.  The protobuf runtime checks
  types when a field is stored and panics on a mismatch; this theory shows which requests make the
  builder run into that check.  Every value the string parser makes has the type of its field, so the
  ways to a panic are a dotted parameter name that walks through a repeated or a map field, and a
  body rule that names such a field.

  \<open>proto_laws\<close> collects what the runtime documents.  \<open>is_map\<close> is the runtime's \<open>IsMap\<close>, which the
  builder never asks.
\<close>

section \<open>Types of values\<close>

fun value_kinds :: "('msg, 'f) pval \<Rightarrow> Kind list" where
  "value_kinds (VBool _) = [BoolKind]"
| "value_kinds (VInt32 _) = [Int32Kind, Sint32Kind, Sfixed32Kind]"
| "value_kinds (VInt64 _) = [Int64Kind, Sint64Kind, Sfixed64Kind]"
| "value_kinds (VUint32 _) = [Uint32Kind, Fixed32Kind]"
| "value_kinds (VUint64 _) = [Uint64Kind, Fixed64Kind]"
| "value_kinds (VFloat32 _) = [FloatKind]"
| "value_kinds (VFloat64 _) = [DoubleKind]"
| "value_kinds (VString _) = [StringKind]"
| "value_kinds (VBytes _) = [BytesKind]"
| "value_kinds (VEnum _) = [EnumKind]"
| "value_kinds (VMessage _) = [MessageKind, GroupKind]"
| "value_kinds (VList _) = []"
| "value_kinds VInvalid = []"

definition elem_typed :: "('md, 'fd, 'msg, 'f, 'obj) proto_api \<Rightarrow> 'fd \<Rightarrow> ('msg, 'f) pval \<Rightarrow> bool" where
  "elem_typed P fd v \<longleftrightarrow> fd_Kind P fd \<in> set (value_kinds v) \<and>
     (case v of VMessage m \<Rightarrow> pb_Descriptor P m = fd_Message P fd | _ \<Rightarrow> True)"

definition well_typed :: "('md, 'fd, 'msg, 'f, 'obj) proto_api \<Rightarrow> ('fd \<Rightarrow> bool) \<Rightarrow> 'fd \<Rightarrow> ('msg, 'f) pval \<Rightarrow> bool" where
  "well_typed P is_map fd v \<longleftrightarrow>
     (if fd_IsList P fd then (case v of VList vs \<Rightarrow> list_all (elem_typed P fd) vs | _ \<Rightarrow> False)
      else \<not> is_map fd \<and> elem_typed P fd v)"

definition field_of :: "('md, 'fd, 'msg, 'f, 'obj) proto_api \<Rightarrow> 'md \<Rightarrow> 'fd \<Rightarrow> bool" where
  "field_of P md fd \<longleftrightarrow> (\<exists>n. pb_ByName P md n = Some fd \<or> pb_ByJSONName P md n = Some fd)"

section \<open>The runtime\<close>

text \<open>The fields of the well-known types, as their published definitions have them.\<close>

definition well_known :: "(string \<times> string \<times> Kind) list" where
  "well_known =
     [(''google.protobuf.StringValue'', ''value'', StringKind), (''google.protobuf.Int32Value'', ''value'', Int32Kind),
      (''google.protobuf.Int64Value'', ''value'', Int64Kind), (''google.protobuf.BoolValue'', ''value'', BoolKind),
      (''google.protobuf.Timestamp'', ''seconds'', Int64Kind), (''google.protobuf.Timestamp'', ''nanos'', Int32Kind),
      (''google.protobuf.Duration'', ''seconds'', Int64Kind), (''google.protobuf.Duration'', ''nanos'', Int32Kind)]"

definition singular :: "('md, 'fd, 'msg, 'f, 'obj) proto_api \<Rightarrow> ('fd \<Rightarrow> bool) \<Rightarrow> 'fd \<Rightarrow> bool" where
  "singular P is_map fd \<longleftrightarrow> \<not> fd_IsList P fd \<and> \<not> is_map fd"

text \<open>
  A new message has the type it is made for; storing a value of the field's type succeeds, and
  storing, like decoding JSON into a message, keeps the message's type; the value of a singular
  message field is a message of the field's type; a repeated or map field neither takes nor yields
  a message.  The entries of a map field are not of a well-known type.
\<close>

definition proto_laws :: "('md, 'fd, 'msg, 'f, 'obj) proto_api \<Rightarrow> ('fd \<Rightarrow> bool) \<Rightarrow> bool" where
  "proto_laws P is_map \<longleftrightarrow>
     (\<forall>md. pb_Descriptor P (pb_NewMessage P md) = md) \<and>
     (\<forall>msg fd v. field_of P (pb_Descriptor P msg) fd \<longrightarrow> well_typed P is_map fd v \<longrightarrow> pb_Set P msg fd v \<noteq> None) \<and>
     (\<forall>msg fd v m. pb_Set P msg fd v = Some m \<longrightarrow> pb_Descriptor P m = pb_Descriptor P msg) \<and>
     (\<forall>b msg m. protojson_Unmarshal P b msg = Some m \<longrightarrow> pb_Descriptor P m = pb_Descriptor P msg) \<and>
     (\<forall>msg fd. field_of P (pb_Descriptor P msg) fd \<longrightarrow> fd_Kind P fd = MessageKind \<longrightarrow> singular P is_map fd \<longrightarrow>
        pb_Has P msg fd \<longrightarrow> (\<exists>m. pb_GetMessage P msg fd = Some m \<and> pb_Descriptor P m = fd_Message P fd)) \<and>
     (\<forall>msg fd m. \<not> singular P is_map fd \<longrightarrow> pb_Set P msg fd (VMessage m) = None \<and> pb_GetMessage P msg fd = None) \<and>
     (\<forall>fd. is_map fd \<longrightarrow> \<not> fd_IsList P fd \<and> fd_Kind P fd = MessageKind \<and>
        pb_FullName P (fd_Message P fd) \<notin> fst ` set well_known) \<and>
     (\<forall>md. \<forall>(t, n, k) \<in> set well_known. pb_FullName P md = t \<longrightarrow>
        (\<exists>fd. pb_ByName P md n = Some fd \<and> fd_Kind P fd = k \<and> singular P is_map fd))"

lemma proto_lawsD:
  assumes "proto_laws P is_map"
  shows "pb_Descriptor P (pb_NewMessage P md) = md"
    and "field_of P (pb_Descriptor P msg) fd \<Longrightarrow> well_typed P is_map fd v \<Longrightarrow>
      \<exists>m. pb_Set P msg fd v = Some m \<and> pb_Descriptor P m = pb_Descriptor P msg"
    and "pb_Set P msg fd v = Some m \<Longrightarrow> pb_Descriptor P m = pb_Descriptor P msg"
    and "protojson_Unmarshal P b msg = Some m \<Longrightarrow> pb_Descriptor P m = pb_Descriptor P msg"
    and "field_of P (pb_Descriptor P msg) fd \<Longrightarrow> fd_Kind P fd = MessageKind \<Longrightarrow> singular P is_map fd \<Longrightarrow>
      pb_Has P msg fd \<Longrightarrow> \<exists>m. pb_GetMessage P msg fd = Some m \<and> pb_Descriptor P m = fd_Message P fd"
    and "\<not> singular P is_map fd \<Longrightarrow> pb_Set P msg fd (VMessage m) = None \<and> pb_GetMessage P msg fd = None"
    and "is_map fd \<Longrightarrow> fd_Kind P fd = MessageKind \<and> \<not> fd_IsList P fd \<and> pb_FullName P (fd_Message P fd) \<notin> fst ` set well_known"
    and "(t, n, k) \<in> set well_known \<Longrightarrow> pb_FullName P md = t \<Longrightarrow>
      \<exists>fd. pb_ByName P md n = Some fd \<and> fd_Kind P fd = k \<and> singular P is_map fd"
proof -
  note laws = assms[unfolded proto_laws_def]
  note new = laws[THEN conjunct1] and rest = laws[THEN conjunct2]
  note put = rest[THEN conjunct1] and rest = rest[THEN conjunct2]
  note kept = rest[THEN conjunct1] and rest = rest[THEN conjunct2]
  note json = rest[THEN conjunct1] and rest = rest[THEN conjunct2]
  note got = rest[THEN conjunct1] and rest = rest[THEN conjunct2]
  note no_msg = rest[THEN conjunct1] and rest = rest[THEN conjunct2]
  note maps = rest[THEN conjunct1] and known = rest[THEN conjunct2]
  show "pb_Descriptor P (pb_NewMessage P md) = md" by (rule new[rule_format])
  show "pb_Set P msg fd v = Some m \<Longrightarrow> pb_Descriptor P m = pb_Descriptor P msg" by (rule kept[rule_format])
  show "field_of P (pb_Descriptor P msg) fd \<Longrightarrow> well_typed P is_map fd v \<Longrightarrow>
      \<exists>m. pb_Set P msg fd v = Some m \<and> pb_Descriptor P m = pb_Descriptor P msg"
    using put kept by (metis option.exhaust)
  show "protojson_Unmarshal P b msg = Some m \<Longrightarrow> pb_Descriptor P m = pb_Descriptor P msg" by (rule json[rule_format])
  show "field_of P (pb_Descriptor P msg) fd \<Longrightarrow> fd_Kind P fd = MessageKind \<Longrightarrow> singular P is_map fd \<Longrightarrow>
      pb_Has P msg fd \<Longrightarrow> \<exists>m. pb_GetMessage P msg fd = Some m \<and> pb_Descriptor P m = fd_Message P fd" by (rule got[rule_format])
  show "\<not> singular P is_map fd \<Longrightarrow> pb_Set P msg fd (VMessage m) = None \<and> pb_GetMessage P msg fd = None"
    by (rule no_msg[rule_format])
  show "is_map fd \<Longrightarrow> fd_Kind P fd = MessageKind \<and> \<not> fd_IsList P fd \<and> pb_FullName P (fd_Message P fd) \<notin> fst ` set well_known"
    using maps by blast
  show "(t, n, k) \<in> set well_known \<Longrightarrow> pb_FullName P md = t \<Longrightarrow>
      \<exists>fd. pb_ByName P md n = Some fd \<and> fd_Kind P fd = k \<and> singular P is_map fd"
    using bspec[OF spec[OF known, of md], of "(t, n, k)"] by simp
qed

lemma findField_field: "findField P md n = Some fd \<Longrightarrow> field_of P md fd"
  by (auto simp: findField_def field_of_def split: option.splits)

section \<open>Parsed values have the type of their field\<close>

lemma set_well_known:
  assumes "proto_laws P is_map" and "(pb_FullName P md, n, k) \<in> set well_known"
    and "k \<in> set (value_kinds v)" and "\<And>m. v \<noteq> VMessage m" and "pb_Descriptor P msg = md"
  shows "\<exists>m. set_opt P (pb_ByName P md n) v msg = Inr m \<and> pb_Descriptor P m = md"
proof -
  obtain fd where fd: "pb_ByName P md n = Some fd" "fd_Kind P fd = k" "singular P is_map fd"
    using proto_lawsD(8)[OF assms(1,2) refl] by blast
  have "elem_typed P fd v" using assms(3,4) fd(2) by (auto simp: elem_typed_def split: pval.split)
  then have "well_typed P is_map fd v" using fd(3) by (simp add: well_typed_def singular_def)
  moreover have "field_of P md fd" using fd(1) by (auto simp: field_of_def)
  ultimately obtain m where "pb_Set P msg fd v = Some m" "pb_Descriptor P m = md"
    using proto_lawsD(2)[OF assms(1), of msg fd v] assms(5) by blast
  then show ?thesis using fd(1) by (simp add: set_opt_def)
qed

lemma wrap1_typed:
  assumes "proto_laws P is_map" and "(pb_FullName P (fd_Message P fd), n, k) \<in> set well_known"
    and "k \<in> set (value_kinds v)" and "\<And>m. v \<noteq> VMessage m"
  shows "\<exists>m. wrap1 P fd n v = Inr (VMessage m) \<and> pb_Descriptor P m = fd_Message P fd"
  using set_well_known[OF assms proto_lawsD(1)[OF assms(1)]] by (auto simp: wrap1_def)

lemma wrap2_typed:
  assumes "proto_laws P is_map" and "(pb_FullName P (fd_Message P fd), ''seconds'', Int64Kind) \<in> set well_known"
    and "(pb_FullName P (fd_Message P fd), ''nanos'', Int32Kind) \<in> set well_known"
  shows "\<exists>m. wrap2 P fd s n = Inr (VMessage m) \<and> pb_Descriptor P m = fd_Message P fd"
proof -
  let ?md = "fd_Message P fd"
  obtain m1 where m1: "set_opt P (pb_ByName P ?md ''seconds'') (VInt64 (word_of_int s)) (pb_NewMessage P ?md) = Inr m1"
    "pb_Descriptor P m1 = ?md"
    using set_well_known[OF assms(1,2), of "VInt64 (word_of_int s)"] proto_lawsD(1)[OF assms(1)] by auto
  obtain m2 where "set_opt P (pb_ByName P ?md ''nanos'') (VInt32 (word_of_int n)) m1 = Inr m2" "pb_Descriptor P m2 = ?md"
    using set_well_known[OF assms(1,3), of "VInt32 (word_of_int n)"] m1(2) by auto
  then show ?thesis using m1(1) by (simp add: wrap2_def)
qed

text \<open>A parse gives a value of the field's type or an error, and never panics.\<close>

definition parse_ok :: "('md, 'fd, 'msg, 'f, 'obj) proto_api \<Rightarrow> 'fd \<Rightarrow> (build_error, ('msg, 'f) pval) result \<Rightarrow> bool" where
  "parse_ok P fd r \<longleftrightarrow> (case r of Inl e \<Rightarrow> e \<noteq> RuntimePanic | Inr v \<Rightarrow> elem_typed P fd v)"

lemma parse_ok_simps [simp]: "parse_ok P fd (Inl e) \<longleftrightarrow> e \<noteq> RuntimePanic" "parse_ok P fd (Inr v) \<longleftrightarrow> elem_typed P fd v"
  by (simp_all add: parse_ok_def)

lemma parse_ok_message:
  "fd_Kind P fd = MessageKind \<Longrightarrow> \<exists>m. r = Inr (VMessage m) \<and> pb_Descriptor P m = fd_Message P fd \<Longrightarrow> parse_ok P fd r"
  by (auto simp: elem_typed_def)

lemma parse_ok_if: "(c \<Longrightarrow> parse_ok P fd a) \<Longrightarrow> (\<not> c \<Longrightarrow> parse_ok P fd b) \<Longrightarrow> parse_ok P fd (if c then a else b)"
  by simp

lemma parse_ok_option:
  "e \<noteq> RuntimePanic \<Longrightarrow> (\<And>x. r = Some x \<Longrightarrow> parse_ok P fd (f x)) \<Longrightarrow> parse_ok P fd (case r of None \<Rightarrow> Inl e | Some x \<Rightarrow> f x)"
  by (cases r) simp_all

lemma parse_message_value_ok:
  assumes "proto_laws P is_map" and "fd_Kind P fd = MessageKind"
  shows "parse_ok P fd (parse_message_value P fd v)"
proof -
  have one: "parse_ok P fd (wrap1 P fd n x)"
    if "(pb_FullName P (fd_Message P fd), n, hd (value_kinds x)) \<in> set well_known"
      "hd (value_kinds x) \<in> set (value_kinds x)" "\<And>m. x \<noteq> VMessage m" for n x
    by (rule parse_ok_message[OF assms(2) wrap1_typed[OF assms(1) that]])
  note two = parse_ok_message[OF assms(2) wrap2_typed[OF assms(1)]]
  show ?thesis unfolding parse_message_value_def Let_def
  proof (intro parse_ok_if parse_ok_option)
    fix p :: "int \<times> int"
    assume "pb_FullName P (fd_Message P fd) = ''google.protobuf.Timestamp''"
    then have "parse_ok P fd (wrap2 P fd (fst p) (snd p))" by (intro two) (simp_all add: well_known_def)
    then show "parse_ok P fd (case p of (x, y) \<Rightarrow> wrap2 P fd x y)" by (simp add: case_prod_unfold)
  qed (auto intro!: one two simp: well_known_def)
qed

lemma parseSingleValue_ok:
  assumes "proto_laws P is_map"
  shows "parse_ok P fd (parseSingleValue P fd v)"
  using parse_message_value_ok[OF assms, of fd v]
  by (cases "fd_Kind P fd") (auto simp: parseSingleValue_def elem_typed_def split: option.split)

lemma parse_elems_ok:
  assumes "proto_laws P is_map" and "list_all (elem_typed P fd) acc"
  shows "case fold_err (\<lambda>elems x. rbind (parseSingleValue P fd (TrimSpace x)) (\<lambda>elem. Inr (elems @ [elem]))) acc xs of
    Inl e \<Rightarrow> e \<noteq> RuntimePanic | Inr vs \<Rightarrow> list_all (elem_typed P fd) vs"
  using assms(2)
proof (induction xs arbitrary: acc)
  case (Cons x xs)
  show ?case
  proof (cases "parseSingleValue P fd (TrimSpace x)")
    case (Inl e)
    then show ?thesis using parseSingleValue_ok[OF assms(1), of fd "TrimSpace x"] by simp
  next
    case (Inr v)
    then have "list_all (elem_typed P fd) (acc @ [v])"
      using parseSingleValue_ok[OF assms(1), of fd "TrimSpace x"] Cons.prems by simp
    from Cons.IH[OF this] show ?thesis by (simp add: Inr)
  qed
qed simp

lemma parseStringValue_typed:
  assumes laws: "proto_laws P is_map"
  shows "case parseStringValue P fd v of Inl e \<Rightarrow> e \<noteq> RuntimePanic | Inr pv \<Rightarrow> well_typed P is_map fd pv"
proof (cases "fd_IsList P fd")
  case True
  then show ?thesis using parse_elems_ok[OF laws, of fd "[]" "Split CHR '','' v"]
    by (auto simp: parseStringValue_def well_typed_def rbind_Inr_iff rbind_Inl_iff split: sum.split sum.splits)
next
  case False
  have "\<not> is_map fd" if "parseSingleValue P fd v = Inr pv" for pv
  proof
    assume "is_map fd"
    then have "fd_Kind P fd = MessageKind" "pb_FullName P (fd_Message P fd) \<notin> fst ` set well_known"
      using proto_lawsD(7)[OF laws] by blast+
    then show False using that by (simp add: parseSingleValue_def parse_message_value_def well_known_def Let_def)
  qed
  then show ?thesis using False parseSingleValue_ok[OF laws, of fd v]
    by (auto simp: parseStringValue_def well_typed_def split: sum.split)
qed

section \<open>Walking along a path\<close>

text \<open>A path that meets no repeated or map field before its last segment.\<close>

fun walkable :: "('md, 'fd, 'msg, 'f, 'obj) proto_api \<Rightarrow> ('fd \<Rightarrow> bool) \<Rightarrow> 'md \<Rightarrow> string list \<Rightarrow> bool" where
  "walkable P is_map md (part # p # ps) =
     (case findField P md part of
        None \<Rightarrow> True
      | Some fd \<Rightarrow> fd_Kind P fd \<noteq> MessageKind \<or> singular P is_map fd \<and> walkable P is_map (fd_Message P fd) (p # ps))"
| "walkable P is_map md _ = True"

lemma set_last:
  assumes laws: "proto_laws P is_map"
  shows "fst (set_path P msg [part] v) \<noteq> Some RuntimePanic \<and>
    pb_Descriptor P (snd (set_path P msg [part] v)) = pb_Descriptor P msg"
proof (cases "findField P (pb_Descriptor P msg) part")
  case (Some fd)
  show ?thesis
  proof (cases "parseStringValue P fd v")
    case (Inl e)
    then show ?thesis using Some parseStringValue_typed[OF laws, of fd v] by simp
  next
    case (Inr pv)
    then obtain m where "pb_Set P msg fd pv = Some m" "pb_Descriptor P m = pb_Descriptor P msg"
      using proto_lawsD(2)[OF laws findField_field[OF Some]] parseStringValue_typed[OF laws, of fd v] by auto
    then show ?thesis using Some Inr by (simp add: set_opt_def)
  qed
qed simp

text \<open>The message a walk goes on with, when the field it goes through is singular.\<close>

lemma nested_message:
  assumes "proto_laws P is_map" and "field_of P (pb_Descriptor P msg) fd" and "fd_Kind P fd = MessageKind" and "singular P is_map fd"
  shows "\<exists>nested. (if pb_Has P msg fd then pb_GetMessage P msg fd else Some (pb_NewMessage P (fd_Message P fd))) = Some nested \<and>
    pb_Descriptor P nested = fd_Message P fd"
  using proto_lawsD(5)[OF assms] proto_lawsD(1)[OF assms(1)] by auto

lemma store_nested:
  assumes "proto_laws P is_map" and "field_of P (pb_Descriptor P msg) fd" and "fd_Kind P fd = MessageKind" and "singular P is_map fd"
    and "pb_Descriptor P nested = fd_Message P fd"
  shows "\<exists>m. set_opt P (Some fd) (VMessage nested) msg = Inr m \<and> pb_Descriptor P m = pb_Descriptor P msg"
proof -
  have "well_typed P is_map fd (VMessage nested)"
    using assms(3-5) by (simp add: well_typed_def singular_def elem_typed_def)
  from proto_lawsD(2)[OF assms(1,2) this] show ?thesis by (auto simp: set_opt_def)
qed

lemma set_path_panics_iff:
  assumes laws: "proto_laws P is_map"
  shows "(fst (set_path P msg ps v) = Some RuntimePanic \<longleftrightarrow> \<not> walkable P is_map (pb_Descriptor P msg) ps) \<and>
    pb_Descriptor P (snd (set_path P msg ps v)) = pb_Descriptor P msg"
  using laws
proof (induction P msg ps v rule: set_path.induct)
  case (3 P msg part p ps v)
  show ?case
  proof (cases "findField P (pb_Descriptor P msg) part")
    case (Some fd)
    note field = findField_field[OF Some]
    show ?thesis
    proof (cases "fd_Kind P fd = MessageKind")
      case msg_kind: True
      show ?thesis
      proof (cases "singular P is_map fd")
        case True
        obtain nested where n: "pb_Descriptor P nested = fd_Message P fd"
          "(if pb_Has P msg fd then pb_GetMessage P msg fd else Some (pb_NewMessage P (fd_Message P fd))) = Some nested"
          using nested_message[OF "3.prems" field msg_kind True] by blast
        obtain err nested' where w: "set_path P nested (p # ps) v = (err, nested')" by fastforce
        have i: "(err = Some RuntimePanic \<longleftrightarrow> \<not> walkable P is_map (fd_Message P fd) (p # ps)) \<and> pb_Descriptor P nested' = fd_Message P fd"
          using "3.IH"[OF Some _ n(2) "3.prems"] msg_kind w n(1) by simp
        obtain m where "set_opt P (Some fd) (VMessage nested') msg = Inr m" "pb_Descriptor P m = pb_Descriptor P msg"
          using store_nested[OF "3.prems" field msg_kind True] i by blast
        then show ?thesis using Some msg_kind True n(2) w i by simp
      next
        case False
        then have "set_opt P (Some fd) (VMessage m) msg = Inl RuntimePanic" "pb_GetMessage P msg fd = None" for m
          using proto_lawsD(6)[OF "3.prems" False] by (simp_all add: set_opt_def)
        then show ?thesis using Some msg_kind False by (simp add: case_prod_unfold)
      qed
    qed (simp add: Some)
  qed simp
qed (simp_all add: set_last del: set_path.simps(2))

lemma apply_param_typed:
  assumes "proto_laws P is_map"
  shows "if walkable P is_map (pb_Descriptor P msg) (Split CHR ''.'' (fst nv))
    then \<exists>m. apply_param P msg nv = Inr m \<and> pb_Descriptor P m = pb_Descriptor P msg
    else apply_param P msg nv = Inl RuntimePanic"
proof -
  obtain err m where w: "setFieldByPath P msg (fst nv) (snd nv) = (err, m)" by fastforce
  have "(err = Some RuntimePanic \<longleftrightarrow> \<not> walkable P is_map (pb_Descriptor P msg) (Split CHR ''.'' (fst nv))) \<and>
      pb_Descriptor P m = pb_Descriptor P msg"
    using set_path_panics_iff[OF assms, of msg "Split CHR ''.'' (fst nv)" "snd nv"] w by (simp add: setFieldByPath_def)
  moreover have "apply_param P msg nv = (if err = Some RuntimePanic then Inl RuntimePanic else Inr m)"
    by (auto simp: apply_param_def w split: option.split build_error.split)
  ultimately show ?thesis by simp
qed

lemma apply_params_typed:
  assumes "proto_laws P is_map"
  shows "if list_all (\<lambda>nv. walkable P is_map (pb_Descriptor P msg) (Split CHR ''.'' (fst nv))) nvs
    then \<exists>m. fold_err (apply_param P) msg nvs = Inr m \<and> pb_Descriptor P m = pb_Descriptor P msg
    else fold_err (apply_param P) msg nvs = Inl RuntimePanic"
proof (induction nvs arbitrary: msg)
  case (Cons nv nvs)
  show ?case using apply_param_typed[OF assms, of msg nv] Cons.IH by (auto split: if_splits) (metis sum.case)+
qed simp

text \<open>Whatever the body is, the message keeps its type.\<close>

lemma apply_body_typed:
  assumes laws: "proto_laws P is_map" and "apply_body P req rule msg = Inr m"
  shows "pb_Descriptor P m = pb_Descriptor P msg"
proof -
  have s: "pb_Descriptor P m = pb_Descriptor P msg" if "set_opt P fd x msg = Inr m" for fd x
    using that proto_lawsD(3)[OF laws] by (auto simp: set_opt_def split: option.splits)
  have f: "pb_Descriptor P m = pb_Descriptor P msg" if "setField P msg n x = Inr m" for n x
    using that s by (auto simp: setField_def Let_def rbind_Inr_iff split: option.splits if_splits)
  show ?thesis using assms(2) f proto_lawsD(4)[OF laws]
    by (auto simp: apply_body_def split: if_splits Body.splits option.splits sum.splits build_error.splits)
qed

lemma build_request_cases:
  assumes "proto_laws P is_map" and "md = pb_TypeByName P (mi_InputType method)"
    and "apply_body P req rule (pb_NewMessage P md) = Inr msg"
  shows "if list_all (\<lambda>nv. walkable P is_map md (Split CHR ''.'' (fst nv))) (path_assigns keys params @ query_assigns req params)
    then \<exists>m. BuildRequest P keys req method rule params = Inr m \<and> pb_Descriptor P m = md
    else BuildRequest P keys req method rule params = Inl RuntimePanic"
proof -
  have "pb_Descriptor P msg = md" using apply_body_typed[OF assms(1,3)] proto_lawsD(1)[OF assms(1)] by simp
  moreover have "BuildRequest P keys req method rule params =
      fold_err (apply_param P) msg (path_assigns keys params @ query_assigns req params)"
    using assms(3) by (cases "fold_err (apply_param P) msg (path_assigns keys params)")
      (simp_all add: BuildRequest_def fold_err_append flip: assms(2))
  ultimately show ?thesis using apply_params_typed[OF assms(1), of msg "path_assigns keys params @ query_assigns req params"]
    by (simp split: if_splits)
qed

section \<open>The body of a request\<close>

text \<open>
  The bodies that make \<open>setField\<close> panic: the rule names a repeated or a map field of messages, and
  the body is a JSON object that decodes into one message of the field's type.
\<close>

definition body_panics :: "('md, 'fd, 'msg, 'f, 'obj) proto_api \<Rightarrow> ('fd \<Rightarrow> bool) \<Rightarrow> 'md \<Rightarrow> 'ctx HttpRequest
    \<Rightarrow> HTTPRule \<Rightarrow> bool" where
  "body_panics P is_map md req rule \<longleftrightarrow>
     rq_ContentLength req > 0 \<and> hr_Body rule \<noteq> [] \<and> hr_Body rule \<noteq> ''*'' \<and>
     (case (rq_Body req, findField P md (hr_Body rule)) of
        (Body bytes, Some fd) \<Rightarrow> bytes \<noteq> [] \<and> fd_Kind P fd = MessageKind \<and> \<not> singular P is_map fd \<and>
          (case json_Unmarshal_obj P bytes of
             None \<Rightarrow> False
           | Some obj \<Rightarrow>
               (case json_Marshal_val P (GOther obj) of
                  None \<Rightarrow> False
                | Some js \<Rightarrow> protojson_Unmarshal P js (pb_NewMessage P (fd_Message P fd)) \<noteq> None))
      | _ \<Rightarrow> False)"

lemma setField_lookup:
  "(case pb_ByJSONName P md n of
      Some fd \<Rightarrow> Some fd
    | None \<Rightarrow> (case pb_ByName P md n of Some fd \<Rightarrow> Some fd | None \<Rightarrow> findField P md n)) = findField P md n"
  by (auto simp: findField_def split: option.split)

text \<open>The body is an object, so a field that is not of message kind refuses it.\<close>

lemma setField_object:
  "setField P msg n (GOther obj) =
     (case findField P (pb_Descriptor P msg) n of
        None \<Rightarrow> Inl (FieldNotFound n)
      | Some fd \<Rightarrow>
          if fd_Kind P fd = MessageKind then
            (case json_Marshal_val P (GOther obj) of
               None \<Rightarrow> Inl MarshalValueErr
             | Some js \<Rightarrow>
                 (case protojson_Unmarshal P js (pb_NewMessage P (fd_Message P fd)) of
                    None \<Rightarrow> Inl SubMessageErr
                  | Some sub \<Rightarrow> set_opt P (Some fd) (VMessage sub) msg))
          else Inl CannotConvert)"
  unfolding setField_def Let_def setField_lookup by (simp add: convertToProtoValue_def split: option.split)

lemma set_message:
  assumes laws: "proto_laws P is_map" and "findField P (pb_Descriptor P msg) n = Some fd" and "fd_Kind P fd = MessageKind"
    and "protojson_Unmarshal P js (pb_NewMessage P (fd_Message P fd)) = Some sub"
  shows "set_opt P (Some fd) (VMessage sub) msg = Inl RuntimePanic \<longleftrightarrow> \<not> singular P is_map fd"
proof (cases "singular P is_map fd")
  case True
  have "pb_Descriptor P sub = fd_Message P fd" using proto_lawsD(4)[OF laws assms(4)] proto_lawsD(1)[OF laws] by simp
  from store_nested[OF laws findField_field[OF assms(2)] assms(3) True this] True show ?thesis by auto
next
  case False
  then show ?thesis using proto_lawsD(6)[OF laws False] by (simp add: set_opt_def)
qed

lemma apply_body_panics_iff:
  assumes laws: "proto_laws P is_map"
  shows "apply_body P req rule msg = Inl RuntimePanic \<longleftrightarrow> body_panics P is_map (pb_Descriptor P msg) req rule"
proof (cases "rq_ContentLength req > 0 \<and> hr_Body rule \<noteq> [] \<and> hr_Body rule \<noteq> ''*'' \<and>
    (\<exists>bytes. rq_Body req = Body bytes \<and> bytes \<noteq> [])")
  case True
  then obtain bytes where b: "rq_Body req = Body bytes" "bytes \<noteq> []" by blast
  show ?thesis
  proof (cases "json_Unmarshal_obj P bytes")
    case None
    then show ?thesis using True b by (simp add: apply_body_def body_panics_def split: option.split)
  next
    case (Some obj)
    have a: "apply_body P req rule msg = Inl RuntimePanic \<longleftrightarrow> setField P msg (hr_Body rule) (GOther obj) = Inl RuntimePanic"
      using True b Some by (simp add: apply_body_def split: sum.split build_error.split)
    show ?thesis unfolding a setField_object
      using True b Some set_message[OF laws]
      by (auto simp: body_panics_def split: option.split)
  qed
next
  case False
  then show ?thesis by (auto simp: apply_body_def body_panics_def split: Body.split option.split)
qed

section \<open>Properties\<close>

text \<open>
  C16 (\<open>build_request_typed\<close>): every outcome of building a request.  It panics exactly when the body
  rule names a repeated or map field of messages and the body decodes into a message of that field,
  or, the body being accepted, a parameter's dotted name goes through a repeated or a map field of
  messages.  An error in the body is the error of the request.  Otherwise the result is a message of
  the method's input type.  In particular no parameter value can make it panic, and with a body rule
  of \<open>*\<close> or none no request without a dotted parameter name can.
\<close>

theorem build_request_typed:
  assumes "proto_laws P is_map" and "md = pb_TypeByName P (mi_InputType method)"
  shows "if body_panics P is_map md req rule then BuildRequest P keys req method rule params = Inl RuntimePanic
    else case apply_body P req rule (pb_NewMessage P md) of
        Inl e \<Rightarrow> e \<noteq> RuntimePanic \<and> BuildRequest P keys req method rule params = Inl e
      | Inr msg \<Rightarrow>
          if list_all (\<lambda>nv. walkable P is_map md (Split CHR ''.'' (fst nv))) (path_assigns keys params @ query_assigns req params)
          then \<exists>m. BuildRequest P keys req method rule params = Inr m \<and> pb_Descriptor P m = md
          else BuildRequest P keys req method rule params = Inl RuntimePanic"
proof (cases "apply_body P req rule (pb_NewMessage P md)")
  case (Inl e)
  moreover have "BuildRequest P keys req method rule params = Inl e"
    using Inl by (simp add: BuildRequest_def flip: assms(2))
  moreover have "body_panics P is_map md req rule \<longleftrightarrow> e = RuntimePanic"
    using apply_body_panics_iff[OF assms(1), of req rule "pb_NewMessage P md"] proto_lawsD(1)[OF assms(1)] Inl by simp
  ultimately show ?thesis by simp
next
  case (Inr msg)
  moreover have "\<not> body_panics P is_map md req rule"
    using apply_body_panics_iff[OF assms(1), of req rule "pb_NewMessage P md"] proto_lawsD(1)[OF assms(1)] Inr by simp
  ultimately show ?thesis using build_request_cases[OF assms Inr, of keys params] by simp
qed

text \<open>
  An example runtime with two message types: \<open>False\<close> has a string \<open>name\<close>, a message \<open>user\<close> and a
  repeated message \<open>items\<close>, both of type \<open>True\<close>, which has a \<open>name\<close> only.  A message is its type
  and the text stored last.
\<close>

definition shop_field :: "bool \<Rightarrow> string \<Rightarrow> nat option" where
  "shop_field md n = (if n = ''name'' then Some 0 else if md then None
     else if n = ''items'' then Some 1 else if n = ''user'' then Some 2 else None)"

definition shop_base :: "(bool, nat, bool \<times> string, unit, unit) proto_api" where
  "shop_base = \<lparr>pb_Descriptor = fst, pb_NewMessage = (\<lambda>md. (md, [])), pb_ByJSONName = shop_field, pb_ByName = shop_field,
     pb_FullName = (\<lambda>md. if md then ''shop.Item'' else ''shop.Order''), pb_TypeByName = (\<lambda>n. n = ''shop.Item''),
     fd_Kind = (\<lambda>fd. if fd = 0 then StringKind else MessageKind), fd_IsList = (\<lambda>fd. fd = 1), fd_Message = (\<lambda>_. True),
     fd_Name = (\<lambda>_. []), fd_JSONName = (\<lambda>_. []), fd_EnumValues = (\<lambda>_. []), pb_Has = (\<lambda>_ _. False),
     pb_GetMessage = (\<lambda>_ _. None), pb_Set = (\<lambda>_ _ _. None),
     pb_String = (\<lambda>_. []), pb_Fields = (\<lambda>_. []), protojson_Unmarshal = (\<lambda>_ m. Some m),
     json_Unmarshal_obj = (\<lambda>_. Some ()), json_Marshal_val = (\<lambda>_. Some []), ParseFloat = (\<lambda>_ _. None),
     FormatFloat = (\<lambda>_. []), time_Parse = (\<lambda>_. None), ParseDuration = (\<lambda>_. None), int64_Seconds = (\<lambda>d. d),
     f_int32 = (\<lambda>_. 0), f_int64 = (\<lambda>_. 0), f_uint32 = (\<lambda>_. 0), f_uint64 = (\<lambda>_. 0), f_float32 = (\<lambda>f. f)\<rparr>"

definition shop :: "(bool, nat, bool \<times> string, unit, unit) proto_api" where
  "shop = shop_base\<lparr>pb_Set := (\<lambda>m fd v. if well_typed shop_base (\<lambda>_. False) fd v
     then Some (fst m, case v of VString s \<Rightarrow> s | VMessage n \<Rightarrow> snd n | _ \<Rightarrow> snd m) else None)\<rparr>"

lemma shop_simps [simp]: "pb_Descriptor shop = fst" "pb_NewMessage shop md = (md, [])" "pb_ByJSONName shop = shop_field"
  "pb_ByName shop = shop_field" "pb_TypeByName shop n = (n = ''shop.Item'')" "pb_Has shop m fd = False"
  "pb_GetMessage shop m fd = None" "fd_Kind shop fd = (if fd = 0 then StringKind else MessageKind)"
  "fd_IsList shop fd = (fd = 1)" "fd_Message shop fd = True" "protojson_Unmarshal shop b m = Some m"
  "pb_FullName shop md = (if md then ''shop.Item'' else ''shop.Order'')"
  by (simp_all add: shop_def shop_base_def)

lemma shop_typed: "well_typed shop_base is_map = well_typed shop is_map"
proof -
  have f: "fd_Kind shop_base = fd_Kind shop" "fd_IsList shop_base = fd_IsList shop" "pb_Descriptor shop_base = pb_Descriptor shop"
    "fd_Message shop_base = fd_Message shop" by (simp_all add: shop_def)
  have "elem_typed shop_base = elem_typed shop" by (intro ext) (simp only: elem_typed_def f)
  with f show ?thesis by (intro ext) (simp only: well_typed_def)
qed

lemma shop_Set: "pb_Set shop m fd v = (if well_typed shop (\<lambda>_. False) fd v
    then Some (fst m, case v of VString s \<Rightarrow> s | VMessage n \<Rightarrow> snd n | _ \<Rightarrow> snd m) else None)"
  unfolding shop_typed[symmetric] by (simp add: shop_def)

lemma shop_laws: "proto_laws shop (\<lambda>_. False)"
  unfolding proto_laws_def
proof (intro conjI)
  show "\<forall>md. \<forall>(t, n, k) \<in> set well_known. pb_FullName shop md = t \<longrightarrow>
      (\<exists>fd. pb_ByName shop md n = Some fd \<and> fd_Kind shop fd = k \<and> singular shop (\<lambda>_. False) fd)"
    by (simp add: well_known_def)
  show "\<forall>msg fd m. \<not> singular shop (\<lambda>_. False) fd \<longrightarrow> pb_Set shop msg fd (VMessage m) = None \<and> pb_GetMessage shop msg fd = None"
    by (simp add: shop_Set singular_def well_typed_def)
qed (simp_all add: shop_Set split: if_splits)

definition shop_query :: "string \<Rightarrow> unit HttpRequest" where
  "shop_query n = demo_request\<lparr>rq_Query := [(n, [''x''])]\<rparr>"

lemma shop_walk: "walkable shop (\<lambda>_. False) False [''user'', ''name'']" "\<not> walkable shop (\<lambda>_. False) False [''items'', ''name'']"
  by (simp_all add: findField_def shop_field_def singular_def)

definition shop_post :: "unit HttpRequest" where
  "shop_post = demo_request\<lparr>rq_Query := [], rq_Body := Body [123, 125], rq_ContentLength := 2\<rparr>"

definition shop_rule :: "string \<Rightarrow> HTTPRule" where
  "shop_rule field = \<lparr>hr_Method = ''POST'', hr_Pattern = ''/v1'', hr_Body = field, hr_ResponseBody = []\<rparr>"

lemma shop_body_panics: "body_panics shop (\<lambda>_. False) False shop_post (shop_rule ''items'')"
  by (simp add: body_panics_def shop_post_def shop_rule_def findField_def shop_field_def singular_def shop_def shop_base_def)

theorem build_request_typed_witness:
  "(\<exists>m. BuildRequest shop (\<lambda>_. []) (shop_query ''user.name'') demo_method (hd (mi_HTTPRules demo_method)) Map.empty = Inr m \<and> \<not> fst m) \<and>
   BuildRequest shop (\<lambda>_. []) (shop_query ''items.name'') demo_method (hd (mi_HTTPRules demo_method)) Map.empty = Inl RuntimePanic \<and>
   BuildRequest shop (\<lambda>_. []) shop_post demo_method (shop_rule ''items'') Map.empty = Inl RuntimePanic"
proof -
  have q: "path_assigns (\<lambda>_. []) Map.empty = []" "query_assigns (shop_query n) Map.empty = [(n, ''x'')]" for n
    by (simp_all add: path_assigns_def query_assigns_def shop_query_def)
  have b: "apply_body shop (shop_query n) rule (pb_NewMessage shop False) = Inr (False, [])"
    "\<not> body_panics shop (\<lambda>_. False) False (shop_query n) rule" for n rule
    by (simp_all add: apply_body_def body_panics_def shop_query_def demo_request_def)
  have t: "False = pb_TypeByName shop (mi_InputType demo_method)" by (simp add: demo_method_def)
  show ?thesis
    using build_request_typed[OF shop_laws t, where keys = "\<lambda>_. []" and params = Map.empty and req = "shop_query ''user.name''",
        unfolded q b, of "hd (mi_HTTPRules demo_method)"]
      build_request_typed[OF shop_laws t, where keys = "\<lambda>_. []" and params = Map.empty and req = "shop_query ''items.name''",
        unfolded q b, of "hd (mi_HTTPRules demo_method)"]
      build_request_typed[OF shop_laws t, where keys = "\<lambda>_. []" and params = Map.empty and req = shop_post
        and rule = "shop_rule ''items''"]
      shop_walk shop_body_panics by (simp add: b(2))
qed

end
