(* ===== verification/ResponseTransformer.thy ===== *)
theory ResponseTransformer
  imports RequestBuilder
begin

text \<open>
  Responses of the transcoder, after \<^verbatim>\<open>gateway/transcoder/response_transformer.go\<close>: the JSON of a
  reply, the field a binding selects as response body, and the HTTP form of a gRPC error.

  \<open>'opts\<close> are protojson's marshal options; \<open>status.FromError\<close>, protojson and \<open>encoding/json\<close> are
  fields of \<open>resp_api\<close>.  A nil message is \<open>None\<close>.
\<close>

record ('msg, 'opts, 'err, 'det) resp_api =
  protojson_Marshal :: "'opts \<Rightarrow> 'msg option \<Rightarrow> string option"
  status_FromError :: "'err \<Rightarrow> (nat \<times> string \<times> 'det list) option"
  rpc_Error :: "'err \<Rightarrow> string"
  json_HTTPError :: "nat \<Rightarrow> string \<Rightarrow> 'det list \<Rightarrow> string"
  json_RawList :: "string list \<Rightarrow> string option"
  Code_String :: "nat \<Rightarrow> string"

record 'opts ResponseTransformer =
  marshalOptions :: 'opts

definition SetMarshalOptions :: "'opts \<Rightarrow> 'opts ResponseTransformer \<Rightarrow> 'opts ResponseTransformer" where
  "SetMarshalOptions opts t = t\<lparr>marshalOptions := opts\<rparr>"

definition GetMarshalOptions :: "'opts ResponseTransformer \<Rightarrow> 'opts" where
  "GetMarshalOptions t = marshalOptions t"

datatype resp_error = NoSuchField string | BodyNotMessage | ResponseMarshalErr | ResponsePanic

text \<open>\<open>Message()\<close> on a list value panics, which is how \<open>pb_GetMessage\<close> answers \<open>None\<close>.\<close>

definition extractResponseBody :: "('md, 'fd, 'msg, 'f, 'obj) proto_api \<Rightarrow> 'msg \<Rightarrow> string
    \<Rightarrow> (resp_error, 'msg option) result" where
  "extractResponseBody P msg fieldName =
     (let md = pb_Descriptor P msg;
          fd = (case pb_ByJSONName P md fieldName of Some fd \<Rightarrow> Some fd | None \<Rightarrow> pb_ByName P md fieldName)
      in case fd of
           None \<Rightarrow> Inl (NoSuchField fieldName)
         | Some fd \<Rightarrow>
             if fd_Kind P fd \<noteq> MessageKind then Inl BodyNotMessage
             else case pb_GetMessage P msg fd of None \<Rightarrow> Inl ResponsePanic | Some m \<Rightarrow> Inr (Some m))"

definition TransformResponse :: "('md, 'fd, 'msg, 'f, 'obj) proto_api \<Rightarrow> ('msg, 'opts, 'err, 'det) resp_api
    \<Rightarrow> 'opts ResponseTransformer \<Rightarrow> 'msg option \<Rightarrow> string \<Rightarrow> (resp_error, string) result" where
  "TransformResponse P R t msg responseBody =
     (case msg of
        None \<Rightarrow> Inr ''{}''
      | Some m \<Rightarrow>
          rbind (if responseBody \<noteq> [] \<and> responseBody \<noteq> ''*'' then extractResponseBody P m responseBody else Inr (Some m))
            (\<lambda>m'. case protojson_Marshal R (marshalOptions t) m' of
                    None \<Rightarrow> Inl ResponseMarshalErr
                  | Some js \<Rightarrow> Inr js))"

definition grpcCodeToHTTP :: "nat \<Rightarrow> nat" where
  "grpcCodeToHTTP code =
     (if code = 0 then 200 else if code = 1 then 499 else if code = 2 then 500 else if code = 3 then 400
      else if code = 4 then 504 else if code = 5 then 404 else if code = 6 then 409 else if code = 7 then 403
      else if code = 8 then 429 else if code = 9 then 400 else if code = 10 then 409 else if code = 11 then 400
      else if code = 12 then 501 else if code = 13 then 500 else if code = 14 then 503 else if code = 15 then 500
      else if code = 16 then 401 else 500)"

definition TransformError :: "('msg, 'opts, 'err, 'det) resp_api \<Rightarrow> 'err \<Rightarrow> nat \<times> string" where
  "TransformError R err =
     (case status_FromError R err of
        None \<Rightarrow> (500, json_HTTPError R 500 (rpc_Error R err) [])
      | Some (code, message, details) \<Rightarrow>
          let httpCode = grpcCodeToHTTP code in (httpCode, json_HTTPError R httpCode message details))"

definition TransformStreamingResponse :: "('msg, 'opts, 'err, 'det) resp_api \<Rightarrow> 'opts ResponseTransformer
    \<Rightarrow> 'msg list \<Rightarrow> (resp_error, string) result" where
  "TransformStreamingResponse R t msgs =
     (if length msgs = 0 then Inr ''[]''
      else rbind (fold_err (\<lambda>rs m. case protojson_Marshal R (marshalOptions t) (Some m) of
                               None \<Rightarrow> Inl ResponseMarshalErr | Some js \<Rightarrow> Inr (rs @ [js])) [] msgs)
             (\<lambda>rs. case json_RawList R rs of None \<Rightarrow> Inl ResponseMarshalErr | Some js \<Rightarrow> Inr js))"

text \<open>
  \<open>error_status_codes\<close>: an error never looks like a success.  Every gRPC error code other than
  OK, known or not, becomes an HTTP status of 400 or above, client errors staying in the 400s and
  server errors in the 500s, and the status in the JSON body is the one sent.
\<close>

theorem error_status_codes:
  assumes "\<forall>msg det. status_FromError R err \<noteq> Some (0, msg, det)"
  shows "\<exists>code msg det. TransformError R err = (code, json_HTTPError R code msg det) \<and> 400 \<le> code \<and> code < 600 \<and>
    (code < 500 \<longleftrightarrow> (\<exists>c m d. status_FromError R err = Some (c, m, d) \<and> c \<in> {1, 3, 5, 6, 7, 8, 9, 10, 11, 16}))"
proof (cases "status_FromError R err")
  case None
  then show ?thesis by (auto simp: TransformError_def)
next
  case (Some s)
  obtain c m d where s: "s = (c, m, d)" by (cases s)
  have "c \<noteq> 0" using assms Some s by auto
  then show ?thesis using Some s by (auto simp: TransformError_def Let_def grpcCodeToHTTP_def)
qed

definition demo_resp :: "(string, unit, nat, unit) resp_api" where
  "demo_resp = \<lparr>protojson_Marshal = (\<lambda>_ m. m), status_FromError = (\<lambda>c. Some (c, ''no'', [])),
     rpc_Error = (\<lambda>_. []), json_HTTPError = (\<lambda>_ m _. m), json_RawList = (\<lambda>rs. Some (concat rs)),
     Code_String = FormatUint\<rparr>"

theorem error_status_codes_witness:
  "\<exists>code msg det. TransformError demo_resp 7 = (code, json_HTTPError demo_resp code msg det) \<and> 400 \<le> code \<and> code < 600 \<and>
    (code < 500 \<longleftrightarrow> (\<exists>c m d. status_FromError demo_resp 7 = Some (c, m, d) \<and> c \<in> {1, 3, 5, 6, 7, 8, 9, 10, 11, 16}))"
  by (rule error_status_codes) (simp add: demo_resp_def)

end
