(* ===== verification/Transcoder.thy ===== *)
theory Transcoder
  imports ResponseTransformer
begin

text \<open>
  The transcoder, after \<^verbatim>\<open>gateway/transcoder/transcoder.go\<close> and \<^verbatim>\<open>types.go\<close>: the table of module
  connections, and \<open>Handle\<close>, which turns an HTTP request into one gRPC call.

  gRPC, the TLS library and the file system are fields of \<open>rpc_api\<close>; calls and closes act on a
  world \<open>'w\<close>.  The auth provider and the audit writer are the interfaces of the source.
  \<open>sync.Map\<close> is a partial function; what it is iterated for is modelled as a set.  A panic is a
  response of its own.  Timeouts are in seconds.
\<close>

section \<open>Connections\<close>

record ('conn, 'ty) ModuleConnection =
  mc_ModuleID :: string
  mc_Endpoint :: string
  mc_Conn :: "'conn option"
  mc_Descriptor :: "'ty ParsedDescriptor"
  mc_CreatedAt :: int
  mc_LastUsed :: int

record RouteInfo =
  ri_ModuleID :: string
  ri_ServiceName :: string
  ri_MethodName :: string
  ri_HTTPMethod :: string
  ri_Pattern :: string
  ri_FullMethod :: string

record 'ctx tc_AuditLogEntry =
  te_ModuleID :: string
  te_Method :: string
  te_HTTPMethod :: string
  te_Path :: string
  te_StatusCode :: nat
  te_Reason :: string
  te_LatencyMs :: int
  te_ClientIP :: string
  te_RequestID :: string
  te_RequestBody :: "byte list"
  te_Request :: "'ctx HttpRequest"

record ('pool, 'cert) tls_Config =
  tl_Certificates :: "'cert list"
  tl_RootCAs :: 'pool
  tl_ServerName :: string
  tl_MinVersion :: nat

datatype ('pool, 'cert) transport_creds = InsecureCreds | TLSCreds "('pool, 'cert) tls_Config"

datatype tls_error = ReadCA string | ParseCA string | LoadPair string string | IncompleteTLS string

text \<open>\<open>VersionTLS12\<close> is \<open>0x0303\<close>.\<close>

definition VersionTLS12 :: nat where "VersionTLS12 = 771"

record ('conn, 'w, 'rpcerr, 'gctx, 'msg, 'pool, 'cert) rpc_api =
  rpc_NewClient :: "string \<Rightarrow> ('pool, 'cert) transport_creds \<Rightarrow> int \<Rightarrow> ('rpcerr, 'conn) result"
  rpc_Invoke :: "'conn \<Rightarrow> 'gctx \<Rightarrow> string \<Rightarrow> 'msg \<Rightarrow> 'w \<Rightarrow> ('rpcerr, 'msg) result \<times> 'w"
  rpc_Close :: "'conn \<Rightarrow> 'w \<Rightarrow> 'rpcerr option \<times> 'w"
  rpc_State :: "'conn \<Rightarrow> nat"
  os_Getenv :: "string \<Rightarrow> string"
  os_Stat :: "string \<Rightarrow> bool"
  os_ReadFile :: "string \<Rightarrow> byte list option"
  AppendCertsFromPEM :: "byte list \<Rightarrow> 'pool option"
  LoadX509KeyPair :: "string \<Rightarrow> string \<Rightarrow> 'cert option"
  net_ParseIP :: "string \<Rightarrow> bool"

record ('ctx, 'gctx, 'omd) auth_provider =
  ap_GetTenantID :: "'ctx \<Rightarrow> u32 option"
  ap_InjectGRPCMetadata :: "'ctx \<Rightarrow> 'ctx HttpRequest \<Rightarrow> 'omd"
  omd_Set :: "'omd \<Rightarrow> string \<Rightarrow> string \<Rightarrow> 'omd"
  ctx_WithTimeout :: "'ctx \<Rightarrow> int \<Rightarrow> 'gctx"
  NewOutgoingContext :: "'gctx \<Rightarrow> 'omd \<Rightarrow> 'gctx"

record ('conn, 'ty, 'ctx, 'w, 'opts) Transcoder =
  tc_connections :: "string \<rightharpoonup> ('conn, 'ty) ModuleConnection"
  tc_connectTimeout :: int
  tc_requestTimeout :: int
  tc_auditWriter :: "('ctx \<Rightarrow> 'ctx tc_AuditLogEntry \<Rightarrow> 'w \<Rightarrow> 'w) option"
  tc_responseTransformer :: "'opts ResponseTransformer"

definition NewTranscoder :: "'opts ResponseTransformer
    \<Rightarrow> (('conn, 'ty, 'ctx, 'w, 'opts) Transcoder \<Rightarrow> ('conn, 'ty, 'ctx, 'w, 'opts) Transcoder) list
    \<Rightarrow> ('conn, 'ty, 'ctx, 'w, 'opts) Transcoder" where
  "NewTranscoder rt opts =
     fold (\<lambda>opt. opt) opts \<lparr>tc_connections = Map.empty, tc_connectTimeout = 10, tc_requestTimeout = 30,
       tc_auditWriter = None, tc_responseTransformer = rt\<rparr>"

definition WithAuditLogWriter :: "('ctx \<Rightarrow> 'ctx tc_AuditLogEntry \<Rightarrow> 'w \<Rightarrow> 'w)
    \<Rightarrow> ('conn, 'ty, 'ctx, 'w, 'opts) Transcoder \<Rightarrow> ('conn, 'ty, 'ctx, 'w, 'opts) Transcoder" where
  "WithAuditLogWriter wr t = t\<lparr>tc_auditWriter := Some wr\<rparr>"

definition WithConnectTimeout :: "int
    \<Rightarrow> ('conn, 'ty, 'ctx, 'w, 'opts) Transcoder \<Rightarrow> ('conn, 'ty, 'ctx, 'w, 'opts) Transcoder" where
  "WithConnectTimeout d t = t\<lparr>tc_connectTimeout := d\<rparr>"

definition WithRequestTimeout :: "int
    \<Rightarrow> ('conn, 'ty, 'ctx, 'w, 'opts) Transcoder \<Rightarrow> ('conn, 'ty, 'ctx, 'w, 'opts) Transcoder" where
  "WithRequestTimeout d t = t\<lparr>tc_requestTimeout := d\<rparr>"

section \<open>Credentials\<close>

definition loadTLSFromPaths :: "('conn, 'w, 'rpcerr, 'gctx, 'msg, 'pool, 'cert) rpc_api
    \<Rightarrow> string \<Rightarrow> string \<Rightarrow> string \<Rightarrow> string \<Rightarrow> (tls_error, ('pool, 'cert) tls_Config) result" where
  "loadTLSFromPaths N caCertPath clientCertPath clientKeyPath serverName =
     (case os_ReadFile N caCertPath of
        None \<Rightarrow> Inl (ReadCA caCertPath)
      | Some caCert \<Rightarrow>
          (case AppendCertsFromPEM N caCert of
             None \<Rightarrow> Inl (ParseCA caCertPath)
           | Some caCertPool \<Rightarrow>
               (case LoadX509KeyPair N clientCertPath clientKeyPath of
                  None \<Rightarrow> Inl (LoadPair clientCertPath clientKeyPath)
                | Some clientCert \<Rightarrow>
                    Inr \<lparr>tl_Certificates = [clientCert], tl_RootCAs = caCertPool, tl_ServerName = serverName,
                         tl_MinVersion = VersionTLS12\<rparr>)))"

definition loadModuleTLSCredentials :: "('conn, 'w, 'rpcerr, 'gctx, 'msg, 'pool, 'cert) rpc_api \<Rightarrow> string
    \<Rightarrow> (tls_error, ('pool, 'cert) tls_Config option) result" where
  "loadModuleTLSCredentials N moduleID =
     (let certsDir = (if os_Getenv N ''CERTS_DIR'' = [] then ''/app/certs'' else os_Getenv N ''CERTS_DIR'');
          prefix = ToUpper moduleID;
          env = os_Getenv N (prefix @ ''_SERVER_NAME'');
          serverName = (if env \<noteq> [] then env else moduleID @ ''-service'');
          caCertPath = certsDir @ ''/ca/ca.crt'';
          clientCertPath = certsDir @ ''/client/client.crt'';
          convention = (if os_Stat N caCertPath \<and> os_Stat N clientCertPath
                        then (case loadTLSFromPaths N caCertPath clientCertPath (certsDir @ ''/client/client.key'') serverName of
                                Inr creds \<Rightarrow> Some creds | Inl _ \<Rightarrow> None)
                        else None)
      in case convention of
           Some creds \<Rightarrow> Inr (Some creds)
         | None \<Rightarrow>
             (let caPath = os_Getenv N (prefix @ ''_CA_CERT_PATH'');
                  certPath = os_Getenv N (prefix @ ''_CLIENT_CERT_PATH'');
                  keyPath = os_Getenv N (prefix @ ''_CLIENT_KEY_PATH'')
              in if caPath = [] then Inr None
                 else if certPath = [] \<or> keyPath = [] then Inl (IncompleteTLS moduleID)
                 else rbind (loadTLSFromPaths N caPath certPath keyPath serverName) (\<lambda>creds. Inr (Some creds))))"

definition createConnection :: "('conn, 'w, 'rpcerr, 'gctx, 'msg, 'pool, 'cert) rpc_api
    \<Rightarrow> ('conn, 'ty, 'ctx, 'w, 'opts) Transcoder \<Rightarrow> string \<Rightarrow> string \<Rightarrow> ('rpcerr, 'conn) result" where
  "createConnection N t moduleID endpoint =
     (let creds = (case loadModuleTLSCredentials N moduleID of
                     Inl _ \<Rightarrow> InsecureCreds
                   | Inr (Some tlsCreds) \<Rightarrow> TLSCreds tlsCreds
                   | Inr None \<Rightarrow> InsecureCreds)
      in rpc_NewClient N endpoint creds (tc_connectTimeout t))"

section \<open>The connection table\<close>

datatype 'rpcerr tc_error = ParseFailed parse_err | ConnectFailed 'rpcerr | ModuleNotFound string | Unhealthy nat
  | CloseErrors "(string \<times> 'rpcerr) list"

definition conn_insert :: "string \<Rightarrow> ('conn, 'ty) ModuleConnection
    \<Rightarrow> ('conn, 'ty, 'ctx, 'w, 'opts) Transcoder \<Rightarrow> ('conn, 'ty, 'ctx, 'w, 'opts) Transcoder" where
  "conn_insert moduleID mc t = t\<lparr>tc_connections := (tc_connections t)(moduleID \<mapsto> mc)\<rparr>"

definition conn_remove :: "string
    \<Rightarrow> ('conn, 'ty, 'ctx, 'w, 'opts) Transcoder \<Rightarrow> ('conn, 'ty, 'ctx, 'w, 'opts) Transcoder" where
  "conn_remove moduleID t = t\<lparr>tc_connections := (tc_connections t)(moduleID := None)\<rparr>"

definition GetModuleConnection :: "('conn, 'ty, 'ctx, 'w, 'opts) Transcoder \<Rightarrow> string
    \<Rightarrow> ('conn, 'ty) ModuleConnection option" where
  "GetModuleConnection t moduleID = tc_connections t moduleID"

text \<open>\<open>parse\<close> is \<open>DescriptorParser.Parse\<close> at the protobuf runtime in use.\<close>

definition RegisterModule :: "('conn, 'w, 'rpcerr, 'gctx, 'msg, 'pool, 'cert) rpc_api
    \<Rightarrow> (byte list \<Rightarrow> (parse_err, 'ty ParsedDescriptor) result) \<Rightarrow> int \<Rightarrow> string \<Rightarrow> string \<Rightarrow> byte list
    \<Rightarrow> ('conn, 'ty, 'ctx, 'w, 'opts) Transcoder
    \<Rightarrow> 'rpcerr tc_error option \<times> ('conn, 'ty, 'ctx, 'w, 'opts) Transcoder" where
  "RegisterModule N parse now moduleID endpoint protoDescriptor t =
     (case parse protoDescriptor of
        Inl e \<Rightarrow> (Some (ParseFailed e), t)
      | Inr parsedDesc \<Rightarrow>
          (case createConnection N t moduleID endpoint of
             Inl e \<Rightarrow> (Some (ConnectFailed e), t)
           | Inr conn \<Rightarrow>
               (None, conn_insert moduleID
                  \<lparr>mc_ModuleID = moduleID, mc_Endpoint = endpoint, mc_Conn = Some conn, mc_Descriptor = parsedDesc,
                   mc_CreatedAt = now, mc_LastUsed = now\<rparr> t)))"

definition UnregisterModule :: "('conn, 'w, 'rpcerr, 'gctx, 'msg, 'pool, 'cert) rpc_api \<Rightarrow> string
    \<Rightarrow> ('conn, 'ty, 'ctx, 'w, 'opts) Transcoder \<Rightarrow> 'w
    \<Rightarrow> 'rpcerr tc_error option \<times> ('conn, 'ty, 'ctx, 'w, 'opts) Transcoder \<times> 'w" where
  "UnregisterModule N moduleID t w =
     (case tc_connections t moduleID of
        None \<Rightarrow> (Some (ModuleNotFound moduleID), t, w)
      | Some mc \<Rightarrow>
          (None, conn_remove moduleID t, case mc_Conn mc of None \<Rightarrow> w | Some conn \<Rightarrow> snd (rpc_Close N conn w)))"

definition ListModules :: "('conn, 'ty, 'ctx, 'w, 'opts) Transcoder \<Rightarrow> string set" where
  "ListModules t = dom (tc_connections t)"

definition GetModuleServices :: "('conn, 'ty, 'ctx, 'w, 'opts) Transcoder \<Rightarrow> string \<Rightarrow> ('rpcerr tc_error, string list) result" where
  "GetModuleServices t moduleID =
     (case GetModuleConnection t moduleID of
        None \<Rightarrow> Inl (ModuleNotFound moduleID)
      | Some mc \<Rightarrow> Inr (ListServices (mc_Descriptor mc)))"

definition GetModuleMethods :: "('conn, 'ty, 'ctx, 'w, 'opts) Transcoder \<Rightarrow> string \<Rightarrow> ('rpcerr tc_error, MethodInfo list) result" where
  "GetModuleMethods t moduleID =
     (case GetModuleConnection t moduleID of
        None \<Rightarrow> Inl (ModuleNotFound moduleID)
      | Some mc \<Rightarrow> Inr (ListMethods (mc_Descriptor mc)))"

text \<open>
  The states \<open>TransientFailure\<close> (3) and \<open>Shutdown\<close> (4).  As in a call, a missing connection makes the
  function panic: the outer \<open>None\<close>.
\<close>

definition Healthcheck :: "('conn, 'w, 'rpcerr, 'gctx, 'msg, 'pool, 'cert) rpc_api
    \<Rightarrow> ('conn, 'ty, 'ctx, 'w, 'opts) Transcoder \<Rightarrow> string \<Rightarrow> 'rpcerr tc_error option option" where
  "Healthcheck N t moduleID =
     (case GetModuleConnection t moduleID of
        None \<Rightarrow> Some (Some (ModuleNotFound moduleID))
      | Some mc \<Rightarrow>
          (case mc_Conn mc of
             None \<Rightarrow> None
           | Some conn \<Rightarrow> Some (if rpc_State N conn = 3 \<or> rpc_State N conn = 4 then Some (Unhealthy (rpc_State N conn)) else None)))"

text \<open>\<open>order\<close> is the order in which \<open>Range\<close> visits the table.\<close>

definition tc_Close :: "('conn, 'w, 'rpcerr, 'gctx, 'msg, 'pool, 'cert) rpc_api
    \<Rightarrow> string list \<Rightarrow> ('conn, 'ty, 'ctx, 'w, 'opts) Transcoder \<Rightarrow> 'w \<Rightarrow> 'rpcerr tc_error option \<times> 'w" where
  "tc_Close N order t w =
     (let (errs, w') = fold (\<lambda>key (errs, w). case tc_connections t key of
              None \<Rightarrow> (errs, w)
            | Some mc \<Rightarrow> (case mc_Conn mc of
                  None \<Rightarrow> (errs, w)
                | Some conn \<Rightarrow> (case rpc_Close N conn w of
                     (Some e, w') \<Rightarrow> (errs @ [(key, e)], w') | (None, w') \<Rightarrow> (errs, w')))) order ([], w)
      in (if length errs > 0 then Some (CloseErrors errs) else None, w'))"

definition route_infos :: "string \<Rightarrow> (string \<Rightarrow> string) \<Rightarrow> MethodInfo list \<Rightarrow> RouteInfo list" where
  "route_infos moduleID pattern methods =
     concat (map (\<lambda>method. map (\<lambda>rule. \<lparr>ri_ModuleID = moduleID, ri_ServiceName = mi_ServiceName method,
         ri_MethodName = mi_MethodName method, ri_HTTPMethod = hr_Method rule, ri_Pattern = pattern (hr_Pattern rule),
         ri_FullMethod = mi_FullName method\<rparr>) (mi_HTTPRules method)) methods)"

definition ListRoutes :: "string list \<Rightarrow> ('conn, 'ty, 'ctx, 'w, 'opts) Transcoder \<Rightarrow> RouteInfo list" where
  "ListRoutes order t =
     concat (map (\<lambda>moduleID. case tc_connections t moduleID of
         None \<Rightarrow> []
       | Some mc \<Rightarrow> route_infos moduleID (\<lambda>p. p) (ListMethods (mc_Descriptor mc))) order)"

section \<open>Handling a request\<close>

definition maxAuditBodySize :: nat where "maxAuditBodySize = 4096"

text \<open>The body is read and put back, so the request itself is unchanged.\<close>

definition bufferRequestBody :: "'ctx HttpRequest \<Rightarrow> byte list" where
  "bufferRequestBody r =
     (case rq_Body r of
        Body bodyBytes \<Rightarrow> if length bodyBytes > maxAuditBodySize then take maxAuditBodySize bodyBytes else bodyBytes
      | _ \<Rightarrow> [])"

definition grpcErrorReason :: "('msg, 'opts, 'err, 'det) resp_api \<Rightarrow> 'err \<Rightarrow> string" where
  "grpcErrorReason R err =
     (case status_FromError R err of Some (code, _, _) \<Rightarrow> Code_String R code | None \<Rightarrow> ''UNKNOWN'')"

definition getClientIP :: "(string \<Rightarrow> bool) \<Rightarrow> 'ctx HttpRequest \<Rightarrow> string" where
  "getClientIP parseIP r =
     (let xff = rq_Header r ''X-Forwarded-For'';
          first = (if xff \<noteq> [] then List.find parseIP (map TrimSpace (Split CHR '','' xff)) else None);
          xri = rq_Header r ''X-Real-IP'';
          addr = rq_RemoteAddr r
      in case first of
           Some ip \<Rightarrow> ip
         | None \<Rightarrow>
             if xri \<noteq> [] \<and> parseIP xri then xri
             else let host = (if Contains addr '':'' then map_option fst (SplitHostPort (TrimSpace addr)) else None) in
             (case host of
                Some h \<Rightarrow> if parseIP h then h else if parseIP addr then addr else []
              | None \<Rightarrow> if parseIP addr then addr else []))"

definition getRequestID :: "'ctx HttpRequest \<Rightarrow> string" where
  "getRequestID r =
     (if rq_Header r ''X-Request-ID'' \<noteq> [] then rq_Header r ''X-Request-ID''
      else if rq_Header r ''X-Correlation-ID'' \<noteq> [] then rq_Header r ''X-Correlation-ID''
      else if rq_Header r ''x-fc-request-id'' \<noteq> [] then rq_Header r ''x-fc-request-id''
      else [])"

definition audit_entry :: "(string \<Rightarrow> bool) \<Rightarrow> 'ctx HttpRequest \<Rightarrow> string \<Rightarrow> MethodInfo option \<Rightarrow> string \<Rightarrow> nat
    \<Rightarrow> string \<Rightarrow> int \<Rightarrow> byte list \<Rightarrow> 'ctx tc_AuditLogEntry" where
  "audit_entry parseIP r moduleID method modulePath statusCode reason latencyMs bodyBytes =
     \<lparr>te_ModuleID = moduleID, te_Method = (case method of None \<Rightarrow> [] | Some m \<Rightarrow> mi_FullName m),
      te_HTTPMethod = rq_Method r, te_Path = modulePath, te_StatusCode = statusCode, te_Reason = reason,
      te_LatencyMs = latencyMs, te_ClientIP = getClientIP parseIP r, te_RequestID = getRequestID r,
      te_RequestBody = bodyBytes, te_Request = r\<rparr>"

definition full_method :: "MethodInfo \<Rightarrow> string" where
  "full_method method =
     (let serviceFullName = (case LastIndexByte (mi_FullName method) CHR ''.'' of
            Some lastDot \<Rightarrow> if lastDot > 0 then take lastDot (mi_FullName method) else mi_FullName method
          | None \<Rightarrow> mi_FullName method)
      in ''/'' @ serviceFullName @ ''/'' @ mi_MethodName method)"

text \<open>\<open>OutputType\<close> only shapes the reply that the runtime fills in.\<close>

definition invokeMethod :: "('conn, 'w, 'rpcerr, 'gctx, 'msg, 'pool, 'cert) rpc_api \<Rightarrow> 'gctx
    \<Rightarrow> ('conn, 'ty) ModuleConnection \<Rightarrow> MethodInfo \<Rightarrow> 'msg \<Rightarrow> 'w \<Rightarrow> ('rpcerr, 'msg) result option \<times> 'w" where
  "invokeMethod N ctx mc method request w =
     (case mc_Conn mc of
        None \<Rightarrow> (None, w)
      | Some conn \<Rightarrow> (let (r, w') = rpc_Invoke N conn ctx (full_method method) request w in (Some r, w')))"

definition injectAuthContext :: "('ctx, 'gctx, 'omd) auth_provider \<Rightarrow> 'gctx \<Rightarrow> 'ctx HttpRequest \<Rightarrow> 'gctx" where
  "injectAuthContext A ctx r =
     (let pass = (\<lambda>header key md. if rq_Header r header \<noteq> [] then omd_Set A md key (rq_Header r header) else md);
          md = ap_InjectGRPCMetadata A (rq_Context r) r;
          md = pass ''X-Request-ID'' ''x-request-id'' md;
          md = pass ''X-Trace-ID'' ''x-trace-id'' md;
          md = pass ''Authorization'' ''authorization'' md
      in NewOutgoingContext A ctx md)"

text \<open>\<open>None\<close> is the panic of storing a \<open>uint32\<close> into a field of another type.\<close>

definition injectTenantID :: "('md, 'fd, 'msg, 'f, 'obj) proto_api \<Rightarrow> ('ctx, 'gctx, 'omd) auth_provider
    \<Rightarrow> 'msg \<Rightarrow> 'ctx HttpRequest \<Rightarrow> 'msg option" where
  "injectTenantID P A msg r =
     (case ap_GetTenantID A (rq_Context r) of
        None \<Rightarrow> Some msg
      | Some tenantID \<Rightarrow>
          (case pb_ByName P (pb_Descriptor P msg) ''tenant_id'' of
             None \<Rightarrow> Some msg
           | Some fd \<Rightarrow> if \<not> pb_Has P msg fd then pb_Set P msg fd (VUint32 tenantID) else Some msg))"

definition find_rule :: "MethodInfo \<Rightarrow> string \<Rightarrow> string \<Rightarrow> HTTPRule" where
  "find_rule method httpMethod modulePath =
     (case List.find (\<lambda>rule. EqualFold (hr_Method rule) httpMethod \<and> MatchPath (hr_Pattern rule) modulePath \<noteq> None)
             (mi_HTTPRules method) of
        Some rule \<Rightarrow> rule
      | None \<Rightarrow> \<lparr>hr_Method = [], hr_Pattern = [], hr_Body = [], hr_ResponseBody = []\<rparr>)"

text \<open>
  A response is a status and a body, or the panic that reaches the HTTP server; with it go the
  status and the reason the deferred audit call reads, and the method found.
\<close>

datatype http_response = Response nat string | PanicResponse

record handled =
  hd_response :: http_response
  hd_status :: nat
  hd_reason :: string
  hd_method :: "MethodInfo option"

record ('md, 'fd, 'msg, 'f, 'obj, 'opts, 'err, 'det, 'conn, 'w, 'gctx, 'pool, 'cert, 'ctx, 'omd) gateway_env =
  ge_proto :: "('md, 'fd, 'msg, 'f, 'obj) proto_api"
  ge_resp :: "('msg, 'opts, 'err, 'det) resp_api"
  ge_rpc :: "('conn, 'w, 'err, 'gctx, 'msg, 'pool, 'cert) rpc_api"
  ge_auth :: "('ctx, 'gctx, 'omd) auth_provider"
  ge_keys :: "(string \<rightharpoonup> string) \<Rightarrow> string list"
  ge_buildText :: "build_error \<Rightarrow> string"
  ge_respText :: "resp_error \<Rightarrow> string"

definition write_error :: "('msg, 'opts, 'err, 'det) resp_api \<Rightarrow> nat \<Rightarrow> string \<Rightarrow> string \<Rightarrow> MethodInfo option \<Rightarrow> handled" where
  "write_error R code reason message method =
     \<lparr>hd_response = Response code (json_HTTPError R code message []), hd_status = code, hd_reason = reason, hd_method = method\<rparr>"

definition panicked :: "MethodInfo option \<Rightarrow> handled" where
  "panicked method = \<lparr>hd_response = PanicResponse, hd_status = 200, hd_reason = [], hd_method = method\<rparr>"

text \<open>From the built request message to the response.\<close>

definition call_module :: "('md, 'fd, 'msg, 'f, 'obj, 'opts, 'err, 'det, 'conn, 'w, 'gctx, 'pool, 'cert, 'ctx, 'omd) gateway_env
    \<Rightarrow> ('conn, 'ty, 'ctx, 'w, 'opts) Transcoder \<Rightarrow> 'ctx \<Rightarrow> 'ctx HttpRequest \<Rightarrow> ('conn, 'ty) ModuleConnection
    \<Rightarrow> MethodInfo \<Rightarrow> HTTPRule \<Rightarrow> 'msg \<Rightarrow> 'w \<Rightarrow> handled \<times> 'w" where
  "call_module E t ctx r mc method rule requestMsg w =
     (let grpcCtx = injectAuthContext (ge_auth E) (ctx_WithTimeout (ge_auth E) ctx (tc_requestTimeout t)) r in
      case invokeMethod (ge_rpc E) grpcCtx mc method requestMsg w of
        (None, w') \<Rightarrow> (panicked (Some method), w')
      | (Some (Inl err), w') \<Rightarrow>
          (let (httpCode, errJSON) = TransformError (ge_resp E) err
           in (\<lparr>hd_response = Response httpCode errJSON, hd_status = httpCode,
                hd_reason = grpcErrorReason (ge_resp E) err, hd_method = Some method\<rparr>, w'))
      | (Some (Inr responseMsg), w') \<Rightarrow>
          (case TransformResponse (ge_proto E) (ge_resp E) (tc_responseTransformer t) (Some responseMsg) (hr_ResponseBody rule) of
             Inl ResponsePanic \<Rightarrow> (panicked (Some method), w')
           | Inl e \<Rightarrow> (write_error (ge_resp E) 500 ''RESPONSE_TRANSFORM_ERROR''
                         (''failed to transform response: '' @ ge_respText E e) (Some method), w')
           | Inr js \<Rightarrow> (\<lparr>hd_response = Response 200 js, hd_status = 200, hd_reason = [], hd_method = Some method\<rparr>, w')))"

definition handle_body :: "('md, 'fd, 'msg, 'f, 'obj, 'opts, 'err, 'det, 'conn, 'w, 'gctx, 'pool, 'cert, 'ctx, 'omd) gateway_env
    \<Rightarrow> ('conn, 'ty, 'ctx, 'w, 'opts) Transcoder \<Rightarrow> 'ctx \<Rightarrow> 'ctx HttpRequest \<Rightarrow> string \<Rightarrow> string \<Rightarrow> 'w \<Rightarrow> handled \<times> 'w" where
  "handle_body E t ctx r moduleID modulePath w =
     (case GetModuleConnection t moduleID of
        None \<Rightarrow> (write_error (ge_resp E) 404 ''MODULE_NOT_FOUND'' (''module not found: '' @ moduleID) None, w)
      | Some mc \<Rightarrow>
          (case FindMethodByHTTP (mc_Descriptor mc) (rq_Method r) modulePath of
             None \<Rightarrow> (write_error (ge_resp E) 404 ''METHOD_NOT_FOUND''
                        (''no matching method for '' @ rq_Method r @ '' '' @ modulePath) None, w)
           | Some (method, pathParams) \<Rightarrow>
               if mi_IsClientStreaming method \<or> mi_IsServerStreaming method then
                 (write_error (ge_resp E) 501 ''STREAMING_NOT_SUPPORTED''
                    ''streaming methods not supported via HTTP'' (Some method), w)
               else let rule = find_rule method (rq_Method r) modulePath in
               (case BuildRequest (ge_proto E) (ge_keys E) r method rule pathParams of
                  Inl RuntimePanic \<Rightarrow> (panicked (Some method), w)
                | Inl e \<Rightarrow> (write_error (ge_resp E) 400 ''BAD_REQUEST'' (''failed to build request: '' @ ge_buildText E e) (Some method), w)
                | Inr msg \<Rightarrow>
                    (case injectTenantID (ge_proto E) (ge_auth E) msg r of
                       None \<Rightarrow> (panicked (Some method), w)
                     | Some requestMsg \<Rightarrow> call_module E t ctx r mc method rule requestMsg w))))"

definition touch :: "int \<Rightarrow> string \<Rightarrow> ('conn, 'ty, 'ctx, 'w, 'opts) Transcoder \<Rightarrow> ('conn, 'ty, 'ctx, 'w, 'opts) Transcoder" where
  "touch now moduleID t =
     (case tc_connections t moduleID of None \<Rightarrow> t | Some mc \<Rightarrow> conn_insert moduleID (mc\<lparr>mc_LastUsed := now\<rparr>) t)"

definition Handle :: "('md, 'fd, 'msg, 'f, 'obj, 'opts, 'err, 'det, 'conn, 'w, 'gctx, 'pool, 'cert, 'ctx, 'omd) gateway_env
    \<Rightarrow> int \<Rightarrow> int \<Rightarrow> 'ctx \<Rightarrow> 'ctx HttpRequest \<Rightarrow> string \<Rightarrow> string
    \<Rightarrow> ('conn, 'ty, 'ctx, 'w, 'opts) Transcoder \<Rightarrow> 'w \<Rightarrow> http_response \<times> ('conn, 'ty, 'ctx, 'w, 'opts) Transcoder \<times> 'w" where
  "Handle E now latencyMs ctx r moduleID modulePath t w =
     (let bodyBytes = (if tc_auditWriter t \<noteq> None then bufferRequestBody r else []);
          t' = touch now moduleID t;
          (res, w') = handle_body E t' ctx r moduleID modulePath w
      in (hd_response res, t',
          case tc_auditWriter t of
            None \<Rightarrow> w'
          | Some wr \<Rightarrow> wr (rq_Context r)
              (audit_entry (net_ParseIP (ge_rpc E)) r moduleID (hd_method res) modulePath (hd_status res)
                 (hd_reason res) latencyMs bodyBytes) w'))"

section \<open>The connection table as a keyed store\<close>

interpretation conns: keyed_store GetModuleConnection conn_insert conn_remove
  by unfold_locales (auto simp: GetModuleConnection_def conn_insert_def conn_remove_def fun_eq_iff)

lemma touch_lookup:
  "GetModuleConnection (touch now m t) k =
     (if k = m then map_option (\<lambda>mc. mc\<lparr>mc_LastUsed := now\<rparr>) (GetModuleConnection t k) else GetModuleConnection t k)"
  by (auto simp: touch_def GetModuleConnection_def conn_insert_def split: option.splits)

lemma invokeMethod_LastUsed: "invokeMethod N g (mc\<lparr>mc_LastUsed := now\<rparr>) method msg w = invokeMethod N g mc method msg w"
  by (simp add: invokeMethod_def)

lemma touch_dom: "dom (tc_connections (touch now m t)) = dom (tc_connections t)"
  by (auto simp: touch_def conn_insert_def split: option.splits)

lemma RegisterModule_dom:
  "dom (tc_connections (snd (RegisterModule N parse now m ep d t))) =
     (if fst (RegisterModule N parse now m ep d t) = None then insert m (dom (tc_connections t)) else dom (tc_connections t))"
  by (auto simp: RegisterModule_def conn_insert_def split: sum.split)

lemma UnregisterModule_dom:
  "dom (tc_connections (fst (snd (UnregisterModule N m t w)))) = dom (tc_connections t) - {m}"
  by (auto simp: UnregisterModule_def conn_remove_def split: option.split)

section \<open>Handling: lemmas\<close>

definition audited_status :: "http_response \<Rightarrow> nat" where
  "audited_status r = (case r of Response code _ \<Rightarrow> code | PanicResponse \<Rightarrow> 200)"

lemma write_error_simps [simp]: "hd_response (write_error R c rs msg m) = Response c (json_HTTPError R c msg [])"
  "hd_status (write_error R c rs msg m) = c" "hd_response (panicked m) = PanicResponse" "hd_status (panicked m) = 200"
  "hd_reason (panicked m) = []" "hd_reason (write_error R c rs msg m) = rs"
  by (simp_all add: write_error_def panicked_def)

lemma call_module_status: "hd_status (fst (call_module E t ctx r mc mth rule msg w)) =
    audited_status (hd_response (fst (call_module E t ctx r mc mth rule msg w)))"
  by (auto simp: call_module_def Let_def audited_status_def split: prod.split option.split sum.split resp_error.split)

lemma handle_body_status: "hd_status (fst (handle_body E t ctx r m p w)) =
    audited_status (hd_response (fst (handle_body E t ctx r m p w)))"
  by (auto simp: handle_body_def Let_def call_module_status split: option.split prod.split sum.split build_error.split)
    (simp_all add: audited_status_def)

lemma call_module_world: "snd (call_module E t ctx r mc mth rule msg w) =
    snd (invokeMethod (ge_rpc E)
      (injectAuthContext (ge_auth E) (ctx_WithTimeout (ge_auth E) ctx (tc_requestTimeout t)) r) mc mth msg w)"
  by (auto simp: call_module_def Let_def split: prod.split option.split sum.split resp_error.split)

text \<open>Everything that has to hold before a module is called, in one place.\<close>

lemma handle_body_calls:
  assumes "snd (handle_body E t ctx r m p w) \<noteq> w"
  obtains mc mth params msg0 msg where "GetModuleConnection t m = Some mc"
    and "FindMethodByHTTP (mc_Descriptor mc) (rq_Method r) p = Some (mth, params)"
    and "\<not> mi_IsClientStreaming mth" "\<not> mi_IsServerStreaming mth"
    and "BuildRequest (ge_proto E) (ge_keys E) r mth (find_rule mth (rq_Method r) p) params = Inr msg0"
    and "injectTenantID (ge_proto E) (ge_auth E) msg0 r = Some msg"
    and "snd (handle_body E t ctx r m p w) = snd (invokeMethod (ge_rpc E)
      (injectAuthContext (ge_auth E) (ctx_WithTimeout (ge_auth E) ctx (tc_requestTimeout t)) r) mc mth msg w)"
proof -
  obtain mc where mc: "GetModuleConnection t m = Some mc"
    using assms by (auto simp: handle_body_def split: option.splits)
  obtain mth params where f: "FindMethodByHTTP (mc_Descriptor mc) (rq_Method r) p = Some (mth, params)"
    using assms mc by (auto simp: handle_body_def split: option.splits)
  have ns: "\<not> mi_IsClientStreaming mth" "\<not> mi_IsServerStreaming mth"
    using assms mc f by (auto simp: handle_body_def split: if_splits)
  obtain msg0 where b: "BuildRequest (ge_proto E) (ge_keys E) r mth (find_rule mth (rq_Method r) p) params = Inr msg0"
    using assms mc f ns by (auto simp: handle_body_def Let_def split: sum.splits build_error.splits)
  obtain msg where i: "injectTenantID (ge_proto E) (ge_auth E) msg0 r = Some msg"
    using assms mc f ns b by (auto simp: handle_body_def Let_def split: option.splits)
  show ?thesis
    by (rule that[OF mc f ns b i]) (simp add: handle_body_def Let_def mc f ns b i call_module_world)
qed

section \<open>Properties\<close>

text \<open>\<open>Handle\<close> without its audit writer: the answer and the calls of a request alone.\<close>

lemma handle_body_silent:
  "handle_body E (touch now m (t\<lparr>tc_auditWriter := None\<rparr>)) ctx r m p w = handle_body E (touch now m t) ctx r m p w"
proof -
  let ?s = "touch now m (t\<lparr>tc_auditWriter := None\<rparr>)" and ?t = "touch now m t"
  have g: "GetModuleConnection ?s m = GetModuleConnection ?t m"
    by (simp add: touch_def GetModuleConnection_def conn_insert_def split: option.split)
  have f: "tc_requestTimeout ?s = tc_requestTimeout ?t" "tc_responseTransformer ?s = tc_responseTransformer ?t"
    by (simp_all add: touch_def conn_insert_def split: option.split)
  have c: "call_module E ?s ctx r mc mth rule msg w = call_module E ?t ctx r mc mth rule msg w" for mc mth rule msg
    unfolding call_module_def f by (rule refl)
  show ?thesis unfolding handle_body_def g c by (rule refl)
qed

lemma Handle_silent:
  "Handle E now latency ctx r m p (t\<lparr>tc_auditWriter := None\<rparr>) w =
     (let (res, w1) = handle_body E (touch now m t) ctx r m p w
      in (hd_response res, touch now m (t\<lparr>tc_auditWriter := None\<rparr>), w1))"
  by (simp add: Handle_def handle_body_silent split: prod.split)

text \<open>
  C15 (\<open>handle_audits_response\<close>): with an audit writer a handled request is answered as it is without
  one, and the world it leaves is the one it leaves without one with exactly one record written
  on top, after the answer.  The record names the module, path and client, holds the first 4096 bytes
  of the body, and its status is the one of the response; a request that ended in a panic
  is recorded as a success with status 200.
\<close>

theorem handle_audits_response:
  assumes "Handle E now latency ctx r m p t w = (resp, t', w')" and "tc_auditWriter t = Some wr"
  shows "\<exists>entry w1.
    (\<exists>silent. Handle E now latency ctx r m p (t\<lparr>tc_auditWriter := None\<rparr>) w = (resp, silent, w1)) \<and>
    w' = wr (rq_Context r) entry w1 \<and> te_ModuleID entry = m \<and> te_Path entry = p \<and>
    te_HTTPMethod entry = rq_Method r \<and> te_ClientIP entry = getClientIP (net_ParseIP (ge_rpc E)) r \<and>
    te_RequestID entry = getRequestID r \<and> te_LatencyMs entry = latency \<and>
    te_RequestBody entry = bufferRequestBody r \<and> length (te_RequestBody entry) \<le> 4096 \<and>
    te_StatusCode entry = (case resp of Response code _ \<Rightarrow> code | PanicResponse \<Rightarrow> 200)"
proof -
  obtain res w1 where b: "handle_body E (touch now m t) ctx r m p w = (res, w1)" by (metis surj_pair)
  let ?e = "audit_entry (net_ParseIP (ge_rpc E)) r m (hd_method res) p (hd_status res) (hd_reason res) latency (bufferRequestBody r)"
  have w: "resp = hd_response res" "w' = wr (rq_Context r) ?e w1"
    using assms b by (auto simp: Handle_def Let_def)
  have s: "\<exists>silent. Handle E now latency ctx r m p (t\<lparr>tc_auditWriter := None\<rparr>) w = (resp, silent, w1)"
    by (simp add: Handle_silent b w(1))
  have "hd_status res = audited_status resp" using handle_body_status[of E "touch now m t" ctx r m p w] b w(1) by simp
  moreover have "length (bufferRequestBody r) \<le> 4096"
    by (auto simp: bufferRequestBody_def maxAuditBodySize_def split: Body.split)
  ultimately show ?thesis using w(2) s
    by (intro exI[of _ ?e] exI[of _ w1]) (simp add: audit_entry_def audited_status_def)
qed

text \<open>
  C7 (\<open>handle_call_guard\<close>): a request has an effect behind the gateway only as one call of a registered,
  matching, non-streaming method.  If handling without an audit writer changes the world, the module
  is registered, the method and parameters are those \<open>FindMethodByHTTP\<close> selects, the message is the
  one built from the request with the tenant injected, and the change is that of the one call.
\<close>

theorem handle_call_guard:
  assumes "Handle E now latency ctx r m p t w = (resp, t', w')" and "tc_auditWriter t = None" and "w' \<noteq> w"
  shows "\<exists>mc mth params msg0 msg. GetModuleConnection t m = Some mc \<and>
    FindMethodByHTTP (mc_Descriptor mc) (rq_Method r) p = Some (mth, params) \<and>
    \<not> mi_IsClientStreaming mth \<and> \<not> mi_IsServerStreaming mth \<and>
    BuildRequest (ge_proto E) (ge_keys E) r mth (find_rule mth (rq_Method r) p) params = Inr msg0 \<and>
    injectTenantID (ge_proto E) (ge_auth E) msg0 r = Some msg \<and>
    w' = snd (invokeMethod (ge_rpc E)
      (injectAuthContext (ge_auth E) (ctx_WithTimeout (ge_auth E) ctx (tc_requestTimeout t)) r) mc mth msg w)"
proof -
  have w: "w' = snd (handle_body E (touch now m t) ctx r m p w)"
    using assms(1,2) by (auto simp: Handle_def Let_def split: prod.splits)
  have to: "tc_requestTimeout (touch now m t) = tc_requestTimeout t"
    by (simp add: touch_def conn_insert_def split: option.split)
  obtain mc mth params msg0 msg where h: "GetModuleConnection (touch now m t) m = Some mc"
    "FindMethodByHTTP (mc_Descriptor mc) (rq_Method r) p = Some (mth, params)"
    "\<not> mi_IsClientStreaming mth" "\<not> mi_IsServerStreaming mth"
    "BuildRequest (ge_proto E) (ge_keys E) r mth (find_rule mth (rq_Method r) p) params = Inr msg0"
    "injectTenantID (ge_proto E) (ge_auth E) msg0 r = Some msg"
    "w' = snd (invokeMethod (ge_rpc E)
      (injectAuthContext (ge_auth E) (ctx_WithTimeout (ge_auth E) ctx (tc_requestTimeout t)) r) mc mth msg w)"
    using handle_body_calls[of E "touch now m t" ctx r m p w] assms(3) unfolding w to by metis
  obtain mc0 where mc0: "GetModuleConnection t m = Some mc0" "mc = mc0\<lparr>mc_LastUsed := now\<rparr>"
    using h(1) by (auto simp: touch_lookup)
  show ?thesis using h(2-) mc0(1) unfolding mc0(2) by (intro exI[of _ mc0]) (auto simp: invokeMethod_LastUsed)
qed

text \<open>
  \<open>tenant_injection\<close>: which tenant a module sees.  A message with a \<open>tenant_id\<close> field that the
  request left unset gets the tenant of the authenticated user; one that the request did set is
  passed on unchanged, whatever tenant the user belongs to.
\<close>

theorem tenant_injection:
  assumes "ap_GetTenantID A (rq_Context r) = Some tenant"
    and "pb_ByName P (pb_Descriptor P msg) ''tenant_id'' = Some fd"
  shows "injectTenantID P A msg r = (if pb_Has P msg fd then Some msg else pb_Set P msg fd (VUint32 tenant))"
  using assms by (simp add: injectTenantID_def)

text \<open>
  \<open>full_method_path\<close>: the gRPC path of a call is the full service name and the method name, for
  every method whose descriptor names it by its service.
\<close>

theorem full_method_path:
  assumes "mi_FullName mth = service @ ''.'' @ mi_MethodName mth" and "service \<noteq> []"
    and "CHR ''.'' \<notin> set (mi_MethodName mth)"
  shows "full_method mth = ''/'' @ service @ ''/'' @ mi_MethodName mth"
  using assms LastIndexByte_append[of "CHR ''.''" "mi_MethodName mth" service] by (simp add: full_method_def)

text \<open>
  \<open>client_ip_valid\<close>: the recorded client address is empty or a valid address, and when the
  forwarding header lists valid addresses it is the first of them.
\<close>

theorem client_ip_valid:
  "(getClientIP parseIP r = [] \<or> parseIP (getClientIP parseIP r)) \<and>
   (let valid = filter parseIP (map TrimSpace (Split CHR '','' (rq_Header r ''X-Forwarded-For''))) in
    rq_Header r ''X-Forwarded-For'' = [] \<or> valid = [] \<or> getClientIP parseIP r = hd valid)"
proof -
  let ?parts = "map TrimSpace (Split CHR '','' (rq_Header r ''X-Forwarded-For''))"
  have f: "(\<exists>ip. List.find P xs = Some ip \<and> P ip \<and> hd (filter P xs) = ip) \<or> (List.find P xs = None \<and> filter P xs = [])"
    for P and xs :: "string list" by (induction xs) auto
  have none: "getClientIP parseIP r = [] \<or> parseIP (getClientIP parseIP r)"
    if "rq_Header r ''X-Forwarded-For'' = [] \<or> List.find parseIP ?parts = None"
    using that unfolding getClientIP_def Let_def by (cases "rq_Header r ''X-Forwarded-For'' = []") (simp_all split: option.split)
  have found: "getClientIP parseIP r = ip" if "rq_Header r ''X-Forwarded-For'' \<noteq> []" "List.find parseIP ?parts = Some ip" for ip
    using that by (simp add: getClientIP_def)
  show ?thesis using f[of parseIP ?parts] none found unfolding Let_def by metis
qed

section \<open>Examples\<close>

text \<open>A gateway over the example runtime: the world is the list of called methods.\<close>

definition demo_rpc :: "(unit, string list, nat, unit, string, unit, unit) rpc_api" where
  "demo_rpc = \<lparr>rpc_NewClient = (\<lambda>_ _ _. Inr ()), rpc_Invoke = (\<lambda>_ _ m msg w. (Inr msg, w @ [m])),
     rpc_Close = (\<lambda>_ w. (None, w)), rpc_State = (\<lambda>_. 2), os_Getenv = (\<lambda>_. []), os_Stat = (\<lambda>_. False),
     os_ReadFile = (\<lambda>_. None), AppendCertsFromPEM = (\<lambda>_. None), LoadX509KeyPair = (\<lambda>_ _. None),
     net_ParseIP = (\<lambda>_. True)\<rparr>"

definition demo_auth :: "(unit, unit, unit) auth_provider" where
  "demo_auth = \<lparr>ap_GetTenantID = (\<lambda>_. Some 3), ap_InjectGRPCMetadata = (\<lambda>_ _. ()), omd_Set = (\<lambda>md _ _. md),
     ctx_WithTimeout = (\<lambda>_ _. ()), NewOutgoingContext = (\<lambda>c _. c)\<rparr>"

definition demo_gateway :: "(unit, Kind, string, unit, unit, unit, nat, unit, unit, string list, unit, unit, unit, unit, unit) gateway_env" where
  "demo_gateway = \<lparr>ge_proto = demo_proto, ge_resp = demo_resp, ge_rpc = demo_rpc, ge_auth = demo_auth,
     ge_keys = (\<lambda>_. [''user_id'']), ge_buildText = (\<lambda>_. []), ge_respText = (\<lambda>_. [])\<rparr>"

definition demo_descriptor :: "unit ParsedDescriptor" where
  "demo_descriptor = \<lparr>pd_Services = [(''Users'', \<lparr>si_Name = ''Users'', si_FullName = ''acme.Users'',
     si_Methods = [(''Get'', demo_method)]\<rparr>)], pd_Types = ()\<rparr>"

definition demo_transcoder :: "(unit, unit, unit, string list, unit) Transcoder" where
  "demo_transcoder = snd (RegisterModule demo_rpc (\<lambda>_. Inr demo_descriptor) 0 ''users'' ''host:1'' [1]
     (NewTranscoder \<lparr>marshalOptions = ()\<rparr> []))"

lemma demo_match: "MatchPath ''/v1/users/{user_id}'' ''/v1/users/7'' = Some [''user_id'' \<mapsto> ''7'']"
proof -
  have "segments ''/v1/users/{user_id}'' = [''v1'', ''users'', ''{user_id}'']"
    "segments ''/v1/users/7'' = [''v1'', ''users'', ''7'']" "\<not> is_param ''v1''" "\<not> is_param ''users''"
    "is_param ''{user_id}''" "param_name ''{user_id}'' = ''user_id''" "\<not> is_rest ''user_id''" by code_simp+
  then show ?thesis by (simp add: MatchPath_def)
qed

lemma demo_find: "FindMethodByHTTP demo_descriptor ''GET'' ''/v1/users/7'' = Some (demo_method, [''user_id'' \<mapsto> ''7''])"
  "find_rule demo_method ''GET'' ''/v1/users/7'' = hd (mi_HTTPRules demo_method)"
  by (simp_all add: FindMethodByHTTP_def all_matches_def rule_matches_def ListMethods_def demo_descriptor_def
      demo_method_def demo_match find_rule_def)

lemma demo_build: "BuildRequest demo_proto (\<lambda>_. [''user_id'']) demo_request demo_method (hd (mi_HTTPRules demo_method))
    [''user_id'' \<mapsto> ''7''] = Inr ''8''"
  by (simp add: BuildRequest_def apply_body_def demo_request_def path_assigns_def query_assigns_def apply_param_def
      setFieldByPath_def findField_def parseStringValue_def parseSingleValue_def set_opt_def)

lemma demo_transcoder_simps: "GetModuleConnection demo_transcoder ''users'' = Some \<lparr>mc_ModuleID = ''users'',
    mc_Endpoint = ''host:1'', mc_Conn = Some (), mc_Descriptor = demo_descriptor, mc_CreatedAt = 0, mc_LastUsed = 0\<rparr>"
  "GetModuleConnection demo_transcoder ''nobody'' = None" "tc_auditWriter demo_transcoder = None"
  "tc_responseTransformer demo_transcoder = \<lparr>marshalOptions = ()\<rparr>"
  by (simp_all add: demo_transcoder_def RegisterModule_def createConnection_def demo_rpc_def NewTranscoder_def
      conn_insert_def GetModuleConnection_def)

lemma demo_handle: "snd (snd (Handle demo_gateway 0 1 () demo_request ''users'' ''/v1/users/7'' demo_transcoder [])) =
    [''/acme.Users/Get'']"
proof -
  have m: "rq_Method demo_request = ''GET''" by (simp add: demo_request_def)
  have s: "\<not> mi_IsClientStreaming demo_method" "\<not> mi_IsServerStreaming demo_method" by (simp_all add: demo_method_def)
  have i: "injectTenantID demo_proto demo_auth ''8'' demo_request = Some ''8''" by (simp add: injectTenantID_def demo_auth_def)
  have f: "full_method demo_method = ''/acme.Users/Get''" by code_simp
  have "snd (handle_body demo_gateway (touch 0 ''users'' demo_transcoder) () demo_request ''users'' ''/v1/users/7'' []) = [''/acme.Users/Get'']"
    by (simp add: handle_body_def touch_lookup demo_transcoder_simps m demo_find s demo_gateway_def demo_build i call_module_world
        invokeMethod_def demo_rpc_def f)
  then show ?thesis by (auto simp: Handle_def Let_def demo_transcoder_simps split: prod.split)
qed

theorem handle_call_guard_witness:
  "\<exists>mc mth params msg0 msg. GetModuleConnection demo_transcoder ''users'' = Some mc \<and>
    FindMethodByHTTP (mc_Descriptor mc) ''GET'' ''/v1/users/7'' = Some (mth, params) \<and>
    \<not> mi_IsClientStreaming mth \<and> \<not> mi_IsServerStreaming mth \<and>
    BuildRequest demo_proto (\<lambda>_. [''user_id'']) demo_request mth (find_rule mth ''GET'' ''/v1/users/7'') params = Inr msg0 \<and>
    injectTenantID demo_proto demo_auth msg0 demo_request = Some msg \<and>
    [''/acme.Users/Get''] = snd (invokeMethod demo_rpc (injectAuthContext demo_auth () demo_request) mc mth msg [])"
proof -
  obtain resp t' where h: "Handle demo_gateway 0 1 () demo_request ''users'' ''/v1/users/7'' demo_transcoder [] =
      (resp, t', [''/acme.Users/Get''])" using demo_handle by (metis prod.collapse)
  have m: "rq_Method demo_request = ''GET''" by (simp add: demo_request_def)
  show ?thesis using handle_call_guard[OF h demo_transcoder_simps(3)] unfolding m by (simp add: demo_gateway_def)
qed

theorem handle_audits_response_witness:
  "\<exists>(entry :: unit tc_AuditLogEntry) w1.
    (\<exists>resp silent. Handle demo_gateway 0 1 () demo_request ''nobody'' ''/x'' demo_transcoder [] = (resp, silent, w1)) \<and>
    snd (snd (Handle demo_gateway 0 1 () demo_request ''nobody'' ''/x'' (WithAuditLogWriter (\<lambda>_ e w. w @ [te_Path e]) demo_transcoder) [])) =
      w1 @ [te_Path entry] \<and> te_ModuleID entry = ''nobody'' \<and> te_StatusCode entry = 404"
proof -
  let ?t = "WithAuditLogWriter (\<lambda>_ e w. w @ [te_Path e]) demo_transcoder"
  obtain t' w' where h: "Handle demo_gateway 0 1 () demo_request ''nobody'' ''/x'' ?t [] =
      (fst (Handle demo_gateway 0 1 () demo_request ''nobody'' ''/x'' ?t []), t', w')" by (metis prod.collapse)
  have a: "tc_auditWriter ?t = Some (\<lambda>_ e w. w @ [te_Path e])" by (simp add: WithAuditLogWriter_def)
  have n: "?t\<lparr>tc_auditWriter := None\<rparr> = demo_transcoder"
    using demo_transcoder_simps(3) by (simp add: WithAuditLogWriter_def)
  have "GetModuleConnection (touch 0 ''nobody'' ?t) ''nobody'' = None"
    using demo_transcoder_simps(2) 
    by (simp add: touch_def WithAuditLogWriter_def GetModuleConnection_def)
  then have "fst (handle_body demo_gateway (touch 0 ''nobody'' ?t) () demo_request ''nobody'' ''/x'' []) =
      write_error (ge_resp demo_gateway) 404 ''MODULE_NOT_FOUND'' (''module not found: '' @ ''nobody'') None"
    unfolding handle_body_def by (simp only: option.case fst_conv)
  then have c: "\<exists>body. fst (Handle demo_gateway 0 1 () demo_request ''nobody'' ''/x'' ?t []) = Response 404 body"
    unfolding Handle_def Let_def by (simp add: case_prod_beta)
  obtain body where h': "Handle demo_gateway 0 1 () demo_request ''nobody'' ''/x'' ?t [] = (Response 404 body, t', w')"
    using h c by metis
  from handle_audits_response[OF h' a] show ?thesis
    unfolding h' snd_conv http_response.case n
    apply (elim exE conjE)
    subgoal for entry w1 by (rule exI[of _ entry], rule exI[of _ w1]) simp
    done
qed

theorem tenant_injection_witness:
  "injectTenantID (demo_proto\<lparr>pb_ByName := (\<lambda>_ _. Some Uint32Kind), pb_Has := (\<lambda>_ _. True)\<rparr>) demo_auth ''other'' demo_request = Some ''other''"
  by (subst tenant_injection[of _ _ 3 _ _ Uint32Kind]) (simp_all add: demo_auth_def)

theorem full_method_path_witness: "full_method demo_method = ''/acme.Users/Get''"
  using full_method_path[of demo_method "''acme.Users''"] by (simp add: demo_method_def)

section \<open>Two bindings of one method\<close>

text \<open>
  The parameters of a call come from the most specific binding, the body and response rules from the
  first binding of the method that matches.  They are the same when only one binding matches.
\<close>

lemma unique_binding_used:
  assumes "FindMethodByHTTP pd hm path = Some (mth, params)"
    and "\<And>r r'. r \<in> set (mi_HTTPRules mth) \<Longrightarrow> r' \<in> set (mi_HTTPRules mth) \<Longrightarrow>
      EqualFold (hr_Method r) hm \<Longrightarrow> EqualFold (hr_Method r') hm \<Longrightarrow>
      MatchPath (hr_Pattern r) path \<noteq> None \<Longrightarrow> MatchPath (hr_Pattern r') path \<noteq> None \<Longrightarrow> r = r'"
  shows "find_rule mth hm path \<in> set (mi_HTTPRules mth) \<and> MatchPath (hr_Pattern (find_rule mth hm path)) path = Some params"
proof -
  obtain rule where r: "rule \<in> set (mi_HTTPRules mth)" "EqualFold (hr_Method rule) hm" "MatchPath (hr_Pattern rule) path = Some params"
    using find_method_sound[OF assms(1)] by blast
  let ?P = "\<lambda>rule. EqualFold (hr_Method rule) hm \<and> MatchPath (hr_Pattern rule) path \<noteq> None"
  have "List.find ?P (mi_HTTPRules mth) \<noteq> None" using r by (auto simp: find_None_iff)
  then obtain rule' where f: "List.find ?P (mi_HTTPRules mth) = Some rule'" by blast
  then have "?P rule'" "rule' \<in> set (mi_HTTPRules mth)" by (auto simp: find_Some_iff)
  then have "rule' = rule" using assms(2)[of rule' rule] r by blast
  then show ?thesis using f r by (simp add: find_rule_def)
qed

text \<open>What \<open>Handle\<close> takes the body and response rules from: the first binding that matches.\<close>

lemma find_rule_first:
  assumes "mi_HTTPRules mth = as @ rule # bs" and "EqualFold (hr_Method rule) hm" and "MatchPath (hr_Pattern rule) path \<noteq> None"
    and "\<forall>a \<in> set as. \<not> (EqualFold (hr_Method a) hm \<and> MatchPath (hr_Pattern a) path \<noteq> None)"
  shows "find_rule mth hm path = rule"
proof -
  have "List.find P (as @ rule # bs) = Some rule" if "P rule" "\<forall>a \<in> set as. \<not> P a" for P
    using that by (induction as) auto
  then show ?thesis using assms by (simp add: find_rule_def)
qed

text \<open>
  C18 (\<open>body_rule_of_other_binding\<close>): of a method with several matching bindings the call mixes two.  Its body and
  response rules are those of the first binding that matches, in the order of the annotation, while
  the path parameters are those of a most specific one: whenever they differ from what the first
  binding captures, another binding, at least as specific, was matched.
\<close>

theorem body_rule_of_other_binding:
  assumes "FindMethodByHTTP pd hm path = Some (mth, params)" and "mi_HTTPRules mth = as @ rule # bs"
    and "EqualFold (hr_Method rule) hm" and "MatchPath (hr_Pattern rule) path = Some captured"
    and "\<forall>a \<in> set as. \<not> (EqualFold (hr_Method a) hm \<and> MatchPath (hr_Pattern a) path \<noteq> None)"
  shows "find_rule mth hm path = rule \<and>
    (params = captured \<or> (\<exists>selected \<in> set bs. selected \<noteq> rule \<and> EqualFold (hr_Method selected) hm \<and>
       MatchPath (hr_Pattern selected) path = Some params \<and>
       calculateSpecificity (hr_Pattern rule) \<le> calculateSpecificity (hr_Pattern selected)))"
proof (intro conjI)
  show "find_rule mth hm path = rule" using find_rule_first[OF assms(2,3) _ assms(5)] assms(4) by simp
  obtain selected where m: "mth \<in> set (ListMethods pd)" "selected \<in> set (mi_HTTPRules mth)" "EqualFold (hr_Method selected) hm"
    "MatchPath (hr_Pattern selected) path = Some params"
    and max: "\<forall>mi' \<in> set (ListMethods pd). \<forall>rule' \<in> set (mi_HTTPRules mi'). EqualFold (hr_Method rule') hm \<longrightarrow>
       MatchPath (hr_Pattern rule') path \<noteq> None \<longrightarrow> calculateSpecificity (hr_Pattern rule') \<le> calculateSpecificity (hr_Pattern selected)"
    using find_method_max[OF assms(1)] by (elim exE conjE)
  note s = m(1) m(2)[unfolded assms(2)] m(3,4)
  have "calculateSpecificity (hr_Pattern rule) \<le> calculateSpecificity (hr_Pattern selected)"
    using max[rule_format, OF m(1), of rule] assms(2-4) by simp
  moreover have "selected \<notin> set as" using s(3,4) assms(5) by auto
  ultimately show "params = captured \<or> (\<exists>selected \<in> set bs. selected \<noteq> rule \<and> EqualFold (hr_Method selected) hm \<and>
       MatchPath (hr_Pattern selected) path = Some params \<and>
       calculateSpecificity (hr_Pattern rule) \<le> calculateSpecificity (hr_Pattern selected))"
    using s(2-4) assms(4) by (cases "selected = rule") auto
qed

text \<open>A method with two bindings that both match the path \<open>/v1/users\<close>.\<close>

definition two_bindings :: MethodInfo where
  "two_bindings = demo_method\<lparr>mi_HTTPRules :=
     [\<lparr>hr_Method = ''POST'', hr_Pattern = ''/v1/{kind}'', hr_Body = ''*'', hr_ResponseBody = []\<rparr>,
      \<lparr>hr_Method = ''POST'', hr_Pattern = ''/v1/users'', hr_Body = ''user'', hr_ResponseBody = []\<rparr>]\<rparr>"

definition two_bindings_descriptor :: "unit ParsedDescriptor" where
  "two_bindings_descriptor = \<lparr>pd_Services = [(''Users'', \<lparr>si_Name = ''Users'', si_FullName = ''acme.Users'',
     si_Methods = [(''Get'', two_bindings)]\<rparr>)], pd_Types = ()\<rparr>"

lemma two_bindings_match: "MatchPath ''/v1/{kind}'' ''/v1/users'' = Some [''kind'' \<mapsto> ''users'']"
  "MatchPath ''/v1/users'' ''/v1/users'' = Some Map.empty"
proof -
  have "segments ''/v1/{kind}'' = [''v1'', ''{kind}'']" "segments ''/v1/users'' = [''v1'', ''users'']" "\<not> is_param ''v1''"
    "\<not> is_param ''users''" "is_param ''{kind}''" "param_name ''{kind}'' = ''kind''" "\<not> is_rest ''kind''" by code_simp+
  then show "MatchPath ''/v1/{kind}'' ''/v1/users'' = Some [''kind'' \<mapsto> ''users'']"
    "MatchPath ''/v1/users'' ''/v1/users'' = Some Map.empty" by (simp_all add: MatchPath_def)
qed

lemma two_bindings_found:
  "FindMethodByHTTP two_bindings_descriptor ''POST'' ''/v1/users'' = Some (two_bindings, Map.empty)"
proof -
  have "calculateSpecificity ''/v1/{kind}'' = 12" "calculateSpecificity ''/v1/users'' = 22" by code_simp+
  then show ?thesis
    by (simp add: FindMethodByHTTP_def all_matches_def rule_matches_def ListMethods_def two_bindings_descriptor_def
        two_bindings_def demo_method_def two_bindings_match better_def)
qed

text \<open>Here the module is called without the parameter \<open>kind\<close>, and the whole body is read into the message.\<close>

theorem body_rule_of_other_binding_witness:
  "FindMethodByHTTP two_bindings_descriptor ''POST'' ''/v1/users'' = Some (two_bindings, Map.empty) \<and>
   hr_Body (find_rule two_bindings ''POST'' ''/v1/users'') = ''*'' \<and>
   (\<exists>selected :: HTTPRule. hr_Body selected = ''user'' \<and> MatchPath (hr_Pattern selected) ''/v1/users'' = Some Map.empty)"
proof -
  let ?rule = "hd (mi_HTTPRules two_bindings)" and ?bs = "tl (mi_HTTPRules two_bindings)"
  have rules: "mi_HTTPRules two_bindings = [] @ ?rule # ?bs" "hr_Body ?rule = ''*''" "\<forall>s \<in> set ?bs. hr_Body s = ''user''"
    "hr_Pattern ?rule = ''/v1/{kind}''" "EqualFold (hr_Method ?rule) ''POST''"
    by (simp_all add: two_bindings_def)
  have "MatchPath (hr_Pattern ?rule) ''/v1/users'' = Some [''kind'' \<mapsto> ''users'']"
    unfolding rules(4) by (rule two_bindings_match(1))
  note r = body_rule_of_other_binding[OF two_bindings_found rules(1,5) this]
  have "(Map.empty :: string \<rightharpoonup> string) \<noteq> [''kind'' \<mapsto> ''users'']" by (metis map_upd_nonempty)
  then have "\<exists>selected \<in> set ?bs. MatchPath (hr_Pattern selected) ''/v1/users'' = Some Map.empty" using r by auto
  moreover have "find_rule two_bindings ''POST'' ''/v1/users'' = ?rule" using r by simp
  ultimately show ?thesis using two_bindings_found rules(2,3) by auto
qed

end
