(* ===== verification/Router.thy ===== *)
theory Router
  imports Transcoder
begin

text \<open>
  The dynamic router, after \<^verbatim>\<open>gateway/dynamic_router.go\<close>, \<^verbatim>\<open>module_handler.go\<close>, \<^verbatim>\<open>options.go\<close> and
  \<^verbatim>\<open>interfaces.go\<close>: which module a path names, who may call it, and how registry events change
  what is routed.

  The authenticator is a parameter; a handler of a module is its identifier, all of them share
  the transcoder.  The registry's event stream is the list of events applied to the router.
\<close>

section \<open>State\<close>

datatype ModuleEventType = ModuleEventRegistered | ModuleEventUnregistered | ModuleEventUpdated | ModuleEventHealthChanged

record ModuleInfo =
  md_ModuleID :: string
  md_GrpcEndpoint :: string
  md_ProtoDescriptor :: "byte list"
  md_Health :: string

record ModuleEvent =
  me_Type :: ModuleEventType
  me_Module :: ModuleInfo

record moduleHandler =
  mh_moduleID :: string

definition newModuleHandler :: "string \<Rightarrow> moduleHandler" where
  "newModuleHandler moduleID = \<lparr>mh_moduleID = moduleID\<rparr>"

record ('conn, 'ty, 'ctx, 'w, 'opts) DynamicRouter =
  dr_transcoder :: "('conn, 'ty, 'ctx, 'w, 'opts) Transcoder"
  dr_handlers :: "string \<rightharpoonup> moduleHandler"
  dr_routePrefix :: string

definition WithRoutePrefix :: "string \<Rightarrow> ('conn, 'ty, 'ctx, 'w, 'opts) DynamicRouter \<Rightarrow> ('conn, 'ty, 'ctx, 'w, 'opts) DynamicRouter" where
  "WithRoutePrefix pre dr = dr\<lparr>dr_routePrefix := pre\<rparr>"

definition NewDynamicRouter :: "('conn, 'ty, 'ctx, 'w, 'opts) Transcoder
    \<Rightarrow> (('conn, 'ty, 'ctx, 'w, 'opts) DynamicRouter \<Rightarrow> ('conn, 'ty, 'ctx, 'w, 'opts) DynamicRouter) list
    \<Rightarrow> ('conn, 'ty, 'ctx, 'w, 'opts) DynamicRouter" where
  "NewDynamicRouter tc opts =
     fold (\<lambda>opt. opt) opts \<lparr>dr_transcoder = tc, dr_handlers = Map.empty, dr_routePrefix = ''/admin/v1/modules/''\<rparr>"

definition handler_lookup :: "('conn, 'ty, 'ctx, 'w, 'opts) DynamicRouter \<Rightarrow> string \<Rightarrow> moduleHandler option" where
  "handler_lookup dr k = dr_handlers dr k"

definition handler_store :: "string \<Rightarrow> moduleHandler
    \<Rightarrow> ('conn, 'ty, 'ctx, 'w, 'opts) DynamicRouter \<Rightarrow> ('conn, 'ty, 'ctx, 'w, 'opts) DynamicRouter" where
  "handler_store k h dr = dr\<lparr>dr_handlers := (dr_handlers dr)(k \<mapsto> h)\<rparr>"

definition handler_delete :: "string
    \<Rightarrow> ('conn, 'ty, 'ctx, 'w, 'opts) DynamicRouter \<Rightarrow> ('conn, 'ty, 'ctx, 'w, 'opts) DynamicRouter" where
  "handler_delete k dr = dr\<lparr>dr_handlers := (dr_handlers dr)(k := None)\<rparr>"

interpretation handlers: keyed_store handler_lookup handler_store handler_delete
  by unfold_locales (auto simp: handler_lookup_def handler_store_def handler_delete_def fun_eq_iff)

section \<open>Registry events\<close>

type_synonym 'ty parser = "byte list \<Rightarrow> (parse_err, 'ty ParsedDescriptor) result"

definition registerModuleHandler :: "('conn, 'w, 'rpcerr, 'gctx, 'msg, 'pool, 'cert) rpc_api \<Rightarrow> 'ty parser \<Rightarrow> int
    \<Rightarrow> ModuleInfo \<Rightarrow> ('conn, 'ty, 'ctx, 'w, 'opts) DynamicRouter \<Rightarrow> ('conn, 'ty, 'ctx, 'w, 'opts) DynamicRouter" where
  "registerModuleHandler N parse now module dr =
     (if length (md_ProtoDescriptor module) = 0 then dr
      else case RegisterModule N parse now (md_ModuleID module) (md_GrpcEndpoint module) (md_ProtoDescriptor module)
                  (dr_transcoder dr) of
        (Some _, tc) \<Rightarrow> dr\<lparr>dr_transcoder := tc\<rparr>
      | (None, tc) \<Rightarrow>
          handler_store (md_ModuleID module) (newModuleHandler (md_ModuleID module)) (dr\<lparr>dr_transcoder := tc\<rparr>))"

definition unregisterModuleHandler :: "('conn, 'w, 'rpcerr, 'gctx, 'msg, 'pool, 'cert) rpc_api \<Rightarrow> string
    \<Rightarrow> ('conn, 'ty, 'ctx, 'w, 'opts) DynamicRouter \<Rightarrow> 'w \<Rightarrow> ('conn, 'ty, 'ctx, 'w, 'opts) DynamicRouter \<times> 'w" where
  "unregisterModuleHandler N moduleID dr w =
     (let dr' = handler_delete moduleID dr; (err, tc, w') = UnregisterModule N moduleID (dr_transcoder dr') w
      in (dr'\<lparr>dr_transcoder := tc\<rparr>, w'))"

definition handleModuleEvent :: "('conn, 'w, 'rpcerr, 'gctx, 'msg, 'pool, 'cert) rpc_api \<Rightarrow> 'ty parser \<Rightarrow> int
    \<Rightarrow> ModuleEvent \<Rightarrow> ('conn, 'ty, 'ctx, 'w, 'opts) DynamicRouter \<times> 'w \<Rightarrow> ('conn, 'ty, 'ctx, 'w, 'opts) DynamicRouter \<times> 'w" where
  "handleModuleEvent N parse now event st =
     (case me_Type event of
        ModuleEventRegistered \<Rightarrow> (registerModuleHandler N parse now (me_Module event) (fst st), snd st)
      | ModuleEventUpdated \<Rightarrow> (registerModuleHandler N parse now (me_Module event) (fst st), snd st)
      | ModuleEventUnregistered \<Rightarrow> unregisterModuleHandler N (md_ModuleID (me_Module event)) (fst st) (snd st)
      | ModuleEventHealthChanged \<Rightarrow> st)"

definition LoadExistingModules :: "('conn, 'w, 'rpcerr, 'gctx, 'msg, 'pool, 'cert) rpc_api \<Rightarrow> 'ty parser \<Rightarrow> int
    \<Rightarrow> ModuleInfo list \<Rightarrow> ('conn, 'ty, 'ctx, 'w, 'opts) DynamicRouter \<Rightarrow> ('conn, 'ty, 'ctx, 'w, 'opts) DynamicRouter" where
  "LoadExistingModules N parse now modules dr = fold (registerModuleHandler N parse now) modules dr"

section \<open>Requests\<close>

definition extractModuleFromPath :: "string \<Rightarrow> string \<Rightarrow> string \<times> string" where
  "extractModuleFromPath routePrefix path =
     (if \<not> HasPrefix path routePrefix then ([], [])
      else let remaining = TrimPrefix path routePrefix in
      if remaining = [] then ([], [])
      else case Index remaining ''/'' of
        None \<Rightarrow> (remaining, ''/'')
      | Some slashIdx \<Rightarrow> (take slashIdx remaining, drop slashIdx remaining))"

text \<open>
  \<open>AuthenticateToken\<close> checks a bearer token; \<open>ContextWithAuthClaims\<close> stores its claims in the context.
\<close>

record ('ctx, 'claims) authenticator =
  AuthenticateToken :: "string \<Rightarrow> 'claims option"
  ContextWithAuthClaims :: "'ctx \<Rightarrow> 'claims \<Rightarrow> 'ctx"

definition authenticateRequest :: "('ctx, 'claims) authenticator \<Rightarrow> 'ctx HttpRequest \<Rightarrow> 'ctx HttpRequest \<times> bool" where
  "authenticateRequest A r =
     (let authHeader = rq_Header r ''Authorization'' in
      if length authHeader \<le> 7 \<or> \<not> EqualFold (take 7 authHeader) ''bearer '' then (r, False)
      else case AuthenticateToken A (drop 7 authHeader) of
        None \<Rightarrow> (r, False)
      | Some claims \<Rightarrow> (r\<lparr>rq_Context := ContextWithAuthClaims A (rq_Context r) claims\<rparr>, True))"

definition dr_writeError :: "('msg, 'opts, 'err, 'det) resp_api \<Rightarrow> nat \<Rightarrow> string \<Rightarrow> http_response" where
  "dr_writeError R code message = Response code (json_HTTPError R code message [])"

definition handler_ServeHTTP :: "('md, 'fd, 'msg, 'f, 'obj, 'opts, 'err, 'det, 'conn, 'w, 'gctx, 'pool, 'cert, 'ctx, 'omd) gateway_env
    \<Rightarrow> int \<Rightarrow> int \<Rightarrow> moduleHandler \<Rightarrow> 'ctx HttpRequest \<Rightarrow> string \<Rightarrow> ('conn, 'ty, 'ctx, 'w, 'opts) Transcoder \<Rightarrow> 'w
    \<Rightarrow> http_response \<times> ('conn, 'ty, 'ctx, 'w, 'opts) Transcoder \<times> 'w" where
  "handler_ServeHTTP E now latency h r modulePath tc w =
     Handle E now latency (rq_Context r) r (mh_moduleID h) modulePath tc w"

definition router_ServeHTTP :: "('md, 'fd, 'msg, 'f, 'obj, 'opts, 'err, 'det, 'conn, 'w, 'gctx, 'pool, 'cert, 'ctx, 'omd) gateway_env
    \<Rightarrow> ('ctx, 'claims) authenticator \<Rightarrow> int \<Rightarrow> int \<Rightarrow> 'ctx HttpRequest
    \<Rightarrow> ('conn, 'ty, 'ctx, 'w, 'opts) DynamicRouter \<Rightarrow> 'w
    \<Rightarrow> http_response \<times> ('conn, 'ty, 'ctx, 'w, 'opts) DynamicRouter \<times> 'w" where
  "router_ServeHTTP E A now latency r dr w =
     (let (moduleID, modulePath) = extractModuleFromPath (dr_routePrefix dr) (rq_Path r) in
      if moduleID = [] then (dr_writeError (ge_resp E) 400 ''missing module ID in path'', dr, w)
      else let (authedReq, ok) = authenticateRequest A r in
      if \<not> ok then (dr_writeError (ge_resp E) 401 ''authentication required'', dr, w)
      else case handler_lookup dr moduleID of
        None \<Rightarrow> (dr_writeError (ge_resp E) 404 (''module not found: '' @ moduleID), dr, w)
      | Some h \<Rightarrow>
          (let (resp, tc, w') = handler_ServeHTTP E now latency h authedReq modulePath (dr_transcoder dr) w
           in (resp, dr\<lparr>dr_transcoder := tc\<rparr>, w')))"

definition ListRegisteredModules :: "('conn, 'ty, 'ctx, 'w, 'opts) DynamicRouter \<Rightarrow> string set" where
  "ListRegisteredModules dr = dom (dr_handlers dr)"

definition GetModuleRoutes :: "('conn, 'ty, 'ctx, 'w, 'opts) DynamicRouter \<Rightarrow> string \<Rightarrow> ('rpcerr tc_error, RouteInfo list) result" where
  "GetModuleRoutes dr moduleID =
     rbind (GetModuleMethods (dr_transcoder dr) moduleID) (\<lambda>methods.
       Inr (route_infos moduleID (\<lambda>p. dr_routePrefix dr @ moduleID @ p) methods))"

definition GetAllRoutes :: "string list \<Rightarrow> ('conn, 'ty, 'ctx, 'w, 'opts) DynamicRouter \<Rightarrow> RouteInfo list" where
  "GetAllRoutes order dr = ListRoutes order (dr_transcoder dr)"

definition RoutePrefix :: "('conn, 'ty, 'ctx, 'w, 'opts) DynamicRouter \<Rightarrow> string" where
  "RoutePrefix dr = dr_routePrefix dr"

section \<open>Lemmas\<close>

text \<open>Every routed module has a connection, and its handler is its own.\<close>

definition router_inv :: "('conn, 'ty, 'ctx, 'w, 'opts) DynamicRouter \<Rightarrow> bool" where
  "router_inv dr \<longleftrightarrow> dom (dr_handlers dr) \<subseteq> dom (tc_connections (dr_transcoder dr)) \<and>
     (\<forall>k h. dr_handlers dr k = Some h \<longrightarrow> mh_moduleID h = k)"

lemma router_inv_register: "router_inv dr \<Longrightarrow> router_inv (registerModuleHandler N parse now module dr)"
proof -
  assume inv: "router_inv dr"
  obtain err tc where r: "RegisterModule N parse now (md_ModuleID module) (md_GrpcEndpoint module) (md_ProtoDescriptor module)
      (dr_transcoder dr) = (err, tc)" by (metis surj_pair)
  have d: "dom (tc_connections tc) =
      (if err = None then insert (md_ModuleID module) (dom (tc_connections (dr_transcoder dr)))
       else dom (tc_connections (dr_transcoder dr)))"
    using RegisterModule_dom[of N parse now "md_ModuleID module" "md_GrpcEndpoint module" "md_ProtoDescriptor module" "dr_transcoder dr"]
    by (simp add: r)
  show ?thesis using inv unfolding router_inv_def registerModuleHandler_def r
    by (cases err) (simp_all add: d handler_store_def newModuleHandler_def subset_insertI2)
qed

lemma router_inv_unregister: "router_inv dr \<Longrightarrow> router_inv (fst (unregisterModuleHandler N moduleID dr w))"
proof -
  assume inv: "router_inv dr"
  obtain err tc w' where r: "UnregisterModule N moduleID (dr_transcoder dr) w = (err, tc, w')" by (metis surj_pair)
  have d: "dom (tc_connections tc) = dom (tc_connections (dr_transcoder dr)) - {moduleID}"
    using UnregisterModule_dom[of N moduleID "dr_transcoder dr" w] by (simp add: r)
  show ?thesis using inv
    by (simp add: router_inv_def unregisterModuleHandler_def handler_delete_def r d) blast
qed

lemma router_inv_event: "router_inv (fst st) \<Longrightarrow> router_inv (fst (handleModuleEvent N parse now event st))"
  by (simp add: handleModuleEvent_def router_inv_register router_inv_unregister split: ModuleEventType.split)

lemma router_inv_events:
  "router_inv (fst st) \<Longrightarrow> router_inv (fst (fold (handleModuleEvent N parse now) events st))"
  by (induction events arbitrary: st) (simp_all add: router_inv_event)

subsection \<open>The routing table as a set\<close>

text \<open>
  The abstract view of the router: the set of modules it routes to, and what a registry event does to
  it.  A module is routable when it has a descriptor that parses and an endpoint that can be dialled.
\<close>

definition routable :: "('conn, 'w, 'rpcerr, 'gctx, 'msg, 'pool, 'cert) rpc_api \<Rightarrow> 'ty parser
    \<Rightarrow> ('conn, 'ty, 'ctx, 'w, 'opts) Transcoder \<Rightarrow> ModuleInfo \<Rightarrow> bool" where
  "routable N parse tc m \<longleftrightarrow> md_ProtoDescriptor m \<noteq> [] \<and> is_ok (parse (md_ProtoDescriptor m)) \<and>
     is_ok (createConnection N tc (md_ModuleID m) (md_GrpcEndpoint m))"

definition table_event :: "('conn, 'w, 'rpcerr, 'gctx, 'msg, 'pool, 'cert) rpc_api \<Rightarrow> 'ty parser
    \<Rightarrow> ('conn, 'ty, 'ctx, 'w, 'opts) Transcoder \<Rightarrow> ModuleEvent \<Rightarrow> string set \<Rightarrow> string set" where
  "table_event N parse tc event S =
     (case me_Type event of
        ModuleEventRegistered \<Rightarrow> if routable N parse tc (me_Module event) then insert (md_ModuleID (me_Module event)) S else S
      | ModuleEventUpdated \<Rightarrow> if routable N parse tc (me_Module event) then insert (md_ModuleID (me_Module event)) S else S
      | ModuleEventUnregistered \<Rightarrow> S - {md_ModuleID (me_Module event)}
      | ModuleEventHealthChanged \<Rightarrow> S)"

lemma routable_cong: "tc_connectTimeout tc = tc_connectTimeout tc' \<Longrightarrow> routable N parse tc m = routable N parse tc' m"
  by (simp add: routable_def createConnection_def)

lemma registerModuleHandler_table:
  "dom (dr_handlers (registerModuleHandler N parse now m dr)) =
     (if routable N parse (dr_transcoder dr) m then insert (md_ModuleID m) (dom (dr_handlers dr)) else dom (dr_handlers dr))"
  "tc_connectTimeout (dr_transcoder (registerModuleHandler N parse now m dr)) = tc_connectTimeout (dr_transcoder dr)"
  by (auto simp: registerModuleHandler_def routable_def RegisterModule_def handler_store_def conn_insert_def
      split: sum.split)

lemma unregisterModuleHandler_table:
  "dom (dr_handlers (fst (unregisterModuleHandler N m dr w))) = dom (dr_handlers dr) - {m}"
  "tc_connectTimeout (dr_transcoder (fst (unregisterModuleHandler N m dr w))) = tc_connectTimeout (dr_transcoder dr)"
  by (auto simp: unregisterModuleHandler_def UnregisterModule_def handler_delete_def conn_remove_def Let_def split: option.split)

lemma handleModuleEvent_table:
  assumes "tc_connectTimeout (dr_transcoder (fst st)) = tc_connectTimeout tc"
  shows "dom (dr_handlers (fst (handleModuleEvent N parse now e st))) = table_event N parse tc e (dom (dr_handlers (fst st)))"
    and "tc_connectTimeout (dr_transcoder (fst (handleModuleEvent N parse now e st))) = tc_connectTimeout tc"
  by (cases "me_Type e"; simp add: handleModuleEvent_def table_event_def registerModuleHandler_table unregisterModuleHandler_table
      routable_cong[OF assms] assms)+

lemma handleModuleEvents_table:
  "tc_connectTimeout (dr_transcoder (fst st)) = tc_connectTimeout tc \<Longrightarrow>
   dom (dr_handlers (fst (fold (handleModuleEvent N parse now) events st))) =
     fold (table_event N parse tc) events (dom (dr_handlers (fst st)))"
  by (induction events arbitrary: st) (simp_all add: handleModuleEvent_table)

lemma extract_path:
  assumes "mid \<noteq> []" and "CHR ''/'' \<notin> set mid" and "rest = [] \<or> hd rest = CHR ''/''"
  shows "extractModuleFromPath pre (pre @ mid @ rest) = (mid, if rest = [] then ''/'' else rest)"
proof (cases rest)
  case Nil
  then show ?thesis using assms(1,2) Index_char_None[of mid "CHR ''/''"] by (simp add: extractModuleFromPath_def)
next
  case (Cons c cs)
  then have "Index (mid @ rest) ''/'' = Some (length mid)"
    using assms(2,3) nth_append_length[of mid c cs] by (simp add: Index_char_Some)
  then show ?thesis using assms(1) Cons by (simp add: extractModuleFromPath_def)
qed

section \<open>Properties\<close>

text \<open>
  C4 (\<open>router_requires_token\<close>): nothing behind the router is touched without a valid bearer token.  A
  request without one is answered with 400 or 401, and neither the world nor the router changes.
\<close>

theorem router_requires_token:
  assumes "\<not> (\<exists>token claims. EqualFold (take 7 (rq_Header r ''Authorization'')) ''bearer '' \<and>
      drop 7 (rq_Header r ''Authorization'') = token \<and> token \<noteq> [] \<and> AuthenticateToken A token = Some claims)"
  shows "\<exists>code body. router_ServeHTTP E A now latency r dr w = (Response code body, dr, w) \<and> code \<in> {400, 401}"
proof -
  have "\<not> snd (authenticateRequest A r)"
    using assms by (auto simp: authenticateRequest_def Let_def split: option.splits)
  then show ?thesis
    by (auto simp: router_ServeHTTP_def Let_def dr_writeError_def split: prod.split)
qed

text \<open>
  C12 (\<open>routed_request\<close>): a path made of the prefix, a module identifier and a module path is handled by
  that module with that path, with the claims of the token in the context, when the module is routed
  and the token valid.
\<close>

theorem routed_request:
  assumes "rq_Path r = dr_routePrefix dr @ mid @ rest" and "mid \<noteq> []" and "CHR ''/'' \<notin> set mid"
    and "rest = [] \<or> hd rest = CHR ''/''" and "router_inv dr" and "mid \<in> dom (dr_handlers dr)"
    and "rq_Header r ''Authorization'' = ''Bearer '' @ token" and "token \<noteq> []" and "AuthenticateToken A token = Some claims"
  shows "router_ServeHTTP E A now latency r dr w =
    (case Handle E now latency (ContextWithAuthClaims A (rq_Context r) claims)
       (r\<lparr>rq_Context := ContextWithAuthClaims A (rq_Context r) claims\<rparr>) mid (if rest = [] then ''/'' else rest)
       (dr_transcoder dr) w of
      (resp, tc, w') \<Rightarrow> (resp, dr\<lparr>dr_transcoder := tc\<rparr>, w'))"
proof -
  have "EqualFold ''Bearer '' ''bearer ''" by code_simp
  then have a: "authenticateRequest A r = (r\<lparr>rq_Context := ContextWithAuthClaims A (rq_Context r) claims\<rparr>, True)"
    using assms(7-9) by (simp add: authenticateRequest_def Let_def)
  obtain h where h: "handler_lookup dr mid = Some h" "mh_moduleID h = mid"
    using assms(5,6) by (auto simp: router_inv_def handler_lookup_def)
  show ?thesis using extract_path[OF assms(2-4), of "dr_routePrefix dr"] assms(2)
    by (simp add: router_ServeHTTP_def assms(1) a h handler_ServeHTTP_def)
qed

text \<open>
  C13 (\<open>router_events_invariant\<close>): after any sequence of registry events, whatever descriptors fail to
  parse or endpoints to connect, every routed module has a connection and a handler of its own.
\<close>

theorem router_events_invariant:
  "router_inv (fst (fold (handleModuleEvent N parse now) events (NewDynamicRouter (NewTranscoder rt []) [], w)))"
  by (rule router_inv_events) (simp add: NewDynamicRouter_def NewTranscoder_def router_inv_def)

text \<open>
  C14 (\<open>routing_table_refined\<close>): the router implements a set of modules.  After any sequence of registry
  events the modules it lists are those of the abstract table after the same events: a
  registration or update adds a routable module and changes nothing otherwise, an
  unregistration removes it, a health change has no effect.
\<close>

theorem routing_table_refined:
  "ListRegisteredModules (fst (fold (handleModuleEvent N parse now) events (dr, w))) =
     fold (table_event N parse (dr_transcoder dr)) events (ListRegisteredModules dr)"
  unfolding ListRegisteredModules_def using handleModuleEvents_table[of "(dr, w)" "dr_transcoder dr" N parse now events] by simp

section \<open>Examples\<close>

definition demo_router :: "(unit, unit, unit, string list, unit) DynamicRouter" where
  "demo_router = registerModuleHandler demo_rpc (\<lambda>_. Inr demo_descriptor) 0
     \<lparr>md_ModuleID = ''users'', md_GrpcEndpoint = ''host:1'', md_ProtoDescriptor = [1], md_Health = ''ok''\<rparr>
     (NewDynamicRouter (NewTranscoder \<lparr>marshalOptions = ()\<rparr> []) [WithRoutePrefix ''/m/''])"

definition demo_authenticator :: "(unit, string) authenticator" where
  "demo_authenticator = \<lparr>AuthenticateToken = (\<lambda>tok. if tok = ''good'' then Some ''alice'' else None),
     ContextWithAuthClaims = (\<lambda>_ _. ())\<rparr>"

lemma demo_router_simps: "dr_routePrefix demo_router = ''/m/''" "router_inv demo_router"
  "''users'' \<in> dom (dr_handlers demo_router)"
proof -
  have e: "router_inv (NewDynamicRouter (NewTranscoder \<lparr>marshalOptions = ()\<rparr> []) [WithRoutePrefix ''/m/''])"
    by (simp add: NewDynamicRouter_def NewTranscoder_def router_inv_def WithRoutePrefix_def)
  then show "router_inv demo_router" unfolding demo_router_def by (rule router_inv_register)
  show "dr_routePrefix demo_router = ''/m/''" "''users'' \<in> dom (dr_handlers demo_router)"
    by (simp_all add: demo_router_def registerModuleHandler_def RegisterModule_def createConnection_def demo_rpc_def
        handler_store_def NewDynamicRouter_def WithRoutePrefix_def)
qed

definition routed_http :: "string \<Rightarrow> unit HttpRequest" where
  "routed_http auth = demo_request\<lparr>rq_Path := ''/m/users/v1/users/7'', rq_Header := (\<lambda>h. if h = ''Authorization'' then auth else [])\<rparr>"

theorem router_requires_token_witness:
  "\<exists>code body. router_ServeHTTP demo_gateway demo_authenticator 0 1 (routed_http ''Bearer bad'') demo_router [] =
     (Response code body, demo_router, []) \<and> code \<in> {400, 401}"
  by (rule router_requires_token) (simp add: routed_http_def demo_authenticator_def)

theorem routed_request_witness:
  "snd (snd (router_ServeHTTP demo_gateway demo_authenticator 0 1 (routed_http ''Bearer good'') demo_router [])) =
     snd (snd (Handle demo_gateway 0 1 () (routed_http ''Bearer good'') ''users'' ''/v1/users/7'' (dr_transcoder demo_router) []))"
proof -
  let ?r = "routed_http ''Bearer good''"
  have r: "rq_Path ?r = dr_routePrefix demo_router @ ''users'' @ ''/v1/users/7''" "rq_Header ?r ''Authorization'' = ''Bearer '' @ ''good''"
    "rq_Context ?r = ()" by (simp_all add: routed_http_def demo_router_simps)
  have c: "?r\<lparr>rq_Context := ()\<rparr> = ?r" by (simp add: routed_http_def demo_request_def)
  show ?thesis
    by (subst routed_request[OF r(1) _ _ _ demo_router_simps(2,3) r(2), of demo_authenticator "''alice''"])
      (simp_all add: demo_authenticator_def c split: prod.split)
qed

end
