(* ===== verification/Filepath.thy ===== *)
theory Filepath
  imports GoStrings
begin

text \<open>
  \<open>filepath.Join\<close> and \<open>filepath.Clean\<close> as they work on Unix, for the components that lay out
  certificates on disk (\<^verbatim>\<open>cert/\<close>, \<^verbatim>\<open>grpcx/module_dialer.go\<close>, \<^verbatim>\<open>registration/client.go\<close>).  The one
  fact they need is that a path ends with the last element joined.
\<close>

definition clean_step :: "bool \<Rightarrow> string \<Rightarrow> string list \<Rightarrow> string list" where
  "clean_step rooted part comps =
     (if part = [] \<or> part = ''.'' then comps
      else if part = ''..'' then
        (if comps \<noteq> [] \<and> last comps \<noteq> ''..'' then butlast comps
         else if rooted then comps else comps @ [''..''])
      else comps @ [part])"

definition Clean :: "string \<Rightarrow> string" where
  "Clean path =
     (let rooted = (path \<noteq> [] \<and> hd path = CHR ''/'');
          comps = fold (clean_step rooted) (Split CHR ''/'' path) []
      in if rooted then ''/'' @ Join ''/'' comps else if comps = [] then ''.'' else Join ''/'' comps)"

definition filepath_Join :: "string list \<Rightarrow> string" where
  "filepath_Join elem =
     (case dropWhile (\<lambda>e. e = []) elem of [] \<Rightarrow> [] | es \<Rightarrow> Clean (Join ''/'' es))"

definition plain_name :: "string \<Rightarrow> bool" where
  "plain_name n \<longleftrightarrow> n \<noteq> [] \<and> n \<noteq> ''.'' \<and> n \<noteq> ''..'' \<and> CHR ''/'' \<notin> set n"

text \<open>The part of a path behind its last slash.\<close>

definition base_name :: "string \<Rightarrow> string" where
  "base_name p = last (Split CHR ''/'' p)"

lemma Split_append: "Split c (s @ c # t) = Split c s @ Split c t"
  by (induction s) auto

lemma Join_snoc: "Join sep (es @ [n]) = (if es = [] then n else Join sep es @ sep @ n)"
  by (induction sep es rule: Join.induct) auto

lemma Split_Join_snoc:
  "CHR ''/'' \<notin> set n \<Longrightarrow> es \<noteq> [] \<Longrightarrow> Split CHR ''/'' (Join ''/'' (es @ [n])) = Split CHR ''/'' (Join ''/'' es) @ [n]"
  by (simp add: Join_snoc Split_append Split_sep_free)

lemma base_name_append:
  assumes "CHR ''/'' \<notin> set n"
  shows "base_name n = n" "base_name (CHR ''/'' # n) = n" "base_name (s @ CHR ''/'' # n) = n"
    "base_name (c # s @ CHR ''/'' # n) = n"
  using assms Split_append[of "CHR ''/''" s n] Split_append[of "CHR ''/''" "c # s" n]
  by (simp_all only: base_name_def append_Cons) (simp_all add: Split_sep_free)

lemma clean_step_plain: "plain_name n \<Longrightarrow> clean_step r n comps = comps @ [n]"
  by (simp add: clean_step_def plain_name_def)

lemma base_name_Clean:
  assumes "plain_name n" and "Split CHR ''/'' path = ps @ [n]"
  shows "base_name (Clean path) = n"
proof -
  have n: "CHR ''/'' \<notin> set n" using assms(1) by (simp add: plain_name_def)
  let ?c = "fold (clean_step (path \<noteq> [] \<and> hd path = CHR ''/'')) ps []"
  have c: "fold (clean_step (path \<noteq> [] \<and> hd path = CHR ''/'')) (Split CHR ''/'' path) [] = ?c @ [n]"
    by (simp add: assms(2) clean_step_plain[OF assms(1)])
  show ?thesis unfolding Clean_def Let_def c Join_snoc
    by (simp add: base_name_append[OF n])
qed

lemma base_name_Join:
  assumes "plain_name n" and "plain_name m"
  shows "base_name (filepath_Join [d, m, n]) = n"
proof -
  have ne: "m \<noteq> []" "n \<noteq> []" and sl: "CHR ''/'' \<notin> set n" using assms by (simp_all add: plain_name_def)
  obtain es where e: "dropWhile (\<lambda>e. e = []) [d, m, n] = es @ [n]" "es \<noteq> []"
    using ne by (cases "d = []") auto
  have "filepath_Join [d, m, n] = Clean (Join ''/'' (es @ [n]))"
    unfolding filepath_Join_def e(1) using e(2) by (cases es) simp_all
  then show ?thesis using base_name_Clean[OF assms(1) Split_Join_snoc[OF sl e(2)]] by simp
qed

lemma filepath_Join_neq:
  "plain_name n \<Longrightarrow> plain_name m \<Longrightarrow> plain_name n' \<Longrightarrow> plain_name m' \<Longrightarrow> n \<noteq> n' \<Longrightarrow>
   filepath_Join [d, m, n] \<noteq> filepath_Join [d, m', n']"
  by (metis base_name_Join)

end
