(* ===== verification/Cert.thy ===== *)
theory Cert
  imports Filepath Claims
begin

text \<open>
  Certificate provisioning, after \<^verbatim>\<open>cert/\<close>: the check of the certificates on disk
  (\<^verbatim>\<open>validity.go\<close>), key and request generation (\<^verbatim>\<open>csr.go\<close>), the pinned connection to the
  certificate service (\<^verbatim>\<open>pinned_dialer.go\<close>), \<open>Ensure\<close> and its defaults (\<^verbatim>\<open>ensure.go\<close>), the
  older bootstrap call (\<^verbatim>\<open>bootstrap.go\<close>) and the server's TLS configuration (\<^verbatim>\<open>manager.go\<close>).

  The file system is a part of the world, read and written through an \<open>os_api\<close>; X.509, RSA and
  PEM are parameters, and so is the remote service.  Times and durations are nanoseconds.
\<close>

section \<open>The surroundings\<close>

datatype os_err = NotExist | OsError string

record 'w os_api =
  os_Stat_err :: "'w \<Rightarrow> string \<Rightarrow> os_err option"
  os_Read :: "'w \<Rightarrow> string \<Rightarrow> (os_err, byte list) result"
  os_MkdirAll :: "string \<Rightarrow> nat \<Rightarrow> 'w \<Rightarrow> os_err option \<times> 'w"
  os_WriteFile :: "string \<Rightarrow> byte list \<Rightarrow> nat \<Rightarrow> 'w \<Rightarrow> os_err option \<times> 'w"

text \<open>
  What the code relies on: a file that was written is there with its contents, and neither
  writing one file nor creating directories changes another file (the certificate directory
  holds no links).
\<close>

definition os_laws :: "'w os_api \<Rightarrow> bool" where
  "os_laws F \<longleftrightarrow>
     (\<forall>p d m w w'. os_WriteFile F p d m w = (None, w') \<longrightarrow>
        os_Stat_err F w' p = None \<and> os_Read F w' p = Inr d \<and> (\<forall>q. q \<noteq> p \<longrightarrow> os_Read F w' q = os_Read F w q)) \<and>
     (\<forall>p m w e w'. os_MkdirAll F p m w = (e, w') \<longrightarrow> (\<forall>q. os_Read F w' q = os_Read F w q))"

text \<open>\<open>x_Verify root cert t\<close>: \<open>cert.Verify\<close> for server use, with the one root, at time \<open>t\<close>.\<close>

record 'c x509_api =
  pem_Decode :: "byte list \<Rightarrow> (string \<times> byte list) option"
  x_Parse :: "byte list \<Rightarrow> (string, 'c) result"
  x_Raw :: "'c \<Rightarrow> byte list"
  x_NotBefore :: "'c \<Rightarrow> int"
  x_NotAfter :: "'c \<Rightarrow> int"
  x_Verify :: "'c \<Rightarrow> 'c \<Rightarrow> int \<Rightarrow> string option"
  sha256_Sum :: "byte list \<Rightarrow> byte list"

section \<open>The certificates on disk (\<^verbatim>\<open>validity.go\<close>)\<close>

datatype parse_cert_err = NoPEMBlock | ExpectedCertificate string | X509Error string

definition parseCert :: "'c x509_api \<Rightarrow> byte list \<Rightarrow> (parse_cert_err, 'c) result" where
  "parseCert X pemBytes =
     (case pem_Decode X pemBytes of
        None \<Rightarrow> Inl NoPEMBlock
      | Some (type, bytes) \<Rightarrow>
          if type \<noteq> ''CERTIFICATE'' then Inl (ExpectedCertificate type) else wrap_err X509Error (x_Parse X bytes))"

definition FingerprintSHA256 :: "'c x509_api \<Rightarrow> 'c \<Rightarrow> string" where
  "FingerprintSHA256 X c = hex_EncodeToString (sha256_Sum X (x_Raw X c))"

definition FingerprintSHA256PEM :: "'c x509_api \<Rightarrow> byte list \<Rightarrow> (parse_cert_err, string) result" where
  "FingerprintSHA256PEM X pemBytes = rbind (parseCert X pemBytes) (\<lambda>c. Inr (FingerprintSHA256 X c))"

datatype health_reason = Missing string os_err | ReadCA os_err | ParseCA parse_cert_err
  | FingerprintMismatch string string | ReadServer os_err | ParseServer parse_cert_err
  | VerifyChain string | NotYetValid int | RenewalWindow int int

record 'c CertHealth =
  ch_OK :: bool
  ch_Reason :: "health_reason option"
  ch_Cert :: "'c option"
  ch_CA :: "'c option"

definition unhealthy :: "health_reason \<Rightarrow> 'c option \<Rightarrow> 'c option \<Rightarrow> 'c CertHealth" where
  "unhealthy r srv ca = \<lparr>ch_OK = False, ch_Reason = Some r, ch_Cert = srv, ch_CA = ca\<rparr>"

text \<open>\<open>now\<close> is the time of the check, which the chain verification reads as well.\<close>

definition CheckLocalCert :: "'w os_api \<Rightarrow> 'c x509_api \<Rightarrow> int \<Rightarrow> string \<Rightarrow> string \<Rightarrow> int \<Rightarrow> 'w \<Rightarrow> 'c CertHealth" where
  "CheckLocalCert F X now certsDir expectedFingerprint renewBefore w =
     (let caPath = certsDir @ ''/ca/ca.crt''; srvPath = certsDir @ ''/server/server.crt''; keyPath = certsDir @ ''/server/server.key''
      in case List.find (\<lambda>p. os_Stat_err F w p \<noteq> None) [caPath, srvPath, keyPath] of
        Some p \<Rightarrow> unhealthy (Missing p (the (os_Stat_err F w p))) None None
      | None \<Rightarrow>
      (case os_Read F w caPath of
        Inl e \<Rightarrow> unhealthy (ReadCA e) None None
      | Inr caBytes \<Rightarrow>
      (case parseCert X caBytes of
        Inl e \<Rightarrow> unhealthy (ParseCA e) None None
      | Inr ca \<Rightarrow>
      if expectedFingerprint \<noteq> [] \<and> \<not> EqualFold (FingerprintSHA256 X ca) expectedFingerprint then
        unhealthy (FingerprintMismatch (FingerprintSHA256 X ca) expectedFingerprint) None (Some ca)
      else
      (case os_Read F w srvPath of
        Inl e \<Rightarrow> unhealthy (ReadServer e) None (Some ca)
      | Inr srvBytes \<Rightarrow>
      (case parseCert X srvBytes of
        Inl e \<Rightarrow> unhealthy (ParseServer e) None (Some ca)
      | Inr srv \<Rightarrow>
      (case x_Verify X ca srv now of
        Some e \<Rightarrow> unhealthy (VerifyChain e) (Some srv) (Some ca)
      | None \<Rightarrow>
      if now < x_NotBefore X srv then unhealthy (NotYetValid (x_NotBefore X srv)) (Some srv) (Some ca)
      else if \<not> now < x_NotAfter X srv - renewBefore then
        unhealthy (RenewalWindow (x_NotAfter X srv) renewBefore) (Some srv) (Some ca)
      else \<lparr>ch_OK = True, ch_Reason = None, ch_Cert = Some srv, ch_CA = Some ca\<rparr>))))))"

section \<open>The pinned connection (\<^verbatim>\<open>pinned_dialer.go\<close>)\<close>

datatype pin_err = NoCertificates | NotPinned string

definition verify_pinned :: "'c x509_api \<Rightarrow> string \<Rightarrow> byte list list \<Rightarrow> pin_err option" where
  "verify_pinned X wantFP rawCerts =
     (if length rawCerts = 0 then Some NoCertificates
      else if list_ex (\<lambda>der. case x_Parse X der of Inl _ \<Rightarrow> False | Inr c \<Rightarrow> FingerprintSHA256 X c = wantFP) rawCerts
      then None else Some (NotPinned wantFP))"

record pinned_tls =
  pt_InsecureSkipVerify :: bool
  pt_MinVersion :: nat
  pt_VerifyPeerCertificate :: "byte list list \<Rightarrow> pin_err option"

datatype dial_err = FingerprintRequired | DialFailed string string

definition PinnedDial :: "'c x509_api \<Rightarrow> (string \<Rightarrow> pinned_tls \<Rightarrow> 'opt list \<Rightarrow> (string, 'conn) result) \<Rightarrow> string \<Rightarrow> string
    \<Rightarrow> 'opt list \<Rightarrow> (dial_err, 'conn) result" where
  "PinnedDial X newClient addr expectedFingerprint extra =
     (if expectedFingerprint = [] then Inl FingerprintRequired
      else let wantFP = ToLower (TrimSpace expectedFingerprint);
               tlsCfg = \<lparr>pt_InsecureSkipVerify = True, pt_MinVersion = 771, pt_VerifyPeerCertificate = verify_pinned X wantFP\<rparr>
      in wrap_err (DialFailed addr) (newClient addr tlsCfg extra))"

section \<open>Keys and signing requests (\<^verbatim>\<open>csr.go\<close>)\<close>

record 'ip csr_template =
  csr_CommonName :: string
  csr_Organization :: "string list"
  csr_DNSNames :: "string list"
  csr_IPAddresses :: "'ip list"

record ('key, 'ip, 'w) key_api =
  rsa_GenerateKey :: "nat \<Rightarrow> 'w \<Rightarrow> (string, 'key) result \<times> 'w"
  parse_ip :: "string \<Rightarrow> 'ip option"
  CreateCertificateRequest :: "'ip csr_template \<Rightarrow> 'key \<Rightarrow> 'w \<Rightarrow> (string, byte list) result \<times> 'w"
  MarshalPKCS8 :: "'key \<Rightarrow> (string, byte list) result"
  pem_Encode :: "string \<Rightarrow> byte list \<Rightarrow> byte list"

datatype csr_err = CommonNameRequired | RsaKeygen string | CreateCSR string | MarshalKey string

definition keySizeBits :: nat where
  "keySizeBits = 2048"

definition parse_ips :: "(string \<Rightarrow> 'ip option) \<Rightarrow> string list \<Rightarrow> 'ip list" where
  "parse_ips parseIP ips =
     concat (map (\<lambda>raw. let raw = TrimSpace raw in
       if raw = [] then [] else case parseIP raw of None \<Rightarrow> [] | Some ip \<Rightarrow> [ip]) ips)"

definition GenerateKeyAndCSR :: "('key, 'ip, 'w) key_api \<Rightarrow> string \<Rightarrow> string list \<Rightarrow> string list \<Rightarrow> 'w
    \<Rightarrow> (csr_err, 'key \<times> byte list) result \<times> 'w" where
  "GenerateKeyAndCSR K commonName dnsNames ipAddresses w =
     (if commonName = [] then (Inl CommonNameRequired, w)
      else case rsa_GenerateKey K keySizeBits w of
        (Inl e, w1) \<Rightarrow> (Inl (RsaKeygen e), w1)
      | (Inr key, w1) \<Rightarrow>
          let tmpl = \<lparr>csr_CommonName = commonName, csr_Organization = [''tangra''], csr_DNSNames = dnsNames,
                      csr_IPAddresses = parse_ips (parse_ip K) ipAddresses\<rparr>
          in case CreateCertificateRequest K tmpl key w1 of
               (Inl e, w2) \<Rightarrow> (Inl (CreateCSR e), w2)
             | (Inr csrDER, w2) \<Rightarrow> (Inr (key, pem_Encode K ''CERTIFICATE REQUEST'' csrDER), w2))"

definition MarshalKeyPEM :: "('key, 'ip, 'w) key_api \<Rightarrow> 'key \<Rightarrow> (csr_err, byte list) result" where
  "MarshalKeyPEM K key = rbind (wrap_err MarshalKey (MarshalPKCS8 K key)) (\<lambda>der. Inr (pem_Encode K ''PRIVATE KEY'' der))"

section \<open>The certificate manager (\<^verbatim>\<open>manager.go\<close>)\<close>

record CertManager =
  cm_caCertPath :: string
  cm_serverCertPath :: string
  cm_serverKeyPath :: string

definition validateCertFiles :: "'w os_api \<Rightarrow> CertManager \<Rightarrow> 'w \<Rightarrow> string option" where
  "validateCertFiles F cm w =
     List.find (\<lambda>f. os_Stat_err F w f = Some NotExist) [cm_caCertPath cm, cm_serverCertPath cm, cm_serverKeyPath cm]"

definition or_default :: "string \<Rightarrow> string \<Rightarrow> string" where
  "or_default v d = (if v = [] then d else v)"

definition NewCertManager :: "environ \<Rightarrow> string \<Rightarrow> CertManager" where
  "NewCertManager env envPrefix =
     (let certsDir = or_default (env ''CERTS_DIR'') ''/app/certs''; moduleID = ToLower envPrefix
      in \<lparr>cm_caCertPath = or_default (env (envPrefix @ ''_CA_CERT_PATH'')) (certsDir @ ''/ca/ca.crt''),
          cm_serverCertPath = or_default (env (envPrefix @ ''_SERVER_CERT_PATH''))
            (certsDir @ ''/'' @ moduleID @ ''-server/server.crt''),
          cm_serverKeyPath = or_default (env (envPrefix @ ''_SERVER_KEY_PATH''))
            (certsDir @ ''/'' @ moduleID @ ''-server/server.key'')\<rparr>)"

record ('pool, 'pair) server_tls =
  st_Certificates :: "'pair list"
  st_ClientCAs :: 'pool
  st_RequireAndVerifyClientCert :: bool
  st_MinVersion :: nat

datatype server_tls_err = ReadCAErr os_err | ParseCAErr | LoadPairErr string

definition GetServerTLSConfig :: "'w os_api \<Rightarrow> (byte list \<Rightarrow> 'pool option) \<Rightarrow> ('w \<Rightarrow> string \<Rightarrow> string \<Rightarrow> (string, 'pair) result)
    \<Rightarrow> CertManager \<Rightarrow> 'w \<Rightarrow> (server_tls_err, ('pool, 'pair) server_tls) result" where
  "GetServerTLSConfig F appendCerts loadPair cm w =
     (case os_Read F w (cm_caCertPath cm) of
        Inl e \<Rightarrow> Inl (ReadCAErr e)
      | Inr caCert \<Rightarrow>
          (case appendCerts caCert of
             None \<Rightarrow> Inl ParseCAErr
           | Some caCertPool \<Rightarrow>
               (case loadPair w (cm_serverCertPath cm) (cm_serverKeyPath cm) of
                  Inl e \<Rightarrow> Inl (LoadPairErr e)
                | Inr serverCert \<Rightarrow>
                    Inr \<lparr>st_Certificates = [serverCert], st_ClientCAs = caCertPool,
                         st_RequireAndVerifyClientCert = True, st_MinVersion = 771\<rparr>)))"

definition IsTLSEnabled :: "'w os_api \<Rightarrow> CertManager \<Rightarrow> 'w \<Rightarrow> bool" where
  "IsTLSEnabled F cm w \<longleftrightarrow> validateCertFiles F cm w = None"

section \<open>Provisioning (\<^verbatim>\<open>ensure.go\<close>)\<close>

record EnsureConfig =
  ec_ModuleID :: string
  ec_LCMEndpoint :: string
  ec_Secret :: string
  ec_CertsDir :: string
  ec_PinnedCAFingerprint :: string
  ec_DNSNames :: "string list"
  ec_IPAddresses :: "string list"
  ec_RenewBefore :: int
  ec_Logger :: "unit option"

datatype config_err = ModuleIDRequired | LoggerRequired | LCMEndpointNotSet | SecretNotSet | FingerprintNotSet

definition renew_default :: int where
  "renew_default = 30 * 24 * 60 * 60 * 1000000000"

definition applyDefaults :: "environ \<Rightarrow> string list \<Rightarrow> EnsureConfig \<Rightarrow> (config_err, EnsureConfig) result" where
  "applyDefaults env localIPs cfg =
     (if ec_ModuleID cfg = [] then Inl ModuleIDRequired
      else if ec_Logger cfg = None then Inl LoggerRequired
      else let endpoint = or_default (ec_LCMEndpoint cfg) (env ''LCM_BOOTSTRAP_ENDPOINT'') in
      if endpoint = [] then Inl LCMEndpointNotSet
      else let secret = or_default (ec_Secret cfg) (env ''MODULE_BOOTSTRAP_SECRET'') in
      if secret = [] then Inl SecretNotSet
      else let dir = or_default (or_default (ec_CertsDir cfg) (env ''CERTS_DIR'')) ''/app/certs'';
               pin = or_default (ec_PinnedCAFingerprint cfg) (env ''LCM_CA_FINGERPRINT'') in
      if pin = [] then Inl FingerprintNotSet
      else Inr (cfg\<lparr>ec_LCMEndpoint := endpoint, ec_Secret := secret, ec_CertsDir := dir, ec_PinnedCAFingerprint := pin,
        ec_DNSNames := (if length (ec_DNSNames cfg) = 0 then [ec_ModuleID cfg @ ''-service''] else ec_DNSNames cfg),
        ec_IPAddresses := (if length (ec_IPAddresses cfg) = 0 then localIPs else ec_IPAddresses cfg),
        ec_RenewBefore := (if ec_RenewBefore cfg \<le> 0 then renew_default else ec_RenewBefore cfg)\<rparr>))"

text \<open>Network interfaces: \<open>FlagUp\<close> is bit 0 and \<open>FlagLoopback\<close> bit 2 of the flags.\<close>

datatype 'ip net_Addr = IPNet 'ip | IPAddr 'ip | OtherAddr

record 'ip net_Interface =
  if_Flags :: u32
  if_Addrs :: "'ip option net_Addr list option"

definition addr_ip :: "'ip option net_Addr \<Rightarrow> 'ip option" where
  "addr_ip a = (case a of IPNet ip \<Rightarrow> ip | IPAddr ip \<Rightarrow> ip | OtherAddr \<Rightarrow> None)"

definition detectLocalIPs :: "('ip \<Rightarrow> bool) \<Rightarrow> ('ip \<Rightarrow> bool) \<Rightarrow> ('ip \<Rightarrow> string) \<Rightarrow> 'ip net_Interface list option \<Rightarrow> string list" where
  "detectLocalIPs isLinkLocalUnicast isLinkLocalMulticast ipString ifaces =
     (case ifaces of
        None \<Rightarrow> []
      | Some is \<Rightarrow> concat (map (\<lambda>iface.
          if \<not> bit (if_Flags iface) 0 \<or> bit (if_Flags iface) 2 then []
          else case if_Addrs iface of
            None \<Rightarrow> []
          | Some addrs \<Rightarrow> concat (map (\<lambda>a. case addr_ip a of
              None \<Rightarrow> []
            | Some ip \<Rightarrow> if isLinkLocalUnicast ip \<or> isLinkLocalMulticast ip then [] else [ipString ip]) addrs)) is))"

datatype CertificateKind = CERTIFICATE_KIND_SERVER | CERTIFICATE_KIND_CLIENT

record sign_request =
  sr_ModuleId :: string
  sr_Secret :: string
  sr_CsrPem :: string
  sr_Kind :: CertificateKind

record sign_response =
  sp_CaFingerprintSha256 :: string
  sp_CaCertificatePem :: string
  sp_CertificatePem :: string

record boot_response =
  bp_CaCertificatePem :: string
  bp_ClientCertificatePem :: string
  bp_ClientKeyPem :: string
  bp_ServerCertificatePem :: string
  bp_ServerKeyPem :: string

text \<open>The certificate service.  \<open>lcm_Plain\<close> opens the connection that verifies no certificate.\<close>

record ('conn, 'w) lcm_api =
  lcm_NewClient :: "string \<Rightarrow> pinned_tls \<Rightarrow> unit list \<Rightarrow> (string, 'conn) result"
  lcm_Plain :: "string \<Rightarrow> (string, 'conn) result"
  SignModuleCertificate :: "'conn \<Rightarrow> sign_request \<Rightarrow> 'w \<Rightarrow> (string, sign_response) result \<times> 'w"
  lcm_Bootstrap :: "'conn \<Rightarrow> string \<Rightarrow> string \<Rightarrow> string list \<Rightarrow> string list \<Rightarrow> 'w \<Rightarrow> (string, boot_response) result \<times> 'w"
  lcm_Close :: "'conn \<Rightarrow> 'w \<Rightarrow> 'w"

datatype ensure_err = Config config_err | Dial dial_err | ServerCert ensure_err | ClientCert ensure_err
  | CSRFailed csr_err | SignFailed string | ResponseFingerprint string string | Mkdir string os_err | WriteErr string os_err
  | PostBootstrap string | BootConnect string | BootRPC string

definition filepath_Dir :: "string \<Rightarrow> string" where
  "filepath_Dir path = Clean (Join ''/'' (butlast (Split CHR ''/'' path) @ [[]]))"

definition writeFile :: "'w os_api \<Rightarrow> string \<Rightarrow> byte list \<Rightarrow> nat \<Rightarrow> 'w \<Rightarrow> ensure_err option \<times> 'w" where
  "writeFile F path data mode w =
     (case os_MkdirAll F (filepath_Dir path) 493 w of
        (Some e, w1) \<Rightarrow> (Some (Mkdir (filepath_Dir path) e), w1)
      | (None, w1) \<Rightarrow>
          (case os_WriteFile F path data mode w1 of
             (Some e, w2) \<Rightarrow> (Some (WriteErr path e), w2)
           | (None, w2) \<Rightarrow> (None, w2)))"

text \<open>File modes in decimal: \<open>0o755\<close> is 493, \<open>0o644\<close> is 420, \<open>0o600\<close> is 384.\<close>

fun write_files :: "'w os_api \<Rightarrow> (string \<times> byte list \<times> nat) list \<Rightarrow> 'w \<Rightarrow> ensure_err option \<times> 'w" where
  "write_files F [] w = (None, w)"
| "write_files F ((path, data, mode) # fs) w =
     (case writeFile F path data mode w of
        (Some e, w') \<Rightarrow> (Some e, w')
      | (None, w') \<Rightarrow> write_files F fs w')"

definition signAndPersist :: "'w os_api \<Rightarrow> ('key, 'ip, 'w) key_api \<Rightarrow> ('conn, 'w) lcm_api \<Rightarrow> 'conn \<Rightarrow> EnsureConfig
    \<Rightarrow> CertificateKind \<Rightarrow> string \<Rightarrow> string \<Rightarrow> 'w \<Rightarrow> ensure_err option \<times> 'w" where
  "signAndPersist F K L conn cfg kind subdir commonName w =
     (case GenerateKeyAndCSR K commonName (ec_DNSNames cfg) (ec_IPAddresses cfg) w of
        (Inl e, w1) \<Rightarrow> (Some (CSRFailed e), w1)
      | (Inr (key, csrPEM), w1) \<Rightarrow>
          (case SignModuleCertificate L conn \<lparr>sr_ModuleId = ec_ModuleID cfg, sr_Secret = ec_Secret cfg,
                  sr_CsrPem = string_of_bytes csrPEM, sr_Kind = kind\<rparr> w1 of
             (Inl e, w2) \<Rightarrow> (Some (SignFailed e), w2)
           | (Inr resp, w2) \<Rightarrow>
               if \<not> EqualFold (sp_CaFingerprintSha256 resp) (ec_PinnedCAFingerprint cfg) then
                 (Some (ResponseFingerprint (sp_CaFingerprintSha256 resp) (ec_PinnedCAFingerprint cfg)), w2)
               else (case MarshalKeyPEM K key of
                 Inl e \<Rightarrow> (Some (CSRFailed e), w2)
               | Inr keyPEM \<Rightarrow>
                   write_files F
                     [(filepath_Join [ec_CertsDir cfg, ''ca'', ''ca.crt''], bytes_of_string (sp_CaCertificatePem resp), 420),
                      (filepath_Join [ec_CertsDir cfg, subdir, subdir @ ''.crt''], bytes_of_string (sp_CertificatePem resp), 420),
                      (filepath_Join [ec_CertsDir cfg, subdir, subdir @ ''.key''], keyPEM, 384)] w2)))"

definition loadManager :: "'w os_api \<Rightarrow> EnsureConfig \<Rightarrow> 'w \<Rightarrow> (ensure_err, CertManager) result" where
  "loadManager F cfg w =
     (let cm = \<lparr>cm_caCertPath = filepath_Join [ec_CertsDir cfg, ''ca'', ''ca.crt''],
                cm_serverCertPath = filepath_Join [ec_CertsDir cfg, ''server'', ''server.crt''],
                cm_serverKeyPath = filepath_Join [ec_CertsDir cfg, ''server'', ''server.key'']\<rparr>
      in case validateCertFiles F cm w of Some f \<Rightarrow> Inl (PostBootstrap f) | None \<Rightarrow> Inr cm)"

definition issue_both :: "'w os_api \<Rightarrow> ('key, 'ip, 'w) key_api \<Rightarrow> ('conn, 'w) lcm_api \<Rightarrow> 'conn \<Rightarrow> EnsureConfig \<Rightarrow> 'w
    \<Rightarrow> (ensure_err, CertManager) result \<times> 'w" where
  "issue_both F K L conn cfg w =
     (case signAndPersist F K L conn cfg CERTIFICATE_KIND_SERVER ''server'' (ec_ModuleID cfg @ ''-service'') w of
        (Some e, w1) \<Rightarrow> (Inl (ServerCert e), w1)
      | (None, w1) \<Rightarrow>
          (case signAndPersist F K L conn cfg CERTIFICATE_KIND_CLIENT ''client'' (''lcm-'' @ ec_ModuleID cfg) w1 of
             (Some e, w2) \<Rightarrow> (Inl (ClientCert e), w2)
           | (None, w2) \<Rightarrow> (loadManager F cfg w2, w2)))"

definition Ensure :: "environ \<Rightarrow> string list \<Rightarrow> 'w os_api \<Rightarrow> 'c x509_api \<Rightarrow> ('key, 'ip, 'w) key_api \<Rightarrow> ('conn, 'w) lcm_api
    \<Rightarrow> int \<Rightarrow> EnsureConfig \<Rightarrow> 'w \<Rightarrow> (ensure_err, CertManager) result \<times> 'w" where
  "Ensure env localIPs F X K L now cfg0 w =
     (case applyDefaults env localIPs cfg0 of
        Inl e \<Rightarrow> (Inl (Config e), w)
      | Inr cfg \<Rightarrow>
          if ch_OK (CheckLocalCert F X now (ec_CertsDir cfg) (ec_PinnedCAFingerprint cfg) (ec_RenewBefore cfg) w)
          then (loadManager F cfg w, w)
          else (case PinnedDial X (lcm_NewClient L) (ec_LCMEndpoint cfg) (ec_PinnedCAFingerprint cfg) [] of
            Inl e \<Rightarrow> (Inl (Dial e), w)
          | Inr conn \<Rightarrow>
              (let (res, w') = issue_both F K L conn cfg w in (res, lcm_Close L conn w'))))"

section \<open>The older bootstrap call (\<^verbatim>\<open>bootstrap.go\<close>)\<close>

record BootstrapConfig =
  bc_ModuleID :: string
  bc_LCMEndpoint :: string
  bc_Secret :: string
  bc_CertOutputDir :: string
  bc_DNSNames :: "string list"
  bc_IPAddresses :: "string list"

fun put_files :: "'w os_api \<Rightarrow> string \<Rightarrow> (string \<times> string \<times> nat) list \<Rightarrow> 'w \<Rightarrow> ensure_err option \<times> 'w" where
  "put_files F dir [] w = (None, w)"
| "put_files F dir ((name, data, mode) # fs) w =
     (case os_WriteFile F (filepath_Join [dir, name]) (bytes_of_string data) mode w of
        (Some e, w') \<Rightarrow> (Some (WriteErr (filepath_Join [dir, name]) e), w')
      | (None, w') \<Rightarrow> put_files F dir fs w')"

fun put_dirs :: "'w os_api \<Rightarrow> (string \<times> (string \<times> string \<times> nat) list) list \<Rightarrow> 'w \<Rightarrow> ensure_err option \<times> 'w" where
  "put_dirs F [] w = (None, w)"
| "put_dirs F ((dir, files) # ds) w =
     (case os_MkdirAll F dir 493 w of
        (Some e, w1) \<Rightarrow> (Some (Mkdir dir e), w1)
      | (None, w1) \<Rightarrow>
          (case put_files F dir files w1 of
             (Some e, w2) \<Rightarrow> (Some e, w2)
           | (None, w2) \<Rightarrow> put_dirs F ds w2))"

definition BootstrapCertificates :: "'w os_api \<Rightarrow> ('conn, 'w) lcm_api \<Rightarrow> BootstrapConfig \<Rightarrow> 'w \<Rightarrow> ensure_err option \<times> 'w" where
  "BootstrapCertificates F L cfg w =
     (case lcm_Plain L (bc_LCMEndpoint cfg) of
        Inl e \<Rightarrow> (Some (BootConnect e), w)
      | Inr conn \<Rightarrow>
          (let (err, w') = (case lcm_Bootstrap L conn (bc_ModuleID cfg) (bc_Secret cfg) (bc_DNSNames cfg) (bc_IPAddresses cfg) w of
                 (Inl e, w1) \<Rightarrow> (Some (BootRPC e), w1)
               | (Inr resp, w1) \<Rightarrow>
                   put_dirs F
                     [(filepath_Join [bc_CertOutputDir cfg, ''ca''], [(''ca.crt'', bp_CaCertificatePem resp, 420)]),
                      (filepath_Join [bc_CertOutputDir cfg, ''client''],
                        [(''client.crt'', bp_ClientCertificatePem resp, 420), (''client.key'', bp_ClientKeyPem resp, 384)]),
                      (filepath_Join [bc_CertOutputDir cfg, ''server''],
                        [(''server.crt'', bp_ServerCertificatePem resp, 420), (''server.key'', bp_ServerKeyPem resp, 384)])] w1)
           in (err, lcm_Close L conn w')))"

section \<open>Lemmas\<close>

lemma writeFile_reads:
  assumes "os_laws F" and "writeFile F path data mode w = (None, w')"
  shows "os_Read F w' q = (if q = path then Inr data else os_Read F w q)"
proof -
  obtain e w1 where m: "os_MkdirAll F (filepath_Dir path) 493 w = (e, w1)" by (metis surj_pair)
  have e: "e = None" using assms(2) m by (cases e) (simp_all add: writeFile_def)
  obtain e2 w2 where f: "os_WriteFile F path data mode w1 = (e2, w2)" by (metis surj_pair)
  have "e2 = None" "w2 = w'" using assms(2) m e f by (cases e2; simp add: writeFile_def)+
  moreover have "os_Read F w1 q = os_Read F w q" using assms(1) m by (simp add: os_laws_def)
  ultimately show ?thesis using assms(1) f by (simp add: os_laws_def)
qed

lemma write_files_reads:
  assumes "os_laws F"
  shows "write_files F fs w = (None, w') \<Longrightarrow> distinct (map fst fs) \<Longrightarrow>
    (\<forall>p d m. (p, d, m) \<in> set fs \<longrightarrow> os_Read F w' p = Inr d) \<and> (\<forall>q. q \<notin> fst ` set fs \<longrightarrow> os_Read F w' q = os_Read F w q)"
proof (induction fs arbitrary: w)
  case Nil
  then show ?case by simp
next
  case (Cons f fs)
  obtain p d m where f: "f = (p, d, m)" by (cases f) auto
  obtain e w1 where wf: "writeFile F p d m w = (e, w1)" by (metis surj_pair)
  have e: "e = None" and rest: "write_files F fs w1 = (None, w')"
    using Cons.prems(1) f wf by (cases e; simp)+
  have r: "os_Read F w1 q = (if q = p then Inr d else os_Read F w q)" for q
    using writeFile_reads[OF assms wf[unfolded e]] .
  have d: "p \<notin> fst ` set fs" "distinct (map fst fs)" using Cons.prems(2) f by simp_all
  have ih: "\<forall>p d m. (p, d, m) \<in> set fs \<longrightarrow> os_Read F w' p = Inr d" "\<forall>q. q \<notin> fst ` set fs \<longrightarrow> os_Read F w' q = os_Read F w1 q"
    using Cons.IH[OF rest d(2)] by blast+
  have "os_Read F w' p = Inr d" using ih(2) d(1) r by simp
  moreover have "os_Read F w' q = os_Read F w q" if "q \<notin> fst ` set (f # fs)" for q
    using that ih(2) r f by simp
  ultimately show ?case using ih(1) f by auto
qed

text \<open>Generating keys, calling the service and closing the connection leave the files alone.\<close>

definition files_kept :: "'w os_api \<Rightarrow> ('key, 'ip, 'w) key_api \<Rightarrow> ('conn, 'w) lcm_api \<Rightarrow> bool" where
  "files_kept F K L \<longleftrightarrow>
     (\<forall>n w. os_Read F (snd (rsa_GenerateKey K n w)) = os_Read F w) \<and>
     (\<forall>t k w. os_Read F (snd (CreateCertificateRequest K t k w)) = os_Read F w) \<and>
     (\<forall>c r w. os_Read F (snd (SignModuleCertificate L c r w)) = os_Read F w) \<and>
     (\<forall>c w. os_Read F (lcm_Close L c w) = os_Read F w)"

lemma GenerateKeyAndCSR_reads:
  "files_kept F K L \<Longrightarrow> os_Read F (snd (GenerateKeyAndCSR K cn dns ips w)) = os_Read F w"
proof (cases "cn = []")
  case False
  assume kept: "files_kept F K L"
  obtain r w1 where r: "rsa_GenerateKey K keySizeBits w = (r, w1)" by (metis surj_pair)
  have w1: "os_Read F w1 = os_Read F w" using kept r unfolding files_kept_def by (metis snd_conv)
  have w2: "os_Read F (snd (CreateCertificateRequest K t k w1)) = os_Read F w" for t k
    using kept w1 unfolding files_kept_def by simp
  show ?thesis
  proof (cases r)
    case (Inr key)
    then show ?thesis using False w2[of "\<lparr>csr_CommonName = cn, csr_Organization = [''tangra''], csr_DNSNames = dns,
        csr_IPAddresses = parse_ips (parse_ip K) ips\<rparr>" key]
      by (auto simp: GenerateKeyAndCSR_def r Let_def split: prod.split sum.split)
  qed (use False w1 in \<open>simp add: GenerateKeyAndCSR_def r\<close>)
qed (simp add: GenerateKeyAndCSR_def)

definition cert_path :: "EnsureConfig \<Rightarrow> string \<Rightarrow> string \<Rightarrow> string" where
  "cert_path cfg sub n = filepath_Join [ec_CertsDir cfg, sub, n]"

text \<open>
  What one signing cycle from the world \<open>w\<close> issues: the key is the one generated for the name
  \<open>cn\<close>, the service was sent the request made with that key, and \<open>resp\<close> is its answer.
\<close>

definition issued :: "('conn, 'w) lcm_api \<Rightarrow> ('key, 'ip, 'w) key_api \<Rightarrow> 'conn \<Rightarrow> EnsureConfig \<Rightarrow> CertificateKind
    \<Rightarrow> string \<Rightarrow> 'w \<Rightarrow> sign_response \<Rightarrow> byte list \<Rightarrow> bool" where
  "issued L K conn cfg kind cn w resp keyPEM \<longleftrightarrow>
     (\<exists>key csr w1 w2.
        GenerateKeyAndCSR K cn (ec_DNSNames cfg) (ec_IPAddresses cfg) w = (Inr (key, csr), w1) \<and>
        SignModuleCertificate L conn \<lparr>sr_ModuleId = ec_ModuleID cfg, sr_Secret = ec_Secret cfg,
          sr_CsrPem = string_of_bytes csr, sr_Kind = kind\<rparr> w1 = (Inr resp, w2) \<and>
        EqualFold (sp_CaFingerprintSha256 resp) (ec_PinnedCAFingerprint cfg) \<and>
        MarshalKeyPEM K key = Inr keyPEM)"

lemma signAndPersist_ok:
  assumes "os_laws F" and "files_kept F K L"
    and "signAndPersist F K L conn cfg kind sub cn w = (None, w')"
    and names: "plain_name sub" "plain_name (sub @ ''.crt'')" "plain_name (sub @ ''.key'')"
      "sub @ ''.crt'' \<noteq> ''ca.crt''" "sub @ ''.key'' \<noteq> ''ca.crt''"
  obtains resp keyPEM where "issued L K conn cfg kind cn w resp keyPEM"
    and "os_Read F w' (cert_path cfg ''ca'' ''ca.crt'') = Inr (bytes_of_string (sp_CaCertificatePem resp))"
    and "os_Read F w' (cert_path cfg sub (sub @ ''.crt'')) = Inr (bytes_of_string (sp_CertificatePem resp))"
    and "os_Read F w' (cert_path cfg sub (sub @ ''.key'')) = Inr keyPEM"
    and "\<And>q. q \<noteq> cert_path cfg ''ca'' ''ca.crt'' \<Longrightarrow> q \<noteq> cert_path cfg sub (sub @ ''.crt'') \<Longrightarrow>
      q \<noteq> cert_path cfg sub (sub @ ''.key'') \<Longrightarrow> os_Read F w' q = os_Read F w q"
proof -
  obtain g w1 where g: "GenerateKeyAndCSR K cn (ec_DNSNames cfg) (ec_IPAddresses cfg) w = (g, w1)" by (metis surj_pair)
  obtain key csr where g': "g = Inr (key, csr)" using assms(3) g by (cases g) (auto simp: signAndPersist_def)
  let ?req = "\<lparr>sr_ModuleId = ec_ModuleID cfg, sr_Secret = ec_Secret cfg, sr_CsrPem = string_of_bytes csr, sr_Kind = kind\<rparr>"
  obtain r w2 where r: "SignModuleCertificate L conn ?req w1 = (r, w2)" by (metis surj_pair)
  obtain resp where r': "r = Inr resp" using assms(3) g g' r by (cases r) (simp_all add: signAndPersist_def)
  have fp: "EqualFold (sp_CaFingerprintSha256 resp) (ec_PinnedCAFingerprint cfg)"
    using assms(3) g g' r r' by (simp add: signAndPersist_def split: if_splits)
  obtain keyPEM where k: "MarshalKeyPEM K key = Inr keyPEM"
    using assms(3) g g' r r' fp by (cases "MarshalKeyPEM K key") (simp_all add: signAndPersist_def)
  let ?fs = "[(cert_path cfg ''ca'' ''ca.crt'', bytes_of_string (sp_CaCertificatePem resp), 420),
              (cert_path cfg sub (sub @ ''.crt''), bytes_of_string (sp_CertificatePem resp), 420),
              (cert_path cfg sub (sub @ ''.key''), keyPEM, 384 :: nat)]"
  have wf: "write_files F ?fs w2 = (None, w')"
    using assms(3) unfolding signAndPersist_def g g' cert_path_def by (simp add: r r' fp k)
  have ca: "plain_name ''ca''" "plain_name ''ca.crt''" by (simp_all add: plain_name_def)
  have "distinct (map fst ?fs)"
    using filepath_Join_neq[OF ca(2,1) names(2,1)] filepath_Join_neq[OF ca(2,1) names(3,1)]
      filepath_Join_neq[OF names(2,1,3,1)] names(4,5) by (auto simp: cert_path_def)
  note reads = write_files_reads[OF assms(1) wf this]
  have "os_Read F w2 = os_Read F w"
    using GenerateKeyAndCSR_reads[OF assms(2), of cn "ec_DNSNames cfg" "ec_IPAddresses cfg" w] g assms(2) r
    unfolding files_kept_def by (metis snd_conv)
  moreover have "issued L K conn cfg kind cn w resp keyPEM"
    unfolding issued_def using g g' r r' fp k by (intro exI[of _ key] exI[of _ csr] exI[of _ w1] exI[of _ w2]) simp
  ultimately show ?thesis using that[of resp keyPEM] reads by auto
qed

lemma Ensure_reissues:
  assumes "os_laws F" and "files_kept F K L" and "applyDefaults env ips cfg0 = Inr cfg"
    and "\<not> ch_OK (CheckLocalCert F X now (ec_CertsDir cfg) (ec_PinnedCAFingerprint cfg) (ec_RenewBefore cfg) w)"
    and "Ensure env ips F X K L now cfg0 w = (Inr cm, w')"
  shows "\<exists>conn sresp skey w1 cresp ckey.
    PinnedDial X (lcm_NewClient L) (ec_LCMEndpoint cfg) (ec_PinnedCAFingerprint cfg) [] = Inr conn \<and>
    issued L K conn cfg CERTIFICATE_KIND_SERVER (ec_ModuleID cfg @ ''-service'') w sresp skey \<and>
    signAndPersist F K L conn cfg CERTIFICATE_KIND_SERVER ''server'' (ec_ModuleID cfg @ ''-service'') w = (None, w1) \<and>
    issued L K conn cfg CERTIFICATE_KIND_CLIENT (''lcm-'' @ ec_ModuleID cfg) w1 cresp ckey \<and>
    os_Read F w' (cm_serverCertPath cm) = Inr (bytes_of_string (sp_CertificatePem sresp)) \<and>
    os_Read F w' (cm_serverKeyPath cm) = Inr skey \<and>
    os_Read F w' (cert_path cfg ''client'' ''client.crt'') = Inr (bytes_of_string (sp_CertificatePem cresp)) \<and>
    os_Read F w' (cert_path cfg ''client'' ''client.key'') = Inr ckey \<and>
    os_Read F w' (cm_caCertPath cm) = Inr (bytes_of_string (sp_CaCertificatePem cresp))"
proof -
  obtain conn where c: "PinnedDial X (lcm_NewClient L) (ec_LCMEndpoint cfg) (ec_PinnedCAFingerprint cfg) [] = Inr conn"
    using assms(3-5) by (cases "PinnedDial X (lcm_NewClient L) (ec_LCMEndpoint cfg) (ec_PinnedCAFingerprint cfg) []")
      (simp_all add: Ensure_def)
  obtain w2 where i: "issue_both F K L conn cfg w = (Inr cm, w2)" and w': "w' = lcm_Close L conn w2"
    using assms(3-5) c by (auto simp: Ensure_def split: prod.splits)
  obtain e1 w1 where s1: "signAndPersist F K L conn cfg CERTIFICATE_KIND_SERVER ''server'' (ec_ModuleID cfg @ ''-service'') w = (e1, w1)"
    by (metis surj_pair)
  have e1: "e1 = None" using i s1 by (cases e1) (simp_all add: issue_both_def)
  obtain e2 w3 where s2: "signAndPersist F K L conn cfg CERTIFICATE_KIND_CLIENT ''client'' (''lcm-'' @ ec_ModuleID cfg) w1 = (e2, w3)"
    by (metis surj_pair)
  have e2: "e2 = None" using i s1 e1 s2 by (cases e2) (simp_all add: issue_both_def)
  have l: "loadManager F cfg w3 = Inr cm" "w3 = w2" using i s1 e1 s2 e2 by (auto simp: issue_both_def)
  have cm: "cm_caCertPath cm = cert_path cfg ''ca'' ''ca.crt''" "cm_serverCertPath cm = cert_path cfg ''server'' ''server.crt''"
    "cm_serverKeyPath cm = cert_path cfg ''server'' ''server.key''"
    using l(1) by (auto simp: loadManager_def cert_path_def Let_def split: option.splits)
  have names: "plain_name ''ca''" "plain_name ''ca.crt''" "plain_name ''server''" "plain_name ''server.crt''" "plain_name ''server.key''"
    "plain_name ''client''" "plain_name ''client.crt''" "plain_name ''client.key''" by (simp_all add: plain_name_def)
  obtain sresp skey where s: "issued L K conn cfg CERTIFICATE_KIND_SERVER (ec_ModuleID cfg @ ''-service'') w sresp skey"
    "os_Read F w1 (cert_path cfg ''server'' ''server.crt'') = Inr (bytes_of_string (sp_CertificatePem sresp))"
    "os_Read F w1 (cert_path cfg ''server'' ''server.key'') = Inr skey"
    using names by (auto intro: signAndPersist_ok[OF assms(1,2) s1[unfolded e1]])
  obtain cresp ckey where k: "issued L K conn cfg CERTIFICATE_KIND_CLIENT (''lcm-'' @ ec_ModuleID cfg) w1 cresp ckey"
    "os_Read F w3 (cert_path cfg ''ca'' ''ca.crt'') = Inr (bytes_of_string (sp_CaCertificatePem cresp))"
    "os_Read F w3 (cert_path cfg ''client'' ''client.crt'') = Inr (bytes_of_string (sp_CertificatePem cresp))"
    "os_Read F w3 (cert_path cfg ''client'' ''client.key'') = Inr ckey"
    and keep: "\<And>q. q \<noteq> cert_path cfg ''ca'' ''ca.crt'' \<Longrightarrow> q \<noteq> cert_path cfg ''client'' ''client.crt'' \<Longrightarrow>
      q \<noteq> cert_path cfg ''client'' ''client.key'' \<Longrightarrow> os_Read F w3 q = os_Read F w1 q"
    using names by (auto intro: signAndPersist_ok[OF assms(1,2) s2[unfolded e2]])
  have "os_Read F w3 (cert_path cfg ''server'' n) = os_Read F w1 (cert_path cfg ''server'' n)" if "n \<in> {''server.crt'', ''server.key''}" for n
    using that names filepath_Join_neq[of n "''server''"] by (intro keep) (auto simp: cert_path_def)
  moreover have "os_Read F w' = os_Read F w3" using assms(2) w' l(2) by (simp add: files_kept_def)
  ultimately show ?thesis using c s s1[unfolded e1] k cm by (intro exI conjI) auto
qed

lemma or_default_ne: "d \<noteq> [] \<Longrightarrow> or_default v d \<noteq> []"
  by (simp add: or_default_def)

lemma applyDefaults_dir:
  assumes "applyDefaults env ips cfg0 = Inr cfg"
  shows "ec_CertsDir cfg \<noteq> []"
proof -
  have "case_sum (\<lambda>_. True) (\<lambda>c. ec_CertsDir c \<noteq> []) (applyDefaults env ips cfg0)"
    unfolding applyDefaults_def Let_def if_distrib[of "case_sum (\<lambda>_. True) (\<lambda>c. ec_CertsDir c \<noteq> [])"]
    by (simp add: or_default_ne)
  then show ?thesis unfolding assms by simp
qed

lemma loadManager_path: "loadManager F cfg w = Inr cm \<Longrightarrow> cm_caCertPath cm = cert_path cfg ''ca'' ''ca.crt''"
  by (auto simp: loadManager_def cert_path_def Let_def split: option.splits)

lemma issue_both_manager: "fst (issue_both F K L conn cfg w) = Inr cm \<Longrightarrow> \<exists>v. loadManager F cfg v = Inr cm"
  by (auto simp: issue_both_def split: prod.splits option.splits)

lemma Ensure_manager:
  assumes "Ensure env ips F X K L now cfg0 w = (Inr cm, w')" and d: "applyDefaults env ips cfg0 = Inr cfg"
  shows "cm_caCertPath cm = cert_path cfg ''ca'' ''ca.crt''"
proof (cases "ch_OK (CheckLocalCert F X now (ec_CertsDir cfg) (ec_PinnedCAFingerprint cfg) (ec_RenewBefore cfg) w)")
  case True
  then have "loadManager F cfg w = Inr cm" using assms by (auto simp: Ensure_def)
  then show ?thesis by (rule loadManager_path)
next
  case False
  then obtain conn v where "issue_both F K L conn cfg w = (Inr cm, v)"
    using assms by (cases "PinnedDial X (lcm_NewClient L) (ec_LCMEndpoint cfg) (ec_PinnedCAFingerprint cfg) []")
      (auto simp: Ensure_def split: prod.splits)
  then have "fst (issue_both F K L conn cfg w) = Inr cm" by simp
  from issue_both_manager[OF this] show ?thesis using loadManager_path by metis
qed

section \<open>Properties\<close>

text \<open>
  \<open>healthy_cert_iff\<close>: the certificates on disk are used as they are exactly when the three files
  exist, both certificates parse, the CA has the pinned fingerprint (in either case of the
  hexadecimal digits), the server certificate verifies under it, and it is valid now and for longer
  than the renewal window.
\<close>

theorem healthy_cert_iff:
  "ch_OK (CheckLocalCert F X now dir pin renew w) \<longleftrightarrow>
     os_Stat_err F w (dir @ ''/ca/ca.crt'') = None \<and> os_Stat_err F w (dir @ ''/server/server.crt'') = None \<and>
     os_Stat_err F w (dir @ ''/server/server.key'') = None \<and>
     (\<exists>cab srvb ca srv. os_Read F w (dir @ ''/ca/ca.crt'') = Inr cab \<and> parseCert X cab = Inr ca \<and>
        os_Read F w (dir @ ''/server/server.crt'') = Inr srvb \<and> parseCert X srvb = Inr srv \<and>
        (pin = [] \<or> EqualFold (FingerprintSHA256 X ca) pin) \<and> x_Verify X ca srv now = None \<and>
        x_NotBefore X srv \<le> now \<and> now + renew < x_NotAfter X srv)"
proof -
  have stat: "os_Stat_err F w a = None \<and> os_Stat_err F w b = None \<and> os_Stat_err F w c = None \<and> R \<longleftrightarrow>
      List.find (\<lambda>p. os_Stat_err F w p \<noteq> None) [a, b, c] = None \<and> R" for a b c R by (auto simp: find_None_iff)
  show ?thesis unfolding CheckLocalCert_def Let_def stat
    by (auto simp: unhealthy_def simp del: List.find.simps split: option.split sum.split)
qed

text \<open>
  C33 (\<open>ensure_installs_issued\<close>): when the certificates on disk will not do and \<open>Ensure\<close> succeeds, the
  directory holds a server and a client certificate that the service issued to this module, for the
  names \<open>module-service\<close> and \<open>lcm-module\<close>, each with the private key that was generated for it and
  made its signing request, and the CA the service sent with the second one; both answers
  named the pinned fingerprint.
\<close>

theorem ensure_installs_issued:
  assumes "os_laws F" and "files_kept F K L" and "applyDefaults env ips cfg0 = Inr cfg"
    and "\<not> ch_OK (CheckLocalCert F X now (ec_CertsDir cfg) (ec_PinnedCAFingerprint cfg) (ec_RenewBefore cfg) w)"
    and "Ensure env ips F X K L now cfg0 w = (Inr cm, w')"
  shows "\<exists>conn sresp skey w1 cresp ckey.
    PinnedDial X (lcm_NewClient L) (ec_LCMEndpoint cfg) (ec_PinnedCAFingerprint cfg) [] = Inr conn \<and>
    issued L K conn cfg CERTIFICATE_KIND_SERVER (ec_ModuleID cfg @ ''-service'') w sresp skey \<and>
    signAndPersist F K L conn cfg CERTIFICATE_KIND_SERVER ''server'' (ec_ModuleID cfg @ ''-service'') w = (None, w1) \<and>
    issued L K conn cfg CERTIFICATE_KIND_CLIENT (''lcm-'' @ ec_ModuleID cfg) w1 cresp ckey \<and>
    os_Read F w' (cm_serverCertPath cm) = Inr (bytes_of_string (sp_CertificatePem sresp)) \<and>
    os_Read F w' (cm_serverKeyPath cm) = Inr skey \<and>
    os_Read F w' (cert_path cfg ''client'' ''client.crt'') = Inr (bytes_of_string (sp_CertificatePem cresp)) \<and>
    os_Read F w' (cert_path cfg ''client'' ''client.key'') = Inr ckey \<and>
    os_Read F w' (cm_caCertPath cm) = Inr (bytes_of_string (sp_CaCertificatePem cresp))"
  using assms by (rule Ensure_reissues)

text \<open>
  C34 (\<open>pin_accepts_any_leaf\<close>): the pinned connection accepts exactly the chains that contain a
  certificate with the pinned fingerprint.  Nothing ties the server's own certificate to it: with
  the public CA certificate anywhere behind it, any leaf is accepted.
\<close>

theorem pin_accepts_any_leaf:
  assumes "PinnedDial X newClient addr pin extra = Inr conn" and "x_Parse X caDER = Inr ca"
    and "FingerprintSHA256 X ca = ToLower (TrimSpace pin)"
  shows "\<exists>tls. newClient addr tls extra = Inr conn \<and>
    (\<forall>leaf. pt_VerifyPeerCertificate tls (leaf # between @ [caDER]) = None) \<and>
    (\<forall>chain. pt_VerifyPeerCertificate tls chain = None \<longleftrightarrow>
      (\<exists>der \<in> set chain. \<exists>c. x_Parse X der = Inr c \<and> FingerprintSHA256 X c = ToLower (TrimSpace pin)))"
proof -
  let ?tls = "\<lparr>pt_InsecureSkipVerify = True, pt_MinVersion = 771,
    pt_VerifyPeerCertificate = verify_pinned X (ToLower (TrimSpace pin))\<rparr>"
  have "newClient addr ?tls extra = Inr conn" using assms(1) by (simp add: PinnedDial_def Let_def split: if_splits)
  moreover have "verify_pinned X fp chain = None \<longleftrightarrow> (\<exists>der \<in> set chain. \<exists>c. x_Parse X der = Inr c \<and> FingerprintSHA256 X c = fp)"
    for fp chain by (auto simp: verify_pinned_def list_ex_iff case_ok_iff)
  ultimately show ?thesis using assms(2,3) by (intro exI[of _ ?tls]) auto
qed

lemma CheckLocalCert_reads:
  assumes "ch_OK (CheckLocalCert F X now dir pin renew w)"
    and "os_Stat_err F w' (dir @ ''/ca/ca.crt'') = None" "os_Stat_err F w' (dir @ ''/server/server.crt'') = None"
      "os_Stat_err F w' (dir @ ''/server/server.key'') = None"
    and "os_Read F w' (dir @ ''/ca/ca.crt'') = os_Read F w (dir @ ''/ca/ca.crt'')"
      "os_Read F w' (dir @ ''/server/server.crt'') = os_Read F w (dir @ ''/server/server.crt'')"
  shows "CheckLocalCert F X now dir pin renew w' = CheckLocalCert F X now dir pin renew w"
proof -
  have "List.find (\<lambda>p. os_Stat_err F w p \<noteq> None) [dir @ ''/ca/ca.crt'', dir @ ''/server/server.crt'', dir @ ''/server/server.key''] = None"
    (is "?missing = None")
  proof (rule ccontr)
    assume "?missing \<noteq> None"
    then obtain p where "?missing = Some p" by blast
    then show False using assms(1) unfolding CheckLocalCert_def Let_def by (simp add: unhealthy_def del: find.simps)
  qed
  moreover have "List.find (\<lambda>p. os_Stat_err F w' p \<noteq> None) [dir @ ''/ca/ca.crt'', dir @ ''/server/server.crt'', dir @ ''/server/server.key''] = None"
    using assms(2-4) by simp
  ultimately show ?thesis unfolding CheckLocalCert_def Let_def assms(5,6) by (simp del: find.simps)
qed

text \<open>
  \<open>provisioning_not_repaired\<close>: what an interrupted provisioning leaves behind stays.  The check that \<open>Ensure\<close> runs
  first reads the CA and the server certificate only: on any disk that holds those two, and some file for
  the server key, \<open>Ensure\<close> issues nothing and changes nothing, whatever the key file contains and whether
  or not there is a client certificate.
\<close>

theorem provisioning_not_repaired:
  assumes "applyDefaults env ips cfg0 = Inr cfg"
    and "ch_OK (CheckLocalCert F X now (ec_CertsDir cfg) (ec_PinnedCAFingerprint cfg) (ec_RenewBefore cfg) w)"
    and "os_Stat_err F w' (ec_CertsDir cfg @ ''/ca/ca.crt'') = None" "os_Stat_err F w' (ec_CertsDir cfg @ ''/server/server.crt'') = None"
      "os_Stat_err F w' (ec_CertsDir cfg @ ''/server/server.key'') = None"
    and "os_Read F w' (ec_CertsDir cfg @ ''/ca/ca.crt'') = os_Read F w (ec_CertsDir cfg @ ''/ca/ca.crt'')"
      "os_Read F w' (ec_CertsDir cfg @ ''/server/server.crt'') = os_Read F w (ec_CertsDir cfg @ ''/server/server.crt'')"
  shows "Ensure env ips F X K L now cfg0 w' = (loadManager F cfg w', w')"
  using CheckLocalCert_reads[OF assms(2-7)] assms(1,2) by (simp add: Ensure_def)

section \<open>Examples\<close>

text \<open>
  A file system that is a map from paths to contents, certificates that are their own encoding and
  fingerprint, and a service that signs everything.
\<close>

definition demo_os :: "(string \<Rightarrow> byte list option) os_api" where
  "demo_os = \<lparr>os_Stat_err = (\<lambda>w p. if w p = None then Some NotExist else None),
     os_Read = (\<lambda>w p. case w p of None \<Rightarrow> Inl NotExist | Some d \<Rightarrow> Inr d),
     os_MkdirAll = (\<lambda>_ _ w. (None, w)), os_WriteFile = (\<lambda>p d _ w. (None, w(p := Some d)))\<rparr>"

definition demo_x509 :: "byte list x509_api" where
  "demo_x509 = \<lparr>pem_Decode = (\<lambda>b. Some (''CERTIFICATE'', b)), x_Parse = Inr, x_Raw = (\<lambda>c. c), x_NotBefore = (\<lambda>_. 0),
     x_NotAfter = (\<lambda>_. 100), x_Verify = (\<lambda>_ _ _. None), sha256_Sum = (\<lambda>b. b)\<rparr>"

text \<open>
  The key generated depends on the disk: \<open>1\<close> as long as there is no server key, \<open>2\<close> afterwards.
  A signing request is the key followed by the common name.
\<close>

definition demo_next :: "(string \<Rightarrow> byte list option) \<Rightarrow> char" where
  "demo_next w = (if w (filepath_Join [''/c'', ''server'', ''server.key'']) = None then CHR ''1'' else CHR ''2'')"

definition demo_keys :: "(char, unit, string \<Rightarrow> byte list option) key_api" where
  "demo_keys = \<lparr>rsa_GenerateKey = (\<lambda>_ w. (Inr (demo_next w), w)), parse_ip = (\<lambda>_. None),
     CreateCertificateRequest = (\<lambda>t k w. (Inr (bytes_of_string (k # csr_CommonName t)), w)),
     MarshalPKCS8 = (\<lambda>k. Inr (bytes_of_string [k])), pem_Encode = (\<lambda>_ b. b)\<rparr>"

definition demo_lcm :: "(unit, string \<Rightarrow> byte list option) lcm_api" where
  "demo_lcm = \<lparr>lcm_NewClient = (\<lambda>_ _ _. Inr ()), lcm_Plain = (\<lambda>_. Inr ()),
     SignModuleCertificate = (\<lambda>_ r w. (Inr \<lparr>sp_CaFingerprintSha256 = ''ab'', sp_CaCertificatePem = ''ca'', sp_CertificatePem = sr_CsrPem r\<rparr>, w)),
     lcm_Bootstrap = (\<lambda>_ _ _ _ _ w. (Inl ''off'', w)), lcm_Close = (\<lambda>_ w. w)\<rparr>"

definition demo_config :: EnsureConfig where
  "demo_config = \<lparr>ec_ModuleID = ''sms'', ec_LCMEndpoint = ''lcm:1'', ec_Secret = ''s'', ec_CertsDir = ''/c'',
     ec_PinnedCAFingerprint = ''AB'', ec_DNSNames = [''d''], ec_IPAddresses = [''i''], ec_RenewBefore = 10, ec_Logger = Some ()\<rparr>"

lemma demo_os_laws: "os_laws demo_os" "files_kept demo_os demo_keys demo_lcm"
  by (simp_all add: os_laws_def files_kept_def demo_os_def demo_keys_def demo_lcm_def)

lemma demo_defaults: "applyDefaults env ips demo_config = Inr demo_config"
  by (simp add: applyDefaults_def demo_config_def or_default_def Let_def)

lemma demo_unhealthy: "\<not> ch_OK (CheckLocalCert demo_os demo_x509 now dir pin renew (\<lambda>_. None))"
  by (simp add: CheckLocalCert_def demo_os_def unhealthy_def)

lemma demo_ensure: "\<exists>cm w'. Ensure (\<lambda>_. []) [] demo_os demo_x509 demo_keys demo_lcm 5 demo_config (\<lambda>_. None) = (Inr cm, w') \<and>
    os_Read demo_os w' (cert_path demo_config ''x'' ''x.crt'') = Inl NotExist"
proof -
  have x: "filepath_Join [''/c'', ''x'', ''x.crt''] \<noteq> filepath_Join [''/c'', m, n]" if "plain_name n" "plain_name m" "n \<noteq> ''x.crt''" for m n
    using filepath_Join_neq[OF _ _ that(1,2), of "''x.crt''" "''x''"] that(3) by (simp add: plain_name_def)
  have fp: "EqualFold ''ab'' ''AB''" by code_simp
  have cn: "ec_ModuleID demo_config @ ''-service'' \<noteq> []" "''lcm-'' @ ec_ModuleID demo_config \<noteq> []" by simp_all
  have w: "writeFile demo_os path d m w = (None, w(path := Some d))" for path d m w by (simp add: writeFile_def demo_os_def)
  have sp: "signAndPersist demo_os demo_keys demo_lcm () demo_config kind sub cn w =
      (None, w(filepath_Join [''/c'', ''ca'', ''ca.crt''] := Some (bytes_of_string ''ca''),
               filepath_Join [''/c'', sub, sub @ ''.crt''] := Some (bytes_of_string (demo_next w # cn)),
               filepath_Join [''/c'', sub, sub @ ''.key''] := Some (bytes_of_string [demo_next w])))" if "cn \<noteq> []" for kind sub cn w
    using that by (simp add: signAndPersist_def GenerateKeyAndCSR_def demo_keys_def demo_lcm_def demo_config_def fp MarshalKeyPEM_def w Let_def)
  have d: "PinnedDial demo_x509 (lcm_NewClient demo_lcm) (ec_LCMEndpoint demo_config) (ec_PinnedCAFingerprint demo_config) [] = Inr ()"
    by (simp add: PinnedDial_def demo_config_def demo_lcm_def Let_def)
  have dir: "ec_CertsDir demo_config = ''/c''" by (simp add: demo_config_def)
  have st: "os_Stat_err demo_os w q \<noteq> Some NotExist" if "w q \<noteq> None" for w q using that by (simp add: demo_os_def)
  obtain w2 where i: "issue_both demo_os demo_keys demo_lcm () demo_config (\<lambda>_. None) = (loadManager demo_os demo_config w2, w2)"
    and s: "w2 (filepath_Join [''/c'', ''ca'', ''ca.crt'']) \<noteq> None" "w2 (filepath_Join [''/c'', ''server'', ''server.crt'']) \<noteq> None"
      "w2 (filepath_Join [''/c'', ''server'', ''server.key'']) \<noteq> None" "w2 (filepath_Join [''/c'', ''x'', ''x.crt'']) = None"
    unfolding issue_both_def sp[OF cn(1)] sp[OF cn(2)] prod.case option.case by (simp add: x plain_name_def)
  have "\<exists>cm. loadManager demo_os demo_config w2 = Inr cm"
    using s by (simp add: loadManager_def validateCertFiles_def dir st Let_def)
  then obtain cm where "loadManager demo_os demo_config w2 = Inr cm" by blast
  then have "Ensure (\<lambda>_. []) [] demo_os demo_x509 demo_keys demo_lcm 5 demo_config (\<lambda>_. None) = (Inr cm, lcm_Close demo_lcm () w2)"
    by (simp add: Ensure_def demo_defaults demo_unhealthy d i)
  moreover have "lcm_Close demo_lcm () w2 = w2" by (simp add: demo_lcm_def)
  moreover have "os_Read demo_os w2 (cert_path demo_config ''x'' ''x.crt'') = Inl NotExist"
    using s(4) by (simp add: cert_path_def dir demo_os_def)
  ultimately show ?thesis by auto
qed

theorem ensure_installs_issued_witness:
  "\<exists>w' w1 sresp skey cresp ckey.
     issued demo_lcm demo_keys () demo_config CERTIFICATE_KIND_SERVER ''sms-service'' (\<lambda>_. None) sresp skey \<and>
     issued demo_lcm demo_keys () demo_config CERTIFICATE_KIND_CLIENT ''lcm-sms'' w1 cresp ckey \<and>
     os_Read demo_os w' (cert_path demo_config ''client'' ''client.key'') = Inr ckey \<and>
     os_Read demo_os w' (cert_path demo_config ''client'' ''client.crt'') = Inr (bytes_of_string (sp_CertificatePem cresp))"
proof -
  obtain cm w' where e: "Ensure (\<lambda>_. []) [] demo_os demo_x509 demo_keys demo_lcm 5 demo_config (\<lambda>_. None) = (Inr cm, w')"
    using demo_ensure by blast
  have m: "ec_ModuleID demo_config @ ''-service'' = ''sms-service''" "''lcm-'' @ ec_ModuleID demo_config = ''lcm-sms''"
    by (simp_all add: demo_config_def)
  obtain conn :: unit and sresp skey w1 cresp ckey where
      "issued demo_lcm demo_keys conn demo_config CERTIFICATE_KIND_SERVER ''sms-service'' (\<lambda>_. None) sresp skey"
      "issued demo_lcm demo_keys conn demo_config CERTIFICATE_KIND_CLIENT ''lcm-sms'' w1 cresp ckey"
      "os_Read demo_os w' (cert_path demo_config ''client'' ''client.key'') = Inr ckey"
      "os_Read demo_os w' (cert_path demo_config ''client'' ''client.crt'') = Inr (bytes_of_string (sp_CertificatePem cresp))"
    using ensure_installs_issued[OF demo_os_laws demo_defaults demo_unhealthy e] unfolding m by blast
  then show ?thesis by (cases conn) blast
qed

text \<open>A disk with the two certificates, a key file with rubbish in it and no client certificate.\<close>

definition broken_disk :: "string \<Rightarrow> byte list option" where
  "broken_disk = [''/c/ca/ca.crt'' \<mapsto> [0xab], ''/c/server/server.crt'' \<mapsto> [1], ''/c/server/server.key'' \<mapsto> [0]]"

theorem provisioning_not_repaired_witness:
  "Ensure (\<lambda>_. []) [] demo_os demo_x509 demo_keys demo_lcm 5 demo_config broken_disk = (loadManager demo_os demo_config broken_disk, broken_disk) \<and>
   broken_disk ''/c/client/client.crt'' = None"
proof -
  let ?good = "broken_disk(''/c/server/server.key'' \<mapsto> [7], ''/c/client/client.crt'' \<mapsto> [8])"
  have dir: "ec_CertsDir demo_config = ''/c''" "ec_PinnedCAFingerprint demo_config = ''AB''" "ec_RenewBefore demo_config = 10"
    by (simp_all add: demo_config_def)
  have fp: "EqualFold (FingerprintSHA256 demo_x509 [0xab]) ''AB''" unfolding FingerprintSHA256_def demo_x509_def by code_simp
  have p: "parseCert demo_x509 b = Inr b" "x_NotBefore demo_x509 c = 0" "x_NotAfter demo_x509 c = 100" "x_Verify demo_x509 c d t = None" for b c d t
    by (simp_all add: parseCert_def demo_x509_def)
  have ok: "ch_OK (CheckLocalCert demo_os demo_x509 5 ''/c'' ''AB'' 10 ?good)"
    unfolding CheckLocalCert_def Let_def by (simp add: demo_os_def broken_disk_def p fp)
  show ?thesis
    by (intro conjI provisioning_not_repaired[of _ _ _ _ _ _ _ ?good, OF demo_defaults])
      (simp_all add: dir ok, simp_all add: demo_os_def broken_disk_def)
qed

theorem pin_accepts_any_leaf_witness:
  "\<exists>tls. lcm_NewClient demo_lcm ''lcm:1'' tls [] = Inr () \<and>
    (\<forall>leaf. pt_VerifyPeerCertificate tls (leaf # [] @ [[0xab]]) = None)"
proof -
  have d: "PinnedDial demo_x509 (lcm_NewClient demo_lcm) ''lcm:1'' '' AB'' [] = Inr ()"
    by (simp add: PinnedDial_def demo_lcm_def Let_def)
  have "x_Parse demo_x509 [0xab] = Inr [0xab]" by (simp add: demo_x509_def)
  moreover have "FingerprintSHA256 demo_x509 [0xab] = ToLower (TrimSpace '' AB'')" unfolding FingerprintSHA256_def demo_x509_def by code_simp
  ultimately show ?thesis using pin_accepts_any_leaf[OF d, of "[0xab]" "[0xab]" "[]"] by blast
qed

end
