(* ===== verification/ModuleDialer.thy ===== *)
theory ModuleDialer
  imports Cert Transcoder
begin

text \<open>
  Calls between modules, after \<^verbatim>\<open>grpcx/module_dialer.go\<close>: resolve a module through the admin service,
  load client credentials from either of two directory layouts, and open a connection, with retries.

  The admin service, the key pair loader and \<open>grpc.NewClient\<close> are parameters; files are read through
  the \<open>os_api\<close> of theory \<open>Cert\<close>.  The connection parameters that \<open>NewClient\<close> gets besides the credentials
  are constants and left out.
\<close>

section \<open>Definitions\<close>

record ('conn, 'pool, 'pair, 'w) dial_api =
  ResolveModule :: "string \<Rightarrow> 'w \<Rightarrow> (string, string \<times> string) result \<times> 'w"
  grpc_NewClient :: "string \<Rightarrow> ('pool, 'pair) transport_creds \<Rightarrow> (string, 'conn) result"
  append_pem :: "byte list \<Rightarrow> 'pool option"
  load_pair :: "'w \<Rightarrow> string \<Rightarrow> string \<Rightarrow> (string, 'pair) result"
  wait_retry :: "int \<Rightarrow> 'w \<Rightarrow> bool \<times> 'w"

text \<open>
  \<open>ResolveModule\<close> answers with the endpoint and the server name; \<open>wait_retry d\<close> is the \<open>select\<close> between the
  caller's context and a timer of \<open>d\<close>: true when the context ended first.
\<close>

record ModuleDialer =
  md_callerModuleID :: string
  md_certsDir :: string

definition NewModuleDialer :: "string \<Rightarrow> string \<Rightarrow> ModuleDialer" where
  "NewModuleDialer callerModuleID certsDir =
     \<lparr>md_callerModuleID = callerModuleID, md_certsDir = or_default certsDir ''/app/certs''\<rparr>"

datatype client_tls_err = ReadCACert string os_err | ParseCACert string | LoadClientCert string string string string

definition loadClientTLS :: "'w os_api \<Rightarrow> ('conn, 'pool, 'pair, 'w) dial_api \<Rightarrow> ModuleDialer \<Rightarrow> string \<Rightarrow> 'w
    \<Rightarrow> (client_tls_err, ('pool, 'pair) tls_Config) result" where
  "loadClientTLS F D d serverName w =
     (let caCertPath = filepath_Join [md_certsDir d, ''ca'', ''ca.crt'']
      in case os_Read F w caCertPath of
        Inl e \<Rightarrow> Inl (ReadCACert caCertPath e)
      | Inr caCert \<Rightarrow>
      (case append_pem D caCert of
        None \<Rightarrow> Inl (ParseCACert caCertPath)
      | Some caCertPool \<Rightarrow>
      (let moduleCertPath = filepath_Join [md_certsDir d, md_callerModuleID d, md_callerModuleID d @ ''.crt''];
           moduleKeyPath = filepath_Join [md_certsDir d, md_callerModuleID d, md_callerModuleID d @ ''.key''];
           genericCertPath = filepath_Join [md_certsDir d, ''client'', ''client.crt''];
           genericKeyPath = filepath_Join [md_certsDir d, ''client'', ''client.key''];
           pair = (case load_pair D w moduleCertPath moduleKeyPath of
                     Inr c \<Rightarrow> Inr c
                   | Inl e \<Rightarrow> wrap_err (\<lambda>fe. LoadClientCert moduleCertPath e genericCertPath fe) (load_pair D w genericCertPath genericKeyPath))
       in rbind pair (\<lambda>clientCert.
            Inr \<lparr>tl_Certificates = [clientCert], tl_RootCAs = caCertPool, tl_ServerName = serverName, tl_MinVersion = VersionTLS12\<rparr>))))"

datatype dial_failure = ResolveFailed string string | DialAt string string string

definition dialWithMTLS :: "'w os_api \<Rightarrow> ('conn, 'pool, 'pair, 'w) dial_api \<Rightarrow> ModuleDialer \<Rightarrow> string \<Rightarrow> string \<Rightarrow> 'w
    \<Rightarrow> (string, 'conn) result" where
  "dialWithMTLS F D d endpoint serverName w =
     grpc_NewClient D endpoint
       (case loadClientTLS F D d serverName w of Inl _ \<Rightarrow> InsecureCreds | Inr creds \<Rightarrow> TLSCreds creds)"

definition dial_once :: "'w os_api \<Rightarrow> ('conn, 'pool, 'pair, 'w) dial_api \<Rightarrow> ModuleDialer \<Rightarrow> string \<Rightarrow> 'w
    \<Rightarrow> (dial_failure, 'conn) result \<times> 'w" where
  "dial_once F D d target w =
     (case ResolveModule D target w of
        (Inl e, w') \<Rightarrow> (Inl (ResolveFailed target e), w')
      | (Inr (endpoint, serverName), w') \<Rightarrow>
          (wrap_err (DialAt target endpoint) (dialWithMTLS F D d endpoint serverName w'), w'))"

datatype dial_module_err = CtxEnded | FailedAfter string int "dial_failure option"

text \<open>\<open>n\<close> attempts are left; every attempt but the first waits.\<close>

fun dial_loop :: "'w os_api \<Rightarrow> ('conn, 'pool, 'pair, 'w) dial_api \<Rightarrow> ModuleDialer \<Rightarrow> string \<Rightarrow> int \<Rightarrow> int
    \<Rightarrow> nat \<Rightarrow> bool \<Rightarrow> dial_failure option \<Rightarrow> 'w \<Rightarrow> (dial_module_err, 'conn) result \<times> 'w" where
  "dial_loop F D d target maxRetries retryInterval 0 first lastErr w = (Inl (FailedAfter target (maxRetries + 1) lastErr), w)"
| "dial_loop F D d target maxRetries retryInterval (Suc n) first lastErr w =
     (let (ended, w1) = (if first then (False, w) else wait_retry D retryInterval w)
      in if ended then (Inl CtxEnded, w1)
         else case dial_once F D d target w1 of
           (Inr conn, w2) \<Rightarrow> (Inr conn, w2)
         | (Inl e, w2) \<Rightarrow> dial_loop F D d target maxRetries retryInterval n False (Some e) w2)"

definition DialModule :: "'w os_api \<Rightarrow> ('conn, 'pool, 'pair, 'w) dial_api \<Rightarrow> ModuleDialer \<Rightarrow> string \<Rightarrow> int \<Rightarrow> int \<Rightarrow> 'w
    \<Rightarrow> (dial_module_err, 'conn) result \<times> 'w" where
  "DialModule F D d target maxRetries retryInterval w =
     dial_loop F D d target maxRetries retryInterval (nat (maxRetries + 1)) True None w"

section \<open>Lemmas\<close>

text \<open>The state of the world at the start of the \<open>k\<close>-th attempt, counted from 0, when none of the earlier ones returned.\<close>

fun attempt_world :: "'w os_api \<Rightarrow> ('conn, 'pool, 'pair, 'w) dial_api \<Rightarrow> ModuleDialer \<Rightarrow> string \<Rightarrow> int \<Rightarrow> 'w \<Rightarrow> nat \<Rightarrow> 'w" where
  "attempt_world F D d target iv w 0 = w"
| "attempt_world F D d target iv w (Suc k) =
     snd (wait_retry D iv (snd (dial_once F D d target (attempt_world F D d target iv w k))))"

definition attempt :: "'w os_api \<Rightarrow> ('conn, 'pool, 'pair, 'w) dial_api \<Rightarrow> ModuleDialer \<Rightarrow> string \<Rightarrow> int \<Rightarrow> 'w \<Rightarrow> nat
    \<Rightarrow> (dial_failure, 'conn) result \<times> 'w" where
  "attempt F D d target iv w k = dial_once F D d target (attempt_world F D d target iv w k)"

text \<open>Whether the caller's context ended while waiting for attempt \<open>k\<close>.\<close>

definition ended_before :: "'w os_api \<Rightarrow> ('conn, 'pool, 'pair, 'w) dial_api \<Rightarrow> ModuleDialer \<Rightarrow> string \<Rightarrow> int \<Rightarrow> 'w \<Rightarrow> nat \<Rightarrow> bool" where
  "ended_before F D d target iv w k \<longleftrightarrow> k > 0 \<and> fst (wait_retry D iv (snd (attempt F D d target iv w (k - 1))))"

text \<open>The attempts before the \<open>k\<close>-th all failed and the context was still alive for each.\<close>

definition reaches_attempt :: "'w os_api \<Rightarrow> ('conn, 'pool, 'pair, 'w) dial_api \<Rightarrow> ModuleDialer \<Rightarrow> string \<Rightarrow> int \<Rightarrow> 'w \<Rightarrow> nat \<Rightarrow> bool" where
  "reaches_attempt F D d target iv w k \<longleftrightarrow>
     (\<forall>j<k. \<not> is_ok (fst (attempt F D d target iv w j)) \<and> \<not> ended_before F D d target iv w j)"

definition last_error :: "'w os_api \<Rightarrow> ('conn, 'pool, 'pair, 'w) dial_api \<Rightarrow> ModuleDialer \<Rightarrow> string \<Rightarrow> int \<Rightarrow> 'w \<Rightarrow> nat \<Rightarrow> dial_failure option" where
  "last_error F D d target iv w k =
     (if k = 0 then None else case fst (attempt F D d target iv w (k - 1)) of Inl e \<Rightarrow> Some e | Inr _ \<Rightarrow> None)"

text \<open>Where the loop stands after \<open>k\<close> attempts.\<close>

definition loop_at :: "'w os_api \<Rightarrow> ('conn, 'pool, 'pair, 'w) dial_api \<Rightarrow> ModuleDialer \<Rightarrow> string \<Rightarrow> int \<Rightarrow> int \<Rightarrow> nat \<Rightarrow> 'w \<Rightarrow> nat
    \<Rightarrow> (dial_module_err, 'conn) result \<times> 'w" where
  "loop_at F D d target mr iv n w k =
     dial_loop F D d target mr iv n (k = 0) (last_error F D d target iv w k)
       (if k = 0 then w else snd (attempt F D d target iv w (k - 1)))"

lemma loop_at_ended:
  "ended_before F D d target iv w k \<Longrightarrow> \<exists>w'. loop_at F D d target mr iv (Suc n) w k = (Inl CtxEnded, w')"
  by (auto simp: loop_at_def ended_before_def Let_def split: prod.split)

lemma loop_at_step:
  assumes "\<not> ended_before F D d target iv w k"
  shows "loop_at F D d target mr iv (Suc n) w k =
    (case attempt F D d target iv w k of
       (Inr conn, w') \<Rightarrow> (Inr conn, w')
     | (Inl e, w') \<Rightarrow> loop_at F D d target mr iv n w (Suc k))"
proof -
  let ?w = "if k = 0 then w else snd (attempt F D d target iv w (k - 1))"
  obtain res w' where a: "attempt F D d target iv w k = (res, w')" by (metis surj_pair)
  have o: "dial_once F D d target (attempt_world F D d target iv w k) = (res, w')" using a by (simp add: attempt_def)
  have pre: "(if k = 0 then (False, ?w) else wait_retry D iv ?w) = (False, attempt_world F D d target iv w k)"
    using assms by (cases k) (auto simp: ended_before_def attempt_def prod_eq_iff)
  show ?thesis unfolding loop_at_def dial_loop.simps(2) pre Let_def prod.case if_False o a
    by (cases res) (simp_all add: last_error_def a)
qed

lemma loop_skips:
  "reaches_attempt F D d target iv w k \<Longrightarrow> loop_at F D d target mr iv (k + n) w 0 = loop_at F D d target mr iv n w k"
proof (induction k arbitrary: n)
  case (Suc k)
  then have r: "reaches_attempt F D d target iv w k" and e: "\<not> ended_before F D d target iv w k"
    and f: "\<not> is_ok (fst (attempt F D d target iv w k))" by (auto simp: reaches_attempt_def)
  have "loop_at F D d target mr iv (Suc n) w k = loop_at F D d target mr iv n w (Suc k)"
    unfolding loop_at_step[OF e] using f
    by (cases "attempt F D d target iv w k"; cases "fst (attempt F D d target iv w k)") simp_all
  then show ?case using Suc.IH[OF r, of "Suc n"] by simp
qed simp

lemma DialModule_loop: "DialModule F D d target mr iv w = loop_at F D d target mr iv (nat (mr + 1)) w 0"
  by (simp add: DialModule_def loop_at_def last_error_def)

lemma loadClientTLS_ok:
  "loadClientTLS F D d sn w = Inr cfg \<longleftrightarrow>
    (\<exists>ca pool pair. os_Read F w (filepath_Join [md_certsDir d, ''ca'', ''ca.crt'']) = Inr ca \<and> append_pem D ca = Some pool \<and>
      (let m = md_callerModuleID d; own = load_pair D w (filepath_Join [md_certsDir d, m, m @ ''.crt'']) (filepath_Join [md_certsDir d, m, m @ ''.key''])
       in own = Inr pair \<or> \<not> is_ok own \<and>
          load_pair D w (filepath_Join [md_certsDir d, ''client'', ''client.crt'']) (filepath_Join [md_certsDir d, ''client'', ''client.key'']) = Inr pair) \<and>
      cfg = \<lparr>tl_Certificates = [pair], tl_RootCAs = pool, tl_ServerName = sn, tl_MinVersion = VersionTLS12\<rparr>)"
  by (cases "os_Read F w (filepath_Join [md_certsDir d, ''ca'', ''ca.crt''])")
    (auto simp: loadClientTLS_def Let_def rbind_Inr_iff split: option.split sum.split)

section \<open>Properties\<close>

text \<open>
  C38 (\<open>dial_module_outcome\<close>): \<open>DialModule\<close> returns the connection of the first attempt that succeeds, as
  long as the caller's context lives and the attempt is one of the \<open>maxRetries + 1\<close> it makes; it stops
  with the context's error where the context ends first; and if every attempt fails it gives up after
  exactly \<open>maxRetries + 1\<close> of them with the error of the last.
\<close>

theorem dial_module_outcome:
  assumes "reaches_attempt F D d target iv w k" and "int k \<le> maxRetries + 1" and "- 1 \<le> maxRetries"
  shows "(int k = maxRetries + 1 \<longrightarrow> fst (DialModule F D d target maxRetries iv w) =
            Inl (FailedAfter target (maxRetries + 1) (last_error F D d target iv w k))) \<and>
    (int k \<le> maxRetries \<and> ended_before F D d target iv w k \<longrightarrow>
       fst (DialModule F D d target maxRetries iv w) = Inl CtxEnded) \<and>
    (int k \<le> maxRetries \<and> \<not> ended_before F D d target iv w k \<longrightarrow>
       (\<forall>conn w'. attempt F D d target iv w k = (Inr conn, w') \<longrightarrow>
          DialModule F D d target maxRetries iv w = (Inr conn, w')))"
proof -
  obtain n where n: "nat (maxRetries + 1) = k + n" using assms(2) nat_le_iff le_Suc_ex by (metis nat_int nat_mono)
  have l: "DialModule F D d target maxRetries iv w = loop_at F D d target maxRetries iv n w k"
    using loop_skips[OF assms(1), of maxRetries n] by (simp add: DialModule_loop n)
  have z: "int k = maxRetries + 1 \<longleftrightarrow> n = 0" and s: "int k \<le> maxRetries \<longleftrightarrow> n \<noteq> 0"
    using n assms(2,3) by auto
  show ?thesis
  proof (intro conjI impI allI)
    assume "int k = maxRetries + 1"
    then show "fst (DialModule F D d target maxRetries iv w) = Inl (FailedAfter target (maxRetries + 1) (last_error F D d target iv w k))"
      unfolding l using z by (simp add: loop_at_def)
  next
    assume "int k \<le> maxRetries \<and> ended_before F D d target iv w k"
    then show "fst (DialModule F D d target maxRetries iv w) = Inl CtxEnded"
      unfolding l using s loop_at_ended by (metis fst_conv not0_implies_Suc)
  next
    fix conn w' assume "int k \<le> maxRetries \<and> \<not> ended_before F D d target iv w k" "attempt F D d target iv w k = (Inr conn, w')"
    then show "DialModule F D d target maxRetries iv w = (Inr conn, w')"
      unfolding l using s by (cases n) (simp_all add: loop_at_step)
  qed
qed

text \<open>
  \<open>dial_credentials\<close>: the credentials a connection is opened with.  They are mutual TLS exactly
  when the CA file is readable and parses and a key pair loads, the module's own before the
  generic one; in every other case the connection is opened without any.
\<close>

theorem dial_credentials:
  "(\<exists>cfg. loadClientTLS F D d sn w = Inr cfg \<and> dialWithMTLS F D d ep sn w = grpc_NewClient D ep (TLSCreds cfg) \<and>
      tl_ServerName cfg = sn \<and>
      (\<exists>ca. os_Read F w (filepath_Join [md_certsDir d, ''ca'', ''ca.crt'']) = Inr ca \<and> append_pem D ca = Some (tl_RootCAs cfg))) \<or>
   (\<exists>e. loadClientTLS F D d sn w = Inl e \<and> dialWithMTLS F D d ep sn w = grpc_NewClient D ep InsecureCreds)"
proof (cases "loadClientTLS F D d sn w")
  case (Inr cfg)
  then show ?thesis using loadClientTLS_ok[of F D d sn w cfg] by (auto simp: dialWithMTLS_def)
qed (simp add: dialWithMTLS_def)

section \<open>Examples\<close>

text \<open>An admin service that knows the module from the second question on; the world counts the questions.\<close>

definition demo_dial :: "(string, unit, unit, nat) dial_api" where
  "demo_dial = \<lparr>ResolveModule = (\<lambda>m w. (if w = 0 then Inl ''unknown'' else Inr (m @ '':1'', m), Suc w)),
     grpc_NewClient = (\<lambda>ep _. Inr ep), append_pem = (\<lambda>_. None), load_pair = (\<lambda>_ _ _. Inl ''none''), wait_retry = (\<lambda>_ w. (False, w))\<rparr>"

definition no_files :: "nat os_api" where
  "no_files = \<lparr>os_Stat_err = (\<lambda>_ _. Some NotExist), os_Read = (\<lambda>_ _. Inl NotExist), os_MkdirAll = (\<lambda>_ _ w. (Some NotExist, w)),
     os_WriteFile = (\<lambda>_ _ _ w. (Some NotExist, w))\<rparr>"

theorem dial_module_outcome_witness:
  "DialModule no_files demo_dial (NewModuleDialer ''a'' []) ''b'' 2 5 0 = (Inr ''b:1'', 2)"
proof -
  let ?d = "NewModuleDialer ''a'' []"
  have o: "dial_once no_files demo_dial ?d ''b'' w = (if w = 0 then Inl (ResolveFailed ''b'' ''unknown'') else Inr ''b:1'', Suc w)" for w
    by (simp add: dial_once_def demo_dial_def dialWithMTLS_def loadClientTLS_def no_files_def Let_def)
  have wt: "wait_retry demo_dial iv w = (False, w)" for iv w by (simp add: demo_dial_def)
  have a: "attempt no_files demo_dial ?d ''b'' 5 0 0 = (Inl (ResolveFailed ''b'' ''unknown''), 1)"
    "attempt no_files demo_dial ?d ''b'' 5 0 1 = (Inr ''b:1'', 2)"
    by (simp_all add: attempt_def o wt numeral_2_eq_2)
  have e: "\<not> ended_before no_files demo_dial ?d ''b'' 5 0 k" for k by (simp add: ended_before_def wt)
  have "reaches_attempt no_files demo_dial ?d ''b'' 5 0 1" by (simp add: reaches_attempt_def a e)
  then show ?thesis using dial_module_outcome[of no_files demo_dial ?d "''b''" 5 0 1 2] a(2) e[of 1] by simp
qed

end
