(* ===== verification/Registration.thy ===== *)
theory Registration
  imports ModuleDialer
begin

text \<open>
  Registration of a module with the admin gateway, after \<^verbatim>\<open>registration/client.go\<close> and
  \<^verbatim>\<open>registration/lifecycle.go\<close>: the client with its bounded retries, heartbeat and shutdown, the choice of
  credentials, and the lifecycle in which a background goroutine registers while the main one may
  already be stopping.

  The admin gateway is a parameter.  A Go channel that is only ever closed is a flag; closing it
  twice panics.  The lifecycle is a step relation over the two goroutines.
\<close>

section \<open>The client\<close>

record reg_Config =
  rc_ModuleID :: string
  rc_ModuleName :: string
  rc_Version :: string
  rc_Description :: string
  rc_GRPCEndpoint :: string
  rc_FrontendEntryUrl :: string
  rc_HttpEndpoint :: string
  rc_ServerName :: string
  rc_AdminEndpoint :: string
  rc_OpenapiSpec :: "byte list"
  rc_ProtoDescriptor :: "byte list"
  rc_MenusYaml :: "byte list"
  rc_AuthToken :: string
  rc_HeartbeatInterval :: int
  rc_RetryInterval :: int
  rc_MaxRetries :: int

record 'conn reg_Client =
  cl_config :: reg_Config
  cl_conn :: "'conn option"
  cl_registrationID :: string
  cl_stopClosed :: bool

record register_request =
  rr_ModuleId :: string
  rr_ModuleName :: string
  rr_Version :: string
  rr_Description :: string
  rr_GrpcEndpoint :: string
  rr_FrontendEntryUrl :: string
  rr_HttpEndpoint :: string
  rr_ServerName :: string
  rr_OpenapiSpec :: "byte list"
  rr_ProtoDescriptor :: "byte list"
  rr_MenusYaml :: "byte list"
  rr_AuthToken :: string

text \<open>
  The calls of the registration service: registering answers with the registration id, a heartbeat with
  whether it was acknowledged.
\<close>

record ('conn, 'w) reg_api =
  rg_Register :: "'conn option \<Rightarrow> register_request \<Rightarrow> 'w \<Rightarrow> (string, string) result \<times> 'w"
  rg_Heartbeat :: "'conn option \<Rightarrow> string \<Rightarrow> string \<Rightarrow> 'w \<Rightarrow> (string, bool) result \<times> 'w"
  rg_Unregister :: "'conn option \<Rightarrow> string \<Rightarrow> string \<Rightarrow> 'w \<Rightarrow> (string, unit) result \<times> 'w"
  rg_CloseConn :: "'conn \<Rightarrow> 'w \<Rightarrow> string option \<times> 'w"
  rg_Sleep :: "int \<Rightarrow> 'w \<Rightarrow> 'w"

definition register_req :: "reg_Config \<Rightarrow> register_request" where
  "register_req c = \<lparr>rr_ModuleId = rc_ModuleID c, rr_ModuleName = rc_ModuleName c, rr_Version = rc_Version c,
     rr_Description = rc_Description c, rr_GrpcEndpoint = rc_GRPCEndpoint c, rr_FrontendEntryUrl = rc_FrontendEntryUrl c,
     rr_HttpEndpoint = rc_HttpEndpoint c, rr_ServerName = rc_ServerName c, rr_OpenapiSpec = rc_OpenapiSpec c,
     rr_ProtoDescriptor = rc_ProtoDescriptor c, rr_MenusYaml = rc_MenusYaml c, rr_AuthToken = rc_AuthToken c\<rparr>"

definition Register :: "('conn, 'w) reg_api \<Rightarrow> 'conn reg_Client \<Rightarrow> 'w \<Rightarrow> string option \<times> 'conn reg_Client \<times> 'w" where
  "Register R c w =
     (case retry (nat (rc_MaxRetries (cl_config c))) (rg_Register R (cl_conn c) (register_req (cl_config c)))
             (rg_Sleep R (rc_RetryInterval (cl_config c))) None w of
        (Inr regID, w') \<Rightarrow> (None, c\<lparr>cl_registrationID := regID\<rparr>, w')
      | (Inl lastErr, w') \<Rightarrow> (lastErr, c, w'))"

definition sendHeartbeat :: "('conn, 'w) reg_api \<Rightarrow> 'conn reg_Client \<Rightarrow> 'w \<Rightarrow> string option \<times> 'w" where
  "sendHeartbeat R c w =
     (case rg_Heartbeat R (cl_conn c) (rc_ModuleID (cl_config c)) (rc_ModuleName (cl_config c) @ '' service is healthy'') w of
        (Inl e, w') \<Rightarrow> (Some e, w')
      | (Inr _, w') \<Rightarrow> (None, w'))"

text \<open>
  The heartbeat loop over the sequence of its \<open>select\<close> choices: the value is \<open>None\<close> where the sequence ends
  with the loop still running.  A ticker of no positive period panics.
\<close>

datatype hb_choice = CtxDone | StopChan | TickerC
datatype 'a run = Panics | Returns 'a

fun heartbeat_loop :: "('conn, 'w) reg_api \<Rightarrow> 'conn reg_Client \<Rightarrow> hb_choice list \<Rightarrow> 'w \<Rightarrow> unit option \<times> 'w" where
  "heartbeat_loop R c [] w = (None, w)"
| "heartbeat_loop R c (CtxDone # es) w = (Some (), w)"
| "heartbeat_loop R c (StopChan # es) w = (Some (), w)"
| "heartbeat_loop R c (TickerC # es) w = heartbeat_loop R c es (snd (sendHeartbeat R c w))"

definition StartHeartbeat :: "('conn, 'w) reg_api \<Rightarrow> 'conn reg_Client \<Rightarrow> hb_choice list \<Rightarrow> 'w \<Rightarrow> (unit option \<times> 'w) run" where
  "StartHeartbeat R c es w =
     (if rc_HeartbeatInterval (cl_config c) \<le> 0 then Panics else Returns (heartbeat_loop R c es w))"

definition Unregister :: "('conn, 'w) reg_api \<Rightarrow> 'conn reg_Client \<Rightarrow> 'w \<Rightarrow> (string option \<times> 'conn reg_Client \<times> 'w) run" where
  "Unregister R c w =
     (if cl_stopClosed c then Panics
      else Returns (case rg_Unregister R (cl_conn c) (rc_ModuleID (cl_config c)) (rc_AuthToken (cl_config c)) w of
        (Inl e, w') \<Rightarrow> (Some e, c\<lparr>cl_stopClosed := True\<rparr>, w')
      | (Inr _, w') \<Rightarrow> (None, c\<lparr>cl_stopClosed := True\<rparr>, w')))"

definition AdminConn :: "'conn reg_Client \<Rightarrow> 'conn option" where
  "AdminConn c = cl_conn c"

definition second :: int where
  "second = 1000000000"

definition SetConfig :: "reg_Config \<Rightarrow> 'conn reg_Client \<Rightarrow> 'conn reg_Client" where
  "SetConfig cfg c = c\<lparr>cl_config := cfg\<lparr>rc_AdminEndpoint := rc_AdminEndpoint (cl_config c),
     rc_HeartbeatInterval := (if rc_HeartbeatInterval cfg = 0 then 30 * second else rc_HeartbeatInterval cfg),
     rc_RetryInterval := (if rc_RetryInterval cfg = 0 then 5 * second else rc_RetryInterval cfg),
     rc_MaxRetries := (if rc_MaxRetries cfg = 0 then 60 else rc_MaxRetries cfg)\<rparr>\<rparr>"

definition reg_Close :: "('conn, 'w) reg_api \<Rightarrow> 'conn reg_Client \<Rightarrow> 'w \<Rightarrow> string option \<times> 'w" where
  "reg_Close R c w = (case cl_conn c of None \<Rightarrow> (None, w) | Some conn \<Rightarrow> rg_CloseConn R conn w)"

section \<open>Credentials\<close>

record dir_entry =
  de_Name :: string
  de_IsDir :: bool

definition client_dir :: "'w os_api \<Rightarrow> string \<Rightarrow> 'w \<Rightarrow> dir_entry \<Rightarrow> bool" where
  "client_dir F certsDir w e \<longleftrightarrow>
     de_IsDir e \<and> de_Name e \<noteq> ''ca'' \<and> \<not> (length (de_Name e) > 7 \<and> drop (length (de_Name e) - 7) (de_Name e) = ''-server'') \<and>
     os_Stat_err F w (filepath_Join [certsDir, de_Name e, de_Name e @ ''.crt'']) = None \<and>
     os_Stat_err F w (filepath_Join [certsDir, de_Name e, de_Name e @ ''.key'']) = None"

definition loadAdminClientTLS :: "environ \<Rightarrow> 'w os_api \<Rightarrow> ('w \<Rightarrow> string \<Rightarrow> dir_entry list option) \<Rightarrow> (byte list \<Rightarrow> 'pool option)
    \<Rightarrow> ('w \<Rightarrow> string \<Rightarrow> string \<Rightarrow> (string, 'pair) result) \<Rightarrow> 'w \<Rightarrow> ('pool, 'pair) tls_Config option" where
  "loadAdminClientTLS env F readDir appendPem loadPair w =
     (if env ''REGISTRATION_INSECURE'' = ''1'' then None
      else let certsDir = or_default (env ''CERTS_DIR'') ''/app/certs''; caCertPath = filepath_Join [certsDir, ''ca'', ''ca.crt'']
      in case readDir w certsDir of
        None \<Rightarrow> None
      | Some entries \<Rightarrow>
      (case List.find (client_dir F certsDir w) entries of
        None \<Rightarrow> None
      | Some e \<Rightarrow>
      (case os_Read F w caCertPath of
        Inl _ \<Rightarrow> None
      | Inr caCert \<Rightarrow>
      (case appendPem caCert of
        None \<Rightarrow> None
      | Some caCertPool \<Rightarrow>
      (case loadPair w (filepath_Join [certsDir, de_Name e, de_Name e @ ''.crt'']) (filepath_Join [certsDir, de_Name e, de_Name e @ ''.key'']) of
        Inl _ \<Rightarrow> None
      | Inr clientCert \<Rightarrow>
          Some \<lparr>tl_Certificates = [clientCert], tl_RootCAs = caCertPool, tl_ServerName = ''admin-service'', tl_MinVersion = VersionTLS12\<rparr>)))))"

definition reg_createConnection :: "(string \<Rightarrow> ('pool, 'pair) transport_creds \<Rightarrow> (string, 'conn) result) \<Rightarrow> ('pool, 'pair) tls_Config option
    \<Rightarrow> string \<Rightarrow> (string, 'conn) result" where
  "reg_createConnection newClient tls endpoint =
     newClient endpoint (case tls of Some cfg \<Rightarrow> TLSCreds cfg | None \<Rightarrow> InsecureCreds)"

definition NewClient :: "(string \<Rightarrow> ('pool, 'pair) transport_creds \<Rightarrow> (string, 'conn) result) \<Rightarrow> ('pool, 'pair) tls_Config option
    \<Rightarrow> reg_Config \<Rightarrow> (string, 'conn reg_Client) result" where
  "NewClient newClient tls config =
     rbind (reg_createConnection newClient tls (rc_AdminEndpoint config)) (\<lambda>conn.
       Inr \<lparr>cl_config = config, cl_conn = Some conn, cl_registrationID = [], cl_stopClosed = False\<rparr>)"

section \<open>Environment helpers\<close>

definition GetEnvOrDefault :: "environ \<Rightarrow> string \<Rightarrow> string \<Rightarrow> string" where
  "GetEnvOrDefault env key defaultValue = (if env key \<noteq> [] then env key else defaultValue)"

text \<open>\<open>bootAddr\<close> is the configured server address, absent where the configuration has no such section.\<close>

definition GetGRPCAdvertiseAddr :: "environ \<Rightarrow> string option \<Rightarrow> string \<Rightarrow> string" where
  "GetGRPCAdvertiseAddr env bootAddr defaultAddr =
     (let grpcAddr = GetEnvOrDefault env ''GRPC_ADVERTISE_ADDR'' [] in
      if grpcAddr \<noteq> [] then grpcAddr
      else case bootAddr of Some addr \<Rightarrow> if addr \<noteq> [] then addr else defaultAddr | None \<Rightarrow> defaultAddr)"

section \<open>The lifecycle\<close>

text \<open>\<open>Stop\<close> on a helper whose client, if any, is \<open>h\<close>.\<close>

definition Stop :: "('conn, 'w) reg_api \<Rightarrow> 'conn reg_Client option \<Rightarrow> 'w \<Rightarrow> ('conn reg_Client option \<times> 'w) run" where
  "Stop R h w =
     (case h of
        None \<Rightarrow> Returns (None, w)
      | Some c \<Rightarrow>
          (case Unregister R c w of
             Panics \<Rightarrow> Panics
           | Returns (err, c', w') \<Rightarrow> Returns (Some c', snd (reg_Close R c' w'))))"

text \<open>What the background goroutine does once it has a client: register, then start the heartbeat.\<close>

definition background :: "('conn, 'w) reg_api \<Rightarrow> 'conn reg_Client \<Rightarrow> hb_choice list \<Rightarrow> 'w \<Rightarrow> (unit option \<times> 'w) run" where
  "background R c es w =
     (let (err, c', w') = Register R c (rg_Sleep R (3 * second) w)
      in case err of Some e \<Rightarrow> Returns (Some (), w') | None \<Rightarrow> StartHeartbeat R c' es w')"

text \<open>
  \<open>StartRegistration\<close>: nothing without an admin endpoint; otherwise the goroutine waits, creates the
  client and goes on as above.  The outer option is the goroutine, the client it stores is the
  helper's.
\<close>

definition StartRegistration :: "('conn, 'w) reg_api \<Rightarrow> (string \<Rightarrow> ('pool, 'pair) transport_creds \<Rightarrow> (string, 'conn) result)
    \<Rightarrow> ('w \<Rightarrow> ('pool, 'pair) tls_Config option) \<Rightarrow> reg_Config \<Rightarrow> hb_choice list \<Rightarrow> 'w
    \<Rightarrow> (('conn reg_Client option \<times> unit option \<times> 'w) run) option" where
  "StartRegistration R newClient tls cfg es w =
     (if rc_AdminEndpoint cfg = [] then None
      else Some (let w1 = rg_Sleep R (3 * second) w in
        case NewClient newClient (tls w1) cfg of
          Inl _ \<Rightarrow> Returns (None, Some (), w1)
        | Inr c \<Rightarrow>
            (let (err, c', w2) = Register R c w1
             in case err of
                  Some _ \<Rightarrow> Returns (Some c', Some (), w2)
                | None \<Rightarrow> (case StartHeartbeat R c' es w2 of
                    Panics \<Rightarrow> Panics
                  | Returns (st, w3) \<Rightarrow> Returns (Some c', st, w3)))))"

subsection \<open>Interleaving\<close>

text \<open>
  The goroutine that registers and the one that stops, as steps on what they share: whether the helper
  has a client, whether the stop channel is closed, whether the connection is open, and whether the
  gateway has the module registered.  \<open>BgAttempt k\<close> has \<open>k\<close> attempts left.  A failed call may or may not have
  reached the gateway.
\<close>

datatype bg_pc = BgSleep | BgAttempt nat | BgBeat | BgEnd
datatype main_pc = MainRun | MainUnregister | MainClose | MainStopped

record lc_state =
  lc_bg :: bg_pc
  lc_main :: main_pc
  lc_client :: bool
  lc_stop :: bool
  lc_open :: bool
  lc_registered :: bool

text \<open>\<open>pre\<close>: the client was created before (\<open>StartRegistrationWithClient\<close>); \<open>n\<close>: \<open>MaxRetries\<close>.\<close>

definition lc_start :: "bool \<Rightarrow> lc_state" where
  "lc_start pre = \<lparr>lc_bg = BgSleep, lc_main = MainRun, lc_client = pre, lc_stop = False, lc_open = pre, lc_registered = False\<rparr>"

inductive lc_step :: "bool \<Rightarrow> nat \<Rightarrow> lc_state \<Rightarrow> lc_state \<Rightarrow> bool" for pre :: bool and n :: nat where
  wake: "pre \<Longrightarrow> lc_bg s = BgSleep \<Longrightarrow> lc_step pre n s (s\<lparr>lc_bg := BgAttempt n\<rparr>)"
| create: "\<not> pre \<Longrightarrow> lc_bg s = BgSleep \<Longrightarrow> lc_step pre n s (s\<lparr>lc_bg := BgAttempt n, lc_client := True, lc_open := True\<rparr>)"
| create_fails: "\<not> pre \<Longrightarrow> lc_bg s = BgSleep \<Longrightarrow> lc_step pre n s (s\<lparr>lc_bg := BgEnd\<rparr>)"
| register: "lc_bg s = BgAttempt (Suc k) \<Longrightarrow> lc_open s \<Longrightarrow> lc_step pre n s (s\<lparr>lc_bg := BgBeat, lc_registered := True\<rparr>)"
| register_fails: "lc_bg s = BgAttempt (Suc k) \<Longrightarrow> lc_step pre n s (s\<lparr>lc_bg := BgAttempt k\<rparr>)"
| register_lost: "lc_bg s = BgAttempt (Suc k) \<Longrightarrow> lc_open s \<Longrightarrow> lc_step pre n s (s\<lparr>lc_bg := BgAttempt k, lc_registered := True\<rparr>)"
| give_up: "lc_bg s = BgAttempt 0 \<Longrightarrow> n > 0 \<Longrightarrow> lc_step pre n s (s\<lparr>lc_bg := BgEnd\<rparr>)"
| no_attempt: "lc_bg s = BgAttempt 0 \<Longrightarrow> n = 0 \<Longrightarrow> lc_step pre n s (s\<lparr>lc_bg := BgBeat\<rparr>)"
| beat: "lc_bg s = BgBeat \<Longrightarrow> lc_step pre n s s"
| beat_stops: "lc_bg s = BgBeat \<Longrightarrow> lc_stop s \<Longrightarrow> lc_step pre n s (s\<lparr>lc_bg := BgEnd\<rparr>)"
| stop_without_client: "lc_main s = MainRun \<Longrightarrow> \<not> lc_client s \<Longrightarrow> lc_step pre n s (s\<lparr>lc_main := MainStopped\<rparr>)"
| stop: "lc_main s = MainRun \<Longrightarrow> lc_client s \<Longrightarrow> lc_step pre n s (s\<lparr>lc_main := MainUnregister, lc_stop := True\<rparr>)"
| unregister: "lc_main s = MainUnregister \<Longrightarrow> lc_open s \<Longrightarrow> lc_step pre n s (s\<lparr>lc_main := MainClose, lc_registered := False\<rparr>)"
| unregister_fails: "lc_main s = MainUnregister \<Longrightarrow> lc_step pre n s (s\<lparr>lc_main := MainClose\<rparr>)"
| close: "lc_main s = MainClose \<Longrightarrow> lc_step pre n s (s\<lparr>lc_main := MainStopped, lc_open := False\<rparr>)"

inductive_cases lc_stepE: "lc_step pre n s s'"

abbreviation lc_reach :: "bool \<Rightarrow> nat \<Rightarrow> lc_state \<Rightarrow> bool" where
  "lc_reach pre n s \<equiv> (lc_step pre n)\<^sup>*\<^sup>* (lc_start pre) s"

section \<open>Lemmas\<close>

lemma Register_success_iff:
  "fst (Register R c w) = None \<longleftrightarrow> rc_MaxRetries (cl_config c) \<le> 0 \<or>
     (\<exists>k < nat (rc_MaxRetries (cl_config c)). is_ok (fst (rg_Register R (cl_conn c) (register_req (cl_config c))
        (retry_world (rg_Register R (cl_conn c) (register_req (cl_config c))) (rg_Sleep R (rc_RetryInterval (cl_config c))) w k))))"
proof -
  let ?n = "nat (rc_MaxRetries (cl_config c))" and ?att = "rg_Register R (cl_conn c) (register_req (cl_config c))"
    and ?pause = "rg_Sleep R (rc_RetryInterval (cl_config c))"
  show ?thesis
  proof (cases "\<exists>k<?n. is_ok (fst (?att (retry_world ?att ?pause w k)))")
    case True
    then obtain x w' where "retry ?n ?att ?pause None w = (Inr x, w')"
      using retry_ok_iff[of ?n ?att ?pause None w] by metis
    then show ?thesis using True by (simp add: Register_def)
  next
    case False
    then obtain e w' where "retry ?n ?att ?pause None w = (Inl e, w')" "e = None \<longleftrightarrow> ?n = 0"
      using retry_all_fail[of ?n ?att ?pause w None] by auto
    then show ?thesis using False by (auto simp: Register_def)
  qed
qed

text \<open>Work left in a lifecycle; only heartbeats leave it unchanged.\<close>

fun bg_work :: "nat \<Rightarrow> bg_pc \<Rightarrow> nat" where
  "bg_work n BgSleep = n + 3"
| "bg_work n (BgAttempt k) = k + 2"
| "bg_work n BgBeat = 1"
| "bg_work n BgEnd = 0"

fun main_work :: "main_pc \<Rightarrow> nat" where
  "main_work MainRun = 3"
| "main_work MainUnregister = 2"
| "main_work MainClose = 1"
| "main_work MainStopped = 0"

definition lc_work :: "nat \<Rightarrow> lc_state \<Rightarrow> nat" where
  "lc_work n s = bg_work n (lc_bg s) + main_work (lc_main s)"

lemma lc_work_decreases: "lc_step pre n s s' \<Longrightarrow> s' = s \<or> lc_work n s' < lc_work n s"
  by (induction rule: lc_step.induct) (simp_all add: lc_work_def)

definition lc_inv :: "bool \<Rightarrow> nat \<Rightarrow> lc_state \<Rightarrow> bool" where
  "lc_inv pre n s \<longleftrightarrow> (pre \<longrightarrow> lc_client s) \<and> (lc_stop s \<longrightarrow> lc_main s \<noteq> MainRun) \<and>
     (lc_main s \<in> {MainUnregister, MainClose} \<longrightarrow> lc_stop s) \<and>
     (lc_stop s \<longrightarrow> lc_bg s = BgSleep \<longrightarrow> pre) \<and>
     (\<not> pre \<longrightarrow> lc_bg s = BgSleep \<longrightarrow> \<not> lc_client s) \<and>
     (lc_main s = MainStopped \<and> lc_stop s \<longrightarrow> \<not> lc_open s)"

lemma lc_inv_start: "lc_inv pre n (lc_start pre)"
  by (simp add: lc_inv_def lc_start_def)

lemma lc_inv_step: "lc_step pre n s s' \<Longrightarrow> lc_inv pre n s \<Longrightarrow> lc_inv pre n s'"
  by (induction rule: lc_step.induct) (auto simp: lc_inv_def)

lemma lc_inv_reach: "lc_reach pre n s \<Longrightarrow> lc_inv pre n s"
  by (induction rule: rtranclp_induct) (auto intro: lc_inv_start lc_inv_step)

lemma lc_quiescent:
  assumes "lc_inv pre n s" and "lc_stop s" and "\<And>s'. lc_step pre n s s' \<Longrightarrow> s' = s"
  shows "lc_bg s = BgEnd \<and> lc_main s = MainStopped \<and> \<not> lc_open s"
proof -
  have stuck: "lc_step pre n s s' \<Longrightarrow> lc_bg s' = lc_bg s \<and> lc_main s' = lc_main s" for s' using assms(3) by blast
  have "lc_main s = MainStopped"
  proof (cases "lc_main s")
    case MainRun
    then show ?thesis using assms(1,2) by (simp add: lc_inv_def)
  next
    case MainUnregister
    then show ?thesis using stuck[OF lc_step.unregister_fails[OF MainUnregister]] by simp
  next
    case MainClose
    then show ?thesis using stuck[OF lc_step.close[OF MainClose]] by simp
  qed
  moreover have "lc_bg s = BgEnd"
  proof (cases "lc_bg s")
    case BgSleep
    then have pre using assms(1,2) by (simp add: lc_inv_def)
    then show ?thesis using stuck[OF lc_step.wake[OF _ BgSleep]] BgSleep by simp
  next
    case (BgAttempt k)
    show ?thesis
    proof (cases k)
      case 0
      then have z: "lc_bg s = BgAttempt 0" using BgAttempt by simp
      show ?thesis
      proof (cases "n = 0")
        case True
        then show ?thesis using stuck[OF lc_step.no_attempt[OF z True]] z by simp
      next
        case False
        then show ?thesis using stuck[OF lc_step.give_up[OF z]] by simp
      qed
    next
      case (Suc j)
      then show ?thesis using stuck[OF lc_step.register_fails[of s j]] BgAttempt by simp
    qed
  next
    case BgBeat
    then show ?thesis using stuck[OF lc_step.beat_stops[OF BgBeat assms(2)]] by simp
  qed
  ultimately show ?thesis using assms(1,2) by (simp add: lc_inv_def)
qed

section \<open>Properties\<close>

text \<open>
  \<open>register_reports_success\<close>: \<open>Register\<close> returns no error exactly when one of the \<open>MaxRetries\<close> attempts
  succeeded, or when \<open>MaxRetries\<close> allows no attempt at all: then it reports success although the
  gateway was never called.
\<close>

theorem register_reports_success:
  "(fst (Register R c w) = None \<longleftrightarrow> rc_MaxRetries (cl_config c) \<le> 0 \<or>
     (\<exists>k < nat (rc_MaxRetries (cl_config c)). is_ok (fst (rg_Register R (cl_conn c) (register_req (cl_config c))
        (retry_world (rg_Register R (cl_conn c) (register_req (cl_config c))) (rg_Sleep R (rc_RetryInterval (cl_config c))) w k)))))
   \<and> (rc_MaxRetries (cl_config c) > 0 \<or> Register R c w = (None, c, w))"
  using Register_success_iff[of R c w] by (cases "rc_MaxRetries (cl_config c) > 0") (simp_all add: Register_def)

text \<open>
  C36 (\<open>stop_quiesces\<close>): stopping works.  In whatever way the two goroutines interleave, once \<open>Stop\<close> has closed
  the stop channel every step but a heartbeat brings the lifecycle closer to its end, and the only
  state in which nothing is left to do has the background goroutine ended, \<open>Stop\<close> returned and the
  connection closed.
\<close>

theorem stop_quiesces:
  assumes "lc_reach pre n s" and "lc_stop s"
  shows "(\<forall>s'. lc_step pre n s s' \<longrightarrow> lc_stop s' \<and> (s' = s \<or> lc_work n s' < lc_work n s)) \<and>
    ((\<forall>s'. lc_step pre n s s' \<longrightarrow> s' = s) \<longrightarrow> lc_bg s = BgEnd \<and> lc_main s = MainStopped \<and> \<not> lc_open s)"
proof (intro conjI allI impI)
  fix s' assume st: "lc_step pre n s s'"
  show "lc_stop s'" using st assms(2) by cases simp_all
  show "s' = s \<or> lc_work n s' < lc_work n s" using st by (rule lc_work_decreases)
qed (use lc_quiescent[OF lc_inv_reach[OF assms(1)] assms(2)] in blast)+

text \<open>
  \<open>stop_can_leave_registered\<close>: \<open>Stop\<close> does not wait for the registration it started.  With a client
  created beforehand the gateway can register the module between the unregistration and the closing of
  the connection; with a client still to be created \<open>Stop\<close> does nothing, and the module registers and
  sends heartbeats afterwards.
\<close>

theorem stop_can_leave_registered:
  "n = 0 \<or> (\<exists>s. lc_reach True n s \<and> lc_main s = MainStopped \<and> lc_registered s \<and> lc_stop s) \<and>
    (\<exists>s. lc_reach False n s \<and> lc_main s = MainStopped \<and> lc_registered s \<and> lc_bg s = BgBeat \<and> \<not> lc_stop s)"
proof (cases n)
  case (Suc k)
  let ?a = "lc_start True\<lparr>lc_bg := BgAttempt n\<rparr>"
  let ?b = "?a\<lparr>lc_main := MainUnregister, lc_stop := True\<rparr>"
  let ?c = "?b\<lparr>lc_main := MainClose, lc_registered := False\<rparr>"
  let ?d = "?c\<lparr>lc_bg := BgBeat, lc_registered := True\<rparr>"
  let ?e = "?d\<lparr>lc_main := MainStopped, lc_open := False\<rparr>"
  have "lc_step True n (lc_start True) ?a" by (rule lc_step.wake) (simp_all add: lc_start_def)
  moreover have "lc_step True n ?a ?b" by (rule lc_step.stop) (simp_all add: lc_start_def)
  moreover have "lc_step True n ?b ?c" by (rule lc_step.unregister) (simp_all add: lc_start_def)
  moreover have "lc_step True n ?c ?d" by (rule lc_step.register[of _ k]) (simp_all add: lc_start_def Suc)
  moreover have "lc_step True n ?d ?e" by (rule lc_step.close) (simp add: lc_start_def)
  ultimately have 1: "lc_reach True n ?e" by (meson converse_rtranclp_into_rtranclp rtranclp.rtrancl_refl)
  let ?f = "lc_start False\<lparr>lc_main := MainStopped\<rparr>"
  let ?g = "?f\<lparr>lc_bg := BgAttempt n, lc_client := True, lc_open := True\<rparr>"
  let ?h = "?g\<lparr>lc_bg := BgBeat, lc_registered := True\<rparr>"
  have "lc_step False n (lc_start False) ?f" by (rule lc_step.stop_without_client) (simp_all add: lc_start_def)
  moreover have "lc_step False n ?f ?g" by (rule lc_step.create) (simp_all add: lc_start_def)
  moreover have "lc_step False n ?g ?h" by (rule lc_step.register[of _ k]) (simp_all add: lc_start_def Suc)
  ultimately have 2: "lc_reach False n ?h" by (meson converse_rtranclp_into_rtranclp rtranclp.rtrancl_refl)
  have "lc_main ?e = MainStopped \<and> lc_registered ?e \<and> lc_stop ?e" "lc_main ?h = MainStopped \<and> lc_registered ?h \<and> lc_bg ?h = BgBeat \<and> \<not> lc_stop ?h"
    by (simp_all add: lc_start_def)
  then show ?thesis using 1 2 by blast
qed simp

text \<open>
  \<open>second_stop_panics\<close>: \<open>Stop\<close> may be called once.  Called again on the helper it returned, it closes
  the closed stop channel and panics, whatever the gateway answered.
\<close>

theorem second_stop_panics:
  assumes "Stop R h w = Returns (Some c', w')"
  shows "Stop R (Some c') w'' = Panics"
proof -
  obtain c where c: "h = Some c" using assms by (cases h) (simp_all add: Stop_def)
  have "cl_stopClosed c'" using assms unfolding c Stop_def Unregister_def
    by (auto split: if_splits sum.splits prod.splits run.splits)
  then show ?thesis by (simp add: Stop_def Unregister_def)
qed

text \<open>
  \<open>background_panics_iff\<close>: the background goroutine brings the program down exactly when registration
  reports success and the heartbeat interval is not positive.  A configuration passed through
  \<open>SetConfig\<close> with a non-negative interval never does; one with zero values handed to \<open>NewClient\<close> always does.
\<close>

theorem background_panics_iff:
  "(background R c es w = Panics \<longleftrightarrow>
      fst (Register R c (rg_Sleep R (3 * second) w)) = None \<and> rc_HeartbeatInterval (cl_config c) \<le> 0) \<and>
   (rc_HeartbeatInterval cfg < 0 \<or> background R (SetConfig cfg c) es w \<noteq> Panics) \<and>
   (rc_HeartbeatInterval cfg \<noteq> 0 \<or> rc_MaxRetries cfg \<noteq> 0 \<or> background R (c\<lparr>cl_config := cfg\<rparr>) es w = Panics)"
proof -
  have cfg: "cl_config (fst (snd (Register R c v))) = cl_config c" for c v
    by (auto simp: Register_def split: prod.split sum.split)
  have iff: "background R c es w = Panics \<longleftrightarrow>
      fst (Register R c (rg_Sleep R (3 * second) w)) = None \<and> rc_HeartbeatInterval (cl_config c) \<le> 0" for c
  proof -
    obtain err c' w' where r: "Register R c (rg_Sleep R (3 * second) w) = (err, c', w')" by (metis surj_pair)
    have "cl_config c' = cl_config c" using cfg[of c "rg_Sleep R (3 * second) w"] r by simp
    then show ?thesis by (cases err) (simp_all add: background_def r StartHeartbeat_def)
  qed
  show ?thesis unfolding iff by (auto simp: SetConfig_def second_def Register_def)
qed

section \<open>Examples\<close>

theorem stop_quiesces_witness:
  "\<exists>s s'. lc_stop s \<and> lc_step True 1 s s' \<and> lc_work 1 s' < lc_work 1 s"
proof -
  let ?s = "lc_start True\<lparr>lc_main := MainUnregister, lc_stop := True\<rparr>"
  let ?t = "?s\<lparr>lc_main := MainClose, lc_registered := False\<rparr>"
  have s: "lc_step True 1 (lc_start True) ?s" by (rule lc_step.stop) (simp_all add: lc_start_def)
  have t: "lc_step True 1 ?s ?t" by (rule lc_step.unregister) (simp_all add: lc_start_def)
  have "?t = ?s \<or> lc_work 1 ?t < lc_work 1 ?s"
    using stop_quiesces[of True 1 ?s] s t by auto
  moreover have "?t \<noteq> ?s" by (simp add: lc_start_def)
  moreover have "lc_stop ?s" by simp
  ultimately show ?thesis using t by blast
qed

definition demo_reg :: "(unit, nat) reg_api" where
  "demo_reg = \<lparr>rg_Register = (\<lambda>_ _ w. (Inr ''id'', Suc w)), rg_Heartbeat = (\<lambda>_ _ _ w. (Inr True, w)),
     rg_Unregister = (\<lambda>_ _ _ w. (Inr (), w)), rg_CloseConn = (\<lambda>_ w. (None, w)), rg_Sleep = (\<lambda>_ w. w)\<rparr>"

definition demo_client :: "unit reg_Client" where
  "demo_client = \<lparr>cl_config = \<lparr>rc_ModuleID = ''m'', rc_ModuleName = ''M'', rc_Version = [], rc_Description = [], rc_GRPCEndpoint = [],
     rc_FrontendEntryUrl = [], rc_HttpEndpoint = [], rc_ServerName = [], rc_AdminEndpoint = ''a:1'', rc_OpenapiSpec = [],
     rc_ProtoDescriptor = [], rc_MenusYaml = [], rc_AuthToken = [], rc_HeartbeatInterval = 5, rc_RetryInterval = 1, rc_MaxRetries = 3\<rparr>,
     cl_conn = Some (), cl_registrationID = [], cl_stopClosed = False\<rparr>"

theorem second_stop_panics_witness:
  "\<exists>c'. Stop demo_reg (Some demo_client) 0 = Returns (Some c', 0) \<and> Stop demo_reg (Some c') 0 = Panics"
proof -
  have "Stop demo_reg (Some demo_client) 0 = Returns (Some (demo_client\<lparr>cl_stopClosed := True\<rparr>), 0)"
    by (simp add: Stop_def Unregister_def demo_reg_def demo_client_def reg_Close_def)
  with second_stop_panics[OF this, of 0] show ?thesis by blast
qed

end
