(* ===== verification/Lifecycle.thy ===== *)
theory Lifecycle
  imports Registration
begin

text \<open>
  The registration lifecycle once more: the functional models of \<open>Register\<close>, \<open>StartHeartbeat\<close> and
  \<open>Stop\<close> (\<^verbatim>\<open>registration/client.go\<close>, \<^verbatim>\<open>registration/lifecycle.go\<close>) refine the step relation of theory
  \<open>Registration\<close>: what one goroutine does from a call to its return is a path of that relation.  So
  the results on the relation hold of runs of the code, and the relation leaves no run out.
\<close>

section \<open>The gateway seen from outside\<close>

text \<open>
  \<open>registered w\<close> says that the gateway has the module registered in the world \<open>w\<close>, and \<open>opn conn w\<close>
  that the connection is open there.  An answered registration leaves the module registered, a failed
  one does not undo an earlier one; no other call registers it, and only an unregistration may undo
  it.  Closing a connection leaves it closed; nothing else closes or opens it.
\<close>

definition gateway_laws :: "('conn, 'w) reg_api \<Rightarrow> ('w \<Rightarrow> bool) \<Rightarrow> ('conn \<Rightarrow> 'w \<Rightarrow> bool) \<Rightarrow> bool" where
  "gateway_laws R registered opn \<longleftrightarrow>
     (\<forall>conn req w. is_ok (fst (rg_Register R conn req w)) \<or> registered w \<longrightarrow> registered (snd (rg_Register R conn req w))) \<and>
     (\<forall>conn m t w. registered (snd (rg_Unregister R conn m t w)) \<longrightarrow> registered w) \<and>
     (\<forall>conn m s w. registered (snd (rg_Heartbeat R conn m s w)) = registered w) \<and>
     (\<forall>conn w. registered (snd (rg_CloseConn R conn w)) = registered w) \<and>
     (\<forall>d w. registered (rg_Sleep R d w) = registered w) \<and>
     (\<forall>conn w. \<not> opn conn (snd (rg_CloseConn R conn w))) \<and>
     (\<forall>k conn req w. opn k (snd (rg_Register R conn req w)) = opn k w) \<and>
     (\<forall>k conn m t w. opn k (snd (rg_Unregister R conn m t w)) = opn k w) \<and>
     (\<forall>k conn m s w. opn k (snd (rg_Heartbeat R conn m s w)) = opn k w) \<and>
     (\<forall>k d w. opn k (rg_Sleep R d w) = opn k w)"

lemma gateway_lawsD:
  assumes "gateway_laws R registered opn"
  shows "is_ok (fst (rg_Register R conn req w)) \<or> registered w \<Longrightarrow> registered (snd (rg_Register R conn req w))"
    and "registered (snd (rg_Unregister R conn m t w)) \<Longrightarrow> registered w"
    and "registered (snd (rg_Heartbeat R conn m s w)) = registered w"
    and "registered (snd (rg_CloseConn R conn' w)) = registered w"
    and "registered (rg_Sleep R d w) = registered w"
    and "\<not> opn k (snd (rg_CloseConn R k w))"
    and "opn k (snd (rg_Register R conn req w)) = opn k w"
    and "opn k (snd (rg_Unregister R conn m t w)) = opn k w"
    and "opn k (snd (rg_Heartbeat R conn m s w)) = opn k w"
    and "opn k (rg_Sleep R d w) = opn k w"
  subgoal using assms[unfolded gateway_laws_def, THEN conjunct1] by blast
  subgoal using assms[unfolded gateway_laws_def, THEN conjunct2, THEN conjunct1] by blast
  using assms[unfolded gateway_laws_def, THEN conjunct2, THEN conjunct2] by simp_all

section \<open>The lifecycle state of the code\<close>

text \<open>
  The lifecycle state, read off what the code holds: the helper's client \<open>h\<close>, the world, and what the
  background goroutine has come to, \<open>None\<close> before it wakes and otherwise whether its heartbeat
  loop still runs (\<open>Some None\<close>) or it has returned (\<open>Some (Some ())\<close>).  The stop channel is the
  client's, the connection is open when the client has one that is open in the world, and \<open>Stop\<close> has
  not begun while the channel is open, is to close the connection once it is closed, and is done
  when the connection is closed too.
\<close>

definition conn_open :: "('conn \<Rightarrow> 'w \<Rightarrow> bool) \<Rightarrow> 'conn reg_Client option \<Rightarrow> 'w \<Rightarrow> bool" where
  "conn_open opn h w = (case h of None \<Rightarrow> False | Some c \<Rightarrow> (case cl_conn c of None \<Rightarrow> False | Some conn \<Rightarrow> opn conn w))"

definition stopping :: "'conn reg_Client option \<Rightarrow> bool" where
  "stopping h = (case h of None \<Rightarrow> False | Some c \<Rightarrow> cl_stopClosed c)"

definition lc_abs :: "('w \<Rightarrow> bool) \<Rightarrow> ('conn \<Rightarrow> 'w \<Rightarrow> bool) \<Rightarrow> unit option option \<Rightarrow> 'conn reg_Client option \<Rightarrow> 'w \<Rightarrow> lc_state" where
  "lc_abs registered opn g h w =
     \<lparr>lc_bg = (case g of None \<Rightarrow> BgSleep | Some None \<Rightarrow> BgBeat | Some (Some _) \<Rightarrow> BgEnd),
      lc_main = (if \<not> stopping h then MainRun else if conn_open opn h w then MainClose else MainStopped),
      lc_client = (h \<noteq> None), lc_stop = stopping h, lc_open = conn_open opn h w, lc_registered = registered w\<rparr>"

text \<open>For the steps in between: the state with the two goroutines at given places, the connection open.\<close>

definition lc_at :: "('w \<Rightarrow> bool) \<Rightarrow> bg_pc \<Rightarrow> main_pc \<Rightarrow> bool \<Rightarrow> 'conn reg_Client \<Rightarrow> 'w \<Rightarrow> lc_state" where
  "lc_at registered bg main opn c w = \<lparr>lc_bg = bg, lc_main = main, lc_client = True, lc_stop = cl_stopClosed c,
     lc_open = opn, lc_registered = registered w\<rparr>"

lemma lc_at_simps [simp]:
  "lc_bg (lc_at registered bg main opn c w) = bg" "lc_main (lc_at registered bg main opn c w) = main"
  "lc_client (lc_at registered bg main opn c w)" "lc_stop (lc_at registered bg main opn c w) = cl_stopClosed c"
  "lc_open (lc_at registered bg main opn c w) = opn" "lc_registered (lc_at registered bg main opn c w) = registered w"
  by (simp_all add: lc_at_def)

lemma lc_abs_running:
  "cl_conn c = Some conn \<Longrightarrow> opn conn w \<Longrightarrow> \<not> cl_stopClosed c \<Longrightarrow>
     lc_abs registered opn g (Some c) w =
       lc_at registered (case g of None \<Rightarrow> BgSleep | Some None \<Rightarrow> BgBeat | Some (Some _) \<Rightarrow> BgEnd) MainRun True c w"
  by (simp add: lc_abs_def lc_at_def conn_open_def stopping_def)

lemma lc_abs_stopped:
  "cl_conn c = Some conn \<Longrightarrow> \<not> opn conn w \<Longrightarrow> cl_stopClosed c \<Longrightarrow>
     lc_abs registered opn g (Some c) w =
       lc_at registered (case g of None \<Rightarrow> BgSleep | Some None \<Rightarrow> BgBeat | Some (Some _) \<Rightarrow> BgEnd) MainStopped False c w"
  by (simp add: lc_abs_def lc_at_def conn_open_def stopping_def)

abbreviation lc_path :: "bool \<Rightarrow> nat \<Rightarrow> lc_state \<Rightarrow> lc_state \<Rightarrow> bool" where
  "lc_path pre n \<equiv> (lc_step pre n)\<^sup>*\<^sup>*"

lemma lc_path_step: "lc_step pre n s t \<Longrightarrow> lc_path pre n t u \<Longrightarrow> lc_path pre n s u"
  by (rule converse_rtranclp_into_rtranclp)

section \<open>Registering\<close>

text \<open>One attempt is one step: it succeeds, fails, or fails although the gateway took it.\<close>

lemma attempt_simulated:
  assumes "gateway_laws R registered opn" and "rg_Register R conn req w = (res, w')"
  shows "lc_step pre n (lc_at registered (BgAttempt (Suc k)) m True c w)
    (lc_at registered (if is_ok res then BgBeat else BgAttempt k) m True c w')"
proof -
  let ?s = "lc_at registered (BgAttempt (Suc k)) m True c w"
  have l: "is_ok res \<or> registered w \<longrightarrow> registered w'"
    using gateway_lawsD(1)[OF assms(1), of conn req w] assms(2) by simp
  consider "is_ok res" | "\<not> is_ok res" "registered w' = registered w" | "\<not> is_ok res" "registered w'" using l by blast
  then show ?thesis
  proof cases
    case 1
    then show ?thesis using lc_step.register[of ?s k pre n] l by (simp add: lc_at_def)
  next
    case 2
    then show ?thesis using lc_step.register_fails[of ?s k pre n] by (simp add: lc_at_def)
  next
    case 3
    then show ?thesis using lc_step.register_lost[of ?s k pre n] by (simp add: lc_at_def)
  qed
qed

lemma lc_at_world: "registered w = registered v \<Longrightarrow> lc_at registered bg m b c w = lc_at registered bg m b c v"
  by (simp add: lc_at_def)

lemma retry_simulated:
  assumes laws: "gateway_laws R registered opn"
    and "retry k (rg_Register R conn req) (rg_Sleep R d) prev w = (res, w')"
  shows "lc_path pre n (lc_at registered (BgAttempt k) m True c w)
    (lc_at registered (if is_ok res then BgBeat else BgAttempt 0) m True c w')"
  using assms(2)
proof (induction k arbitrary: prev w)
  case 0
  then show ?case by auto
next
  case (Suc k)
  obtain a v where a: "rg_Register R conn req w = (a, v)" by (metis surj_pair)
  note step = attempt_simulated[OF laws a, of pre n k m c]
  show ?case
  proof (cases a)
    case (Inr x)
    then show ?thesis using Suc.prems a step by auto
  next
    case (Inl e)
    have v: "lc_at registered (BgAttempt k) m True c v = lc_at registered (BgAttempt k) m True c (rg_Sleep R d v)"
      by (rule lc_at_world) (simp add: gateway_lawsD(5)[OF laws])
    have "retry k (rg_Register R conn req) (rg_Sleep R d) (Some e) (rg_Sleep R d v) = (res, w')"
      using Suc.prems a Inl by simp
    from Suc.IH[OF this] show ?thesis using step Inl by (simp add: v lc_path_step)
  qed
qed

lemma Register_fields:
  "Register R c w = (err, c', w') \<Longrightarrow> cl_config c' = cl_config c \<and> cl_conn c' = cl_conn c \<and> cl_stopClosed c' = cl_stopClosed c"
  by (auto simp: Register_def split: prod.splits sum.splits)

lemma Register_simulated:
  assumes laws: "gateway_laws R registered opn" and r: "Register R c w = (err, c', w')"
    and n: "n = nat (rc_MaxRetries (cl_config c))"
  shows "lc_path pre n (lc_at registered (BgAttempt n) m True c w)
    (lc_at registered (if err = None then BgBeat else BgEnd) m True c' w')"
proof -
  let ?att = "rg_Register R (cl_conn c) (register_req (cl_config c))" and ?pause = "rg_Sleep R (rc_RetryInterval (cl_config c))"
  obtain res v where t: "retry n ?att ?pause None w = (res, v)" by (metis surj_pair)
  have c': "lc_at registered bg m True c x = lc_at registered bg m True c' x" for bg x
    using Register_fields[OF r] by (simp add: lc_at_def)
  have path: "lc_path pre n (lc_at registered (BgAttempt n) m True c w)
      (lc_at registered (if is_ok res then BgBeat else BgAttempt 0) m True c v)"
    by (rule retry_simulated[OF laws t])
  show ?thesis
  proof (cases res)
    case (Inr x)
    then have "err = None" "w' = v" using r t n by (auto simp: Register_def)
    then show ?thesis using path Inr by (simp add: c')
  next
    case (Inl e)
    then have ew: "err = e" "w' = v" using r t n by (auto simp: Register_def)
    have "e = None \<longleftrightarrow> n = 0"
      using retry_all_fail[of n ?att ?pause w None] retry_ok_iff[of n ?att ?pause None w] t Inl by fastforce
    then have "lc_step pre n (lc_at registered (BgAttempt 0) m True c v)
        (lc_at registered (if err = None then BgBeat else BgEnd) m True c v)"
      using lc_step.give_up[of "lc_at registered (BgAttempt 0) m True c v" n pre]
        lc_step.no_attempt[of "lc_at registered (BgAttempt 0) m True c v" n pre] ew(1)
      by (auto simp: lc_at_def)
    then show ?thesis using path Inl ew(2) by (simp add: c' rtranclp.rtrancl_into_rtrancl)
  qed
qed

text \<open>Registering and heartbeats leave the connection open or closed as it is.\<close>

lemma retry_kept:
  assumes "\<And>w. P (snd (att w)) = P w" and "\<And>w. P (pause w) = P w"
  shows "P (snd (retry n att pause prev w)) = P w"
proof (induction n arbitrary: prev w)
  case (Suc n)
  obtain a v where a: "att w = (a, v)" by (metis surj_pair)
  then have "P v = P w" using assms(1)[of w] by simp
  then show ?case using Suc.IH assms(2) a by (cases a) simp_all
qed simp

lemma Register_open:
  assumes "gateway_laws R registered opn"
  shows "opn k (snd (snd (Register R c w))) = opn k w"
proof -
  have "opn k (snd (retry n (rg_Register R conn req) (rg_Sleep R d) prev w)) = opn k w" for n conn req d prev
    by (rule retry_kept) (simp_all add: gateway_lawsD(7,10)[OF assms])
  from this[of "nat (rc_MaxRetries (cl_config c))" "cl_conn c" "register_req (cl_config c)" "rc_RetryInterval (cl_config c)" None]
  show ?thesis by (auto simp: Register_def split: prod.split sum.split)
qed

section \<open>Heartbeats\<close>

lemma sendHeartbeat_registered:
  "gateway_laws R registered opn \<Longrightarrow> registered (snd (sendHeartbeat R c w)) = registered w"
  using gateway_lawsD(3)[of R registered opn "cl_conn c" "rc_ModuleID (cl_config c)" "rc_ModuleName (cl_config c) @ '' service is healthy''" w]
  by (auto simp: sendHeartbeat_def split: prod.split sum.split)

lemma heartbeat_registered:
  "gateway_laws R registered opn \<Longrightarrow> registered (snd (heartbeat_loop R c es w)) = registered w"
  by (induction R c es w rule: heartbeat_loop.induct) (simp_all add: sendHeartbeat_registered)

lemma sendHeartbeat_open:
  "gateway_laws R registered opn \<Longrightarrow> opn k (snd (sendHeartbeat R c w)) = opn k w"
  using gateway_lawsD(9)[of R registered opn k "cl_conn c" "rc_ModuleID (cl_config c)" "rc_ModuleName (cl_config c) @ '' service is healthy''" w]
  by (auto simp: sendHeartbeat_def split: prod.split sum.split)

lemma heartbeat_open:
  "gateway_laws R registered opn \<Longrightarrow> opn k (snd (heartbeat_loop R c es w)) = opn k w"
  by (induction R c es w rule: heartbeat_loop.induct) (simp_all add: sendHeartbeat_open)

lemma heartbeat_goes_on: "set es \<subseteq> {TickerC} \<Longrightarrow> fst (heartbeat_loop R c es w) = None"
  by (induction R c es w rule: heartbeat_loop.induct) simp_all

text \<open>The background goroutine up to its heartbeats.\<close>

lemma background_simulated:
  assumes laws: "gateway_laws R registered opn" and b: "background R c es w = Returns (st, w')"
    and r: "Register R c (rg_Sleep R (3 * second) w) = (err, c', v)"
    and n: "n = nat (rc_MaxRetries (cl_config c))"
  shows "lc_path True n (lc_at registered BgSleep m True c w)
    (lc_at registered (if err = None then BgBeat else BgEnd) m True c' w')"
proof -
  let ?w = "rg_Sleep R (3 * second) w"
  have "lc_step True n (lc_at registered BgSleep m True c w) (lc_at registered (BgAttempt n) m True c ?w)"
    using lc_step.wake[of True "lc_at registered BgSleep m True c w" n] gateway_lawsD(5)[OF laws] by (simp add: lc_at_def)
  moreover have "registered w' = registered v"
    using b r heartbeat_registered[OF laws, of c' es v]
    by (auto simp: background_def StartHeartbeat_def split: option.splits if_splits)
  ultimately show ?thesis using Register_simulated[OF laws r n, of True m] lc_at_world
    by (metis lc_path_step)
qed

lemma background_open:
  assumes laws: "gateway_laws R registered opn" and b: "background R c es w = Returns (st, w')"
  shows "opn k w' = opn k w"
proof -
  obtain err c' v where r: "Register R c (rg_Sleep R (3 * second) w) = (err, c', v)" by (metis surj_pair)
  have "opn k v = opn k w" using Register_open[OF laws, of k c "rg_Sleep R (3 * second) w"] gateway_lawsD(10)[OF laws] r by simp
  then show ?thesis using b r heartbeat_open[OF laws, of k c' es v]
    by (auto simp: background_def StartHeartbeat_def split: option.splits if_splits)
qed

text \<open>After \<open>Stop\<close> has closed the channel: any number of ticks, then the loop takes the closed channel.\<close>

lemma heartbeat_until_stop:
  assumes "set es \<subseteq> {TickerC}"
  shows "fst (heartbeat_loop R c (es @ [StopChan]) w) = Some ()"
  using assms by (induction R c es w rule: heartbeat_loop.induct) simp_all

section \<open>Stopping\<close>

lemma Stop_simulated:
  assumes laws: "gateway_laws R registered opn" and s: "Stop R (Some c) w = Returns (h, w')"
    and conn: "cl_conn c = Some conn"
  shows "h = Some (c\<lparr>cl_stopClosed := True\<rparr>) \<and> \<not> opn conn w' \<and>
    lc_path pre n (lc_at registered bg MainRun True c w) (lc_at registered bg MainStopped False (c\<lparr>cl_stopClosed := True\<rparr>) w')"
proof -
  let ?c = "c\<lparr>cl_stopClosed := True\<rparr>"
  obtain res v where u: "rg_Unregister R (cl_conn c) (rc_ModuleID (cl_config c)) (rc_AuthToken (cl_config c)) w = (res, v)"
    by (metis surj_pair)
  have h: "h = Some ?c" and w': "w' = snd (rg_CloseConn R conn v)"
    using s u conn by (auto simp: Stop_def Unregister_def reg_Close_def split: if_splits sum.splits)
  have v: "registered w' = registered v" "\<not> opn conn w'"
    using gateway_lawsD(4,6)[OF laws] by (auto simp: w')
  let ?s = "lc_at registered bg MainRun True c w"
  have 1: "lc_step pre n ?s (lc_at registered bg MainUnregister True ?c w)"
    using lc_step.stop[of ?s pre n] by (simp add: lc_at_def)
  have "registered v \<Longrightarrow> registered w" using gateway_lawsD(2)[OF laws] u by (metis snd_conv)
  then have 2: "lc_step pre n (lc_at registered bg MainUnregister True ?c w) (lc_at registered bg MainClose True ?c v)"
    using lc_step.unregister[of "lc_at registered bg MainUnregister True ?c w" pre n]
      lc_step.unregister_fails[of "lc_at registered bg MainUnregister True ?c w" pre n]
    by (cases "registered v") (auto simp: lc_at_def)
  have 3: "lc_step pre n (lc_at registered bg MainClose True ?c v) (lc_at registered bg MainStopped False ?c w')"
    using lc_step.close[of "lc_at registered bg MainClose True ?c v" pre n] by (simp add: lc_at_def v)
  have "lc_path pre n ?s (lc_at registered bg MainStopped False ?c w')"
    by (rule lc_path_step[OF 1 lc_path_step[OF 2 r_into_rtranclp[of "lc_step pre n", OF 3]]])
  with h v show ?thesis by blast
qed

section \<open>Properties\<close>

text \<open>
  C37 (\<open>lifecycle_refined\<close>): the code's registration and shutdown implement the lifecycle relation.
  A background goroutine registers a client with an open connection, of a module not registered yet,
  and its heartbeat ticks any number of times; then \<open>Stop\<close> is called; then the heartbeat ticks on until
  it sees the closed channel.  For any gateway that keeps its promises, the lifecycle states read off
  the client and the world at these four points are states the relation reaches: the first
  is its start, heartbeats go on exactly when \<open>Register\<close> returned no error, \<open>Stop\<close> leaves the
  channel and the connection closed, which is its place \<open>MainStopped\<close>, and the heartbeat loop then ends.
\<close>

theorem lifecycle_refined:
  assumes laws: "gateway_laws R registered opn"
    and start: "cl_conn c = Some conn" "opn conn w" "\<not> cl_stopClosed c" "\<not> registered w"
    and ticks: "set es \<subseteq> {TickerC}" "set es' \<subseteq> {TickerC}"
    and bg: "background R c es w = Returns (st, w1)"
    and reg: "Register R c (rg_Sleep R (3 * second) w) = (err, c1, v)"
    and stop: "Stop R (Some c1) w1 = Returns (h, w2)"
  shows "lc_abs registered opn None (Some c) w = lc_start True \<and> (st = None \<longleftrightarrow> err = None) \<and>
    lc_reach True (nat (rc_MaxRetries (cl_config c))) (lc_abs registered opn (Some st) (Some c1) w1) \<and>
    lc_main (lc_abs registered opn (Some st) (Some c1) w1) = MainRun \<and>
    lc_reach True (nat (rc_MaxRetries (cl_config c))) (lc_abs registered opn (Some st) h w2) \<and>
    lc_main (lc_abs registered opn (Some st) h w2) = MainStopped \<and> stopping h \<and> \<not> opn conn w2 \<and>
    (case heartbeat_loop R (the h) (es' @ [StopChan]) w2 of (st', w3) \<Rightarrow>
       st' = Some () \<and> \<not> opn conn w3 \<and>
       (st = None \<longrightarrow> lc_reach True (nat (rc_MaxRetries (cl_config c))) (lc_abs registered opn (Some st') h w3)))"
proof -
  let ?n = "nat (rc_MaxRetries (cl_config c))" and ?c2 = "c1\<lparr>cl_stopClosed := True\<rparr>"
  define pc where "pc g = (case g of None \<Rightarrow> BgBeat | Some (_ :: unit) \<Rightarrow> BgEnd)" for g
  have c1: "cl_conn c1 = Some conn" "\<not> cl_stopClosed c1" using Register_fields[OF reg] start by simp_all
  have "fst (heartbeat_loop R c1 es v) = None" using ticks(1) by (rule heartbeat_goes_on)
  then have st: "st = None \<longleftrightarrow> err = None" using bg reg
    by (auto simp: background_def StartHeartbeat_def split: option.splits if_splits)
  have s0: "lc_start True = lc_at registered BgSleep MainRun True c w" "lc_abs registered opn None (Some c) w = lc_start True"
    using start by (simp_all add: lc_start_def lc_at_def lc_abs_def conn_open_def stopping_def)
  have o1: "opn conn w1" using background_open[OF laws bg] start(2) by simp
  have pcs: "(if err = None then BgBeat else BgEnd) = pc st" using st by (auto simp: pc_def split: option.split)
  have 1: "lc_reach True ?n (lc_at registered (pc st) MainRun True c1 w1)"
    using background_simulated[OF laws bg reg refl, of MainRun] unfolding s0(1) pcs .
  have a1: "lc_abs registered opn (Some st) (Some c1) w1 = lc_at registered (pc st) MainRun True c1 w1"
    using c1 o1 by (simp add: lc_abs_running pc_def)
  note stopped = Stop_simulated[OF laws stop c1(1)]
  have h: "h = Some ?c2" and o2: "\<not> opn conn w2" using stopped[of True ?n "pc st"] by blast+
  have 2: "lc_reach True ?n (lc_at registered (pc st) MainStopped False ?c2 w2)"
    using rtranclp_trans[OF 1, of "lc_at registered (pc st) MainStopped False ?c2 w2"] stopped[of True ?n "pc st"] by blast
  have a2: "lc_abs registered opn (Some g) h x = lc_at registered (pc g) MainStopped False ?c2 x" if "\<not> opn conn x" for g x
    using that c1(1) by (simp add: h lc_abs_stopped pc_def)
  obtain st' w3 where e: "heartbeat_loop R ?c2 (es' @ [StopChan]) w2 = (st', w3)" by (metis surj_pair)
  have st': "st' = Some ()" using heartbeat_until_stop[OF ticks(2), of R ?c2 w2] e by simp
  have w3: "registered w3 = registered w2" "\<not> opn conn w3"
    using heartbeat_registered[OF laws, of ?c2 "es' @ [StopChan]" w2] heartbeat_open[OF laws, of conn ?c2 "es' @ [StopChan]" w2] e o2
    by simp_all
  have 3: "lc_reach True ?n (lc_at registered (pc st') MainStopped False ?c2 w3)" if "st = None"
  proof -
    have "lc_step True ?n (lc_at registered BgBeat MainStopped False ?c2 w2) (lc_at registered BgEnd MainStopped False ?c2 w2)"
      using lc_step.beat_stops[of "lc_at registered BgBeat MainStopped False ?c2 w2" True ?n] by (simp add: lc_at_def)
    moreover have "lc_at registered BgEnd MainStopped False ?c2 w2 = lc_at registered BgEnd MainStopped False ?c2 w3"
      by (rule lc_at_world) (simp add: w3)
    ultimately show ?thesis using 2 that st' by (simp add: pc_def rtranclp.rtrancl_into_rtrancl)
  qed
  show ?thesis unfolding h a1 a2[OF o2, unfolded h] option.sel e prod.case
    using s0(2) st 1 2 o2 st' w3(2) 3 a2[OF w3(2), of st', unfolded h] by (auto simp: stopping_def)
qed

section \<open>Examples\<close>

text \<open>
  A gateway that answers the second call: the world counts the calls, remembers the registration and
  says whether the connection is open.
\<close>

definition flaky_gateway :: "(unit, nat \<times> bool \<times> bool) reg_api" where
  "flaky_gateway = \<lparr>rg_Register = (\<lambda>_ _ (k, b, p). if k = 0 then (Inl ''unavailable'', (1, b, p)) else (Inr ''id'', (Suc k, True, p))),
     rg_Heartbeat = (\<lambda>_ _ _ w. (Inr True, w)), rg_Unregister = (\<lambda>_ _ _ (k, b, p). (Inr (), (k, False, p))),
     rg_CloseConn = (\<lambda>_ (k, b, p). (None, (k, b, False))), rg_Sleep = (\<lambda>_ w. w)\<rparr>"

lemma flaky_gateway_laws: "gateway_laws flaky_gateway (\<lambda>(k, b, p). b) (\<lambda>_ (k, b, p). p)"
  by (auto simp: gateway_laws_def flaky_gateway_def split: prod.split)

theorem lifecycle_refined_witness:
  "lc_reach True 3 (lc_abs (\<lambda>(k, b, p). b) (\<lambda>_ (k, b, p). p) (Some None) (Some (demo_client\<lparr>cl_registrationID := ''id''\<rparr>)) (2 :: nat, True, True)) \<and>
   lc_reach True 3 (lc_abs (\<lambda>(k, b, p). b) (\<lambda>_ (k, b, p). p) (Some (Some ()))
     (Some (demo_client\<lparr>cl_registrationID := ''id'', cl_stopClosed := True\<rparr>)) (2 :: nat, False, False))"
proof -
  have 1: "Register flaky_gateway demo_client (rg_Sleep flaky_gateway (3 * second) (0, False, True)) =
      (None, demo_client\<lparr>cl_registrationID := ''id''\<rparr>, (2, True, True))"
    by (simp add: Register_def flaky_gateway_def demo_client_def numeral_3_eq_3)
  then have 2: "background flaky_gateway demo_client [TickerC] (0, False, True) = Returns (None, (2, True, True))"
    by (simp add: background_def StartHeartbeat_def sendHeartbeat_def flaky_gateway_def demo_client_def)
  have 3: "Stop flaky_gateway (Some (demo_client\<lparr>cl_registrationID := ''id''\<rparr>)) (2, True, True) =
      Returns (Some (demo_client\<lparr>cl_registrationID := ''id'', cl_stopClosed := True\<rparr>), (2, False, False))"
    by (simp add: Stop_def Unregister_def reg_Close_def flaky_gateway_def demo_client_def)
  have 4: "cl_conn demo_client = Some ()" "(\<lambda>_ (k :: nat, b :: bool, p :: bool). p) () (0, False, True)"
    "\<not> cl_stopClosed demo_client" "\<not> (\<lambda>(k :: nat, b :: bool, p :: bool). b) (0, False, True)" by (simp_all add: demo_client_def)
  have n: "nat (rc_MaxRetries (cl_config demo_client)) = 3" by (simp add: demo_client_def)
  have 5: "heartbeat_loop flaky_gateway c ([TickerC] @ [StopChan]) w = (Some (), w)" for c w
    by (simp add: sendHeartbeat_def flaky_gateway_def)
  have t: "set [TickerC] \<subseteq> {TickerC}" by simp
  from lifecycle_refined[OF flaky_gateway_laws 4 t t 2 1 3] show ?thesis unfolding n option.sel 5 by simp
qed

end
