(* ===== verification/Messages.thy ===== *)
theory Messages
  imports Registration
begin

text \<open>
  The messages of the platform's own services, as the generated structs under
  \<^verbatim>\<open>gen/go/common/\<close> declare them: module registration, certificate bootstrap, module backup, task
  types and task execution, and the directory stubs of the admin service.

  A field with presence is an option, a repeated field a list, a \<open>oneof\<close> a datatype, an enumeration its
  32-bit number.  Unknown fields and the bookkeeping of the protobuf runtime are left out.  The request
  a module registers with is the record \<open>register_request\<close> of theory \<open>Registration\<close>.
\<close>

text \<open>Seconds and nanoseconds.\<close>

type_synonym timestamp = "64 word \<times> 32 word"

record RegisterModuleResponse =
  rms_RegistrationId :: string
  rms_Status :: "32 word"
  rms_Message :: string

record UnregisterModuleRequest =
  umq_ModuleId :: string
  umq_AuthToken :: string

record UnregisterModuleResponse =
  ums_Success :: bool
  ums_Message :: string

record HeartbeatRequest =
  hq_ModuleId :: string
  hq_Health :: "32 word"
  hq_Message :: string

record HeartbeatResponse =
  hs_Acknowledged :: bool
  hs_NextHeartbeat :: "timestamp option"

record ListModulesRequest =
  lmq_Status :: "32 word option"
  lmq_Health :: "32 word option"

record Module =
  mm_ModuleId :: string
  mm_ModuleName :: string
  mm_Version :: string
  mm_Description :: string
  mm_GrpcEndpoint :: string
  mm_Status :: "32 word"
  mm_Health :: "32 word"
  mm_RegisteredAt :: "timestamp option"
  mm_LastHeartbeat :: "timestamp option"
  mm_RegistrationId :: string
  mm_FrontendEntryUrl :: string
  mm_HttpEndpoint :: string
  mm_ServerName :: string
  mm_MenuCount :: "32 word"
  mm_ApiCount :: "32 word"
  mm_RouteCount :: "32 word"

record ListModulesResponse =
  lms_Modules :: "Module list"
  lms_Total :: "32 word"

record GetModuleRequest =
  gmq_ModuleId :: string

record GetModuleResponse =
  gms_Module :: "Module option"

record ResolveModuleRequest =
  rslq_ModuleId :: string

record ResolveModuleResponse =
  rsls_ModuleId :: string
  rsls_GrpcEndpoint :: string
  rsls_ServerName :: string
  rsls_Health :: "32 word"

record SignModuleCertificateRequest =
  smcq_ModuleId :: string
  smcq_Secret :: string
  smcq_CsrPem :: string
  smcq_Kind :: "32 word"
  smcq_LifetimeDays :: "32 word option"

record SignModuleCertificateResponse =
  smcs_CertificatePem :: string
  smcs_CaCertificatePem :: string
  smcs_CaFingerprintSha256 :: string
  smcs_NotBefore :: "timestamp option"
  smcs_NotAfter :: "timestamp option"
  smcs_SerialNumber :: string

datatype GetCABundleRequest = GetCABundleRequest

record GetCABundleResponse =
  gcabs_CaCertificatePem :: string
  gcabs_CaFingerprintSha256 :: string

record BootstrapCertificatesRequest =
  bcq_ModuleId :: string
  bcq_Secret :: string
  bcq_DnsNames :: "string list"
  bcq_IpAddresses :: "string list"

record BootstrapCertificatesResponse =
  bcs_CaCertificatePem :: string
  bcs_ClientCertificatePem :: string
  bcs_ClientKeyPem :: string
  bcs_ServerCertificatePem :: string
  bcs_ServerKeyPem :: string
  bcs_Message :: string

record ExportBackupRequest =
  ebq_IncludeSecrets :: bool

record ExportBackupResponse =
  ebs_Content :: "byte list"

record ImportOptions =
  iom_Mode :: "32 word"
  iom_IncludeSecrets :: bool

datatype import_payload = PayloadOptions ImportOptions | PayloadContent "byte list"

record ImportBackupRequest =
  ibq_Payload :: "import_payload option"

record TableResult =
  trm_Table :: string
  trm_Rows :: "64 word"
  trm_Deleted :: "64 word"
  trm_Skipped :: bool
  trm_Note :: string

record ImportBackupResponse =
  ibs_Success :: bool
  ibs_Module :: string
  ibs_Tables :: "TableResult list"
  ibs_Warnings :: "string list"

record TaskTypeDescriptor =
  ttdm_TaskType :: string
  ttdm_DisplayName :: string
  ttdm_Description :: string
  ttdm_PayloadSchema :: string
  ttdm_DefaultCron :: string
  ttdm_DefaultMaxRetry :: "32 word"

record RegisterTaskTypesRequest =
  rttq_ModuleId :: string
  rttq_TaskTypes :: "TaskTypeDescriptor list"

record RegisterTaskTypesResponse =
  rtts_RegisteredCount :: "32 word"
  rtts_Message :: string

record UnregisterTaskTypesRequest =
  uttq_ModuleId :: string

record UnregisterTaskTypesResponse =
  utts_Message :: string

record ExecuteTaskRequest =
  etq_ExecutionId :: string
  etq_TaskType :: string
  etq_Payload :: "byte list"
  etq_Attempt :: "32 word"
  etq_MaxAttempts :: "32 word"
  etq_TenantId :: "32 word"
  etq_ScheduledAt :: "timestamp option"

record ExecuteTaskResponse =
  ets_Success :: bool
  ets_Message :: string
  ets_ResultData :: "byte list"
  ets_PermanentFailure :: bool

record AdminUser =
  aum_Id :: "32 word"
  aum_OrgUnitNames :: "string list"
  aum_PositionNames :: "string list"
  aum_Username :: string
  aum_Realname :: string
  aum_Avatar :: "string option"
  aum_Email :: string
  aum_Status :: "32 word option"

record ListAdminUsersResponse =
  laus_Items :: "AdminUser list"
  laus_Total :: "32 word"

record AdminRole =
  arm_Id :: "32 word"
  arm_Name :: string
  arm_Code :: string
  arm_Description :: string

record ListAdminRolesResponse =
  lars_Items :: "AdminRole list"
  lars_Total :: "64 word"

text \<open>A message behind the interface all of them implement.\<close>

datatype pb_message =
    MRegisterModuleRequest register_request
  | MRegisterModuleResponse RegisterModuleResponse
  | MUnregisterModuleRequest UnregisterModuleRequest
  | MUnregisterModuleResponse UnregisterModuleResponse
  | MHeartbeatRequest HeartbeatRequest
  | MHeartbeatResponse HeartbeatResponse
  | MListModulesRequest ListModulesRequest
  | MListModulesResponse ListModulesResponse
  | MGetModuleRequest GetModuleRequest
  | MGetModuleResponse GetModuleResponse
  | MModule Module
  | MResolveModuleRequest ResolveModuleRequest
  | MResolveModuleResponse ResolveModuleResponse
  | MSignModuleCertificateRequest SignModuleCertificateRequest
  | MSignModuleCertificateResponse SignModuleCertificateResponse
  | MGetCABundleRequest GetCABundleRequest
  | MGetCABundleResponse GetCABundleResponse
  | MBootstrapCertificatesRequest BootstrapCertificatesRequest
  | MBootstrapCertificatesResponse BootstrapCertificatesResponse
  | MExportBackupRequest ExportBackupRequest
  | MExportBackupResponse ExportBackupResponse
  | MImportBackupRequest ImportBackupRequest
  | MImportOptions ImportOptions
  | MTableResult TableResult
  | MImportBackupResponse ImportBackupResponse
  | MTaskTypeDescriptor TaskTypeDescriptor
  | MRegisterTaskTypesRequest RegisterTaskTypesRequest
  | MRegisterTaskTypesResponse RegisterTaskTypesResponse
  | MUnregisterTaskTypesRequest UnregisterTaskTypesRequest
  | MUnregisterTaskTypesResponse UnregisterTaskTypesResponse
  | MExecuteTaskRequest ExecuteTaskRequest
  | MExecuteTaskResponse ExecuteTaskResponse
  | MAdminUser AdminUser
  | MListAdminUsersResponse ListAdminUsersResponse
  | MAdminRole AdminRole
  | MListAdminRolesResponse ListAdminRolesResponse

end
