(* ===== verification/Redaction.thy ===== *)
theory Redaction
  imports Messages
begin

text \<open>
  Redaction, after the \<^verbatim>\<open>.pb.redact.go\<close> files under \<^verbatim>\<open>gen/go/common/\<close>: what the \<open>Redact\<close> method of a
  message masks and prints, and the servers that redact the responses of the server they wrap.

  \<open>Redact\<close> writes through its receiver, so it returns the message as well as its text.  The printer
  of the protobuf runtime is the argument \<open>S\<close>.  \<open>redact.Apply\<close>, the bypass and the registrar of gRPC are
  parameters too; \<open>redact_law\<close> says that \<open>Apply\<close> runs the \<open>Redact\<close> method of its argument.
\<close>

section \<open>Redacting a message\<close>

type_synonym stringer = "pb_message \<Rightarrow> string"

text \<open>A message all of whose fields are safe; a nil receiver prints as nothing.\<close>

definition keep_Redact :: "stringer \<Rightarrow> ('a \<Rightarrow> pb_message) \<Rightarrow> 'a option \<Rightarrow> 'a option \<times> string" where
  "keep_Redact S wrap x = (case x of None \<Rightarrow> (None, []) | Some m \<Rightarrow> (x, S (wrap m)))"

definition RegisterModuleRequest_Redact :: "stringer \<Rightarrow> register_request option \<Rightarrow> register_request option \<times> string" where
  "RegisterModuleRequest_Redact S x =
     (case x of
        None \<Rightarrow> (None, [])
      | Some m \<Rightarrow>
          (let m = m\<lparr>rr_OpenapiSpec := bytes_of_string ''[OPENAPI_SPEC]''\<rparr>;
               m = m\<lparr>rr_ProtoDescriptor := bytes_of_string ''[PROTO_DESCRIPTOR]''\<rparr>;
               m = m\<lparr>rr_MenusYaml := bytes_of_string ''[MENUS_YAML]''\<rparr>;
               m = m\<lparr>rr_AuthToken := ''[REDACTED]''\<rparr>
           in (Some m, S (MRegisterModuleRequest m))))"

definition RegisterModuleResponse_Redact :: "stringer \<Rightarrow> RegisterModuleResponse option \<Rightarrow> RegisterModuleResponse option \<times> string" where
  "RegisterModuleResponse_Redact S x = keep_Redact S MRegisterModuleResponse x"

definition UnregisterModuleRequest_Redact :: "stringer \<Rightarrow> UnregisterModuleRequest option \<Rightarrow> UnregisterModuleRequest option \<times> string" where
  "UnregisterModuleRequest_Redact S x = keep_Redact S MUnregisterModuleRequest x"

definition UnregisterModuleResponse_Redact :: "stringer \<Rightarrow> UnregisterModuleResponse option \<Rightarrow> UnregisterModuleResponse option \<times> string" where
  "UnregisterModuleResponse_Redact S x = keep_Redact S MUnregisterModuleResponse x"

definition HeartbeatRequest_Redact :: "stringer \<Rightarrow> HeartbeatRequest option \<Rightarrow> HeartbeatRequest option \<times> string" where
  "HeartbeatRequest_Redact S x = keep_Redact S MHeartbeatRequest x"

definition HeartbeatResponse_Redact :: "stringer \<Rightarrow> HeartbeatResponse option \<Rightarrow> HeartbeatResponse option \<times> string" where
  "HeartbeatResponse_Redact S x = keep_Redact S MHeartbeatResponse x"

definition ListModulesRequest_Redact :: "stringer \<Rightarrow> ListModulesRequest option \<Rightarrow> ListModulesRequest option \<times> string" where
  "ListModulesRequest_Redact S x = keep_Redact S MListModulesRequest x"

definition ListModulesResponse_Redact :: "stringer \<Rightarrow> ListModulesResponse option \<Rightarrow> ListModulesResponse option \<times> string" where
  "ListModulesResponse_Redact S x = keep_Redact S MListModulesResponse x"

definition GetModuleRequest_Redact :: "stringer \<Rightarrow> GetModuleRequest option \<Rightarrow> GetModuleRequest option \<times> string" where
  "GetModuleRequest_Redact S x = keep_Redact S MGetModuleRequest x"

definition GetModuleResponse_Redact :: "stringer \<Rightarrow> GetModuleResponse option \<Rightarrow> GetModuleResponse option \<times> string" where
  "GetModuleResponse_Redact S x = keep_Redact S MGetModuleResponse x"

definition Module_Redact :: "stringer \<Rightarrow> Module option \<Rightarrow> Module option \<times> string" where
  "Module_Redact S x = keep_Redact S MModule x"

definition ResolveModuleRequest_Redact :: "stringer \<Rightarrow> ResolveModuleRequest option \<Rightarrow> ResolveModuleRequest option \<times> string" where
  "ResolveModuleRequest_Redact S x = keep_Redact S MResolveModuleRequest x"

definition ResolveModuleResponse_Redact :: "stringer \<Rightarrow> ResolveModuleResponse option \<Rightarrow> ResolveModuleResponse option \<times> string" where
  "ResolveModuleResponse_Redact S x = keep_Redact S MResolveModuleResponse x"

definition SignModuleCertificateRequest_Redact :: "stringer \<Rightarrow> SignModuleCertificateRequest option \<Rightarrow> SignModuleCertificateRequest option \<times> string" where
  "SignModuleCertificateRequest_Redact S x = keep_Redact S MSignModuleCertificateRequest x"

definition SignModuleCertificateResponse_Redact :: "stringer \<Rightarrow> SignModuleCertificateResponse option \<Rightarrow> SignModuleCertificateResponse option \<times> string" where
  "SignModuleCertificateResponse_Redact S x = keep_Redact S MSignModuleCertificateResponse x"

definition GetCABundleRequest_Redact :: "stringer \<Rightarrow> GetCABundleRequest option \<Rightarrow> GetCABundleRequest option \<times> string" where
  "GetCABundleRequest_Redact S x = keep_Redact S MGetCABundleRequest x"

definition GetCABundleResponse_Redact :: "stringer \<Rightarrow> GetCABundleResponse option \<Rightarrow> GetCABundleResponse option \<times> string" where
  "GetCABundleResponse_Redact S x = keep_Redact S MGetCABundleResponse x"

definition BootstrapCertificatesRequest_Redact :: "stringer \<Rightarrow> BootstrapCertificatesRequest option \<Rightarrow> BootstrapCertificatesRequest option \<times> string" where
  "BootstrapCertificatesRequest_Redact S x = keep_Redact S MBootstrapCertificatesRequest x"

definition BootstrapCertificatesResponse_Redact :: "stringer \<Rightarrow> BootstrapCertificatesResponse option \<Rightarrow> BootstrapCertificatesResponse option \<times> string" where
  "BootstrapCertificatesResponse_Redact S x = keep_Redact S MBootstrapCertificatesResponse x"

definition ExportBackupRequest_Redact :: "stringer \<Rightarrow> ExportBackupRequest option \<Rightarrow> ExportBackupRequest option \<times> string" where
  "ExportBackupRequest_Redact S x = keep_Redact S MExportBackupRequest x"

definition ExportBackupResponse_Redact :: "stringer \<Rightarrow> ExportBackupResponse option \<Rightarrow> ExportBackupResponse option \<times> string" where
  "ExportBackupResponse_Redact S x = keep_Redact S MExportBackupResponse x"

definition ImportBackupRequest_Redact :: "stringer \<Rightarrow> ImportBackupRequest option \<Rightarrow> ImportBackupRequest option \<times> string" where
  "ImportBackupRequest_Redact S x = keep_Redact S MImportBackupRequest x"

definition ImportOptions_Redact :: "stringer \<Rightarrow> ImportOptions option \<Rightarrow> ImportOptions option \<times> string" where
  "ImportOptions_Redact S x = keep_Redact S MImportOptions x"

definition TableResult_Redact :: "stringer \<Rightarrow> TableResult option \<Rightarrow> TableResult option \<times> string" where
  "TableResult_Redact S x = keep_Redact S MTableResult x"

definition ImportBackupResponse_Redact :: "stringer \<Rightarrow> ImportBackupResponse option \<Rightarrow> ImportBackupResponse option \<times> string" where
  "ImportBackupResponse_Redact S x = keep_Redact S MImportBackupResponse x"

definition TaskTypeDescriptor_Redact :: "stringer \<Rightarrow> TaskTypeDescriptor option \<Rightarrow> TaskTypeDescriptor option \<times> string" where
  "TaskTypeDescriptor_Redact S x = keep_Redact S MTaskTypeDescriptor x"

definition RegisterTaskTypesRequest_Redact :: "stringer \<Rightarrow> RegisterTaskTypesRequest option \<Rightarrow> RegisterTaskTypesRequest option \<times> string" where
  "RegisterTaskTypesRequest_Redact S x = keep_Redact S MRegisterTaskTypesRequest x"

definition RegisterTaskTypesResponse_Redact :: "stringer \<Rightarrow> RegisterTaskTypesResponse option \<Rightarrow> RegisterTaskTypesResponse option \<times> string" where
  "RegisterTaskTypesResponse_Redact S x = keep_Redact S MRegisterTaskTypesResponse x"

definition UnregisterTaskTypesRequest_Redact :: "stringer \<Rightarrow> UnregisterTaskTypesRequest option \<Rightarrow> UnregisterTaskTypesRequest option \<times> string" where
  "UnregisterTaskTypesRequest_Redact S x = keep_Redact S MUnregisterTaskTypesRequest x"

definition UnregisterTaskTypesResponse_Redact :: "stringer \<Rightarrow> UnregisterTaskTypesResponse option \<Rightarrow> UnregisterTaskTypesResponse option \<times> string" where
  "UnregisterTaskTypesResponse_Redact S x = keep_Redact S MUnregisterTaskTypesResponse x"

definition ExecuteTaskRequest_Redact :: "stringer \<Rightarrow> ExecuteTaskRequest option \<Rightarrow> ExecuteTaskRequest option \<times> string" where
  "ExecuteTaskRequest_Redact S x = keep_Redact S MExecuteTaskRequest x"

definition ExecuteTaskResponse_Redact :: "stringer \<Rightarrow> ExecuteTaskResponse option \<Rightarrow> ExecuteTaskResponse option \<times> string" where
  "ExecuteTaskResponse_Redact S x = keep_Redact S MExecuteTaskResponse x"

definition AdminUser_Redact :: "stringer \<Rightarrow> AdminUser option \<Rightarrow> AdminUser option \<times> string" where
  "AdminUser_Redact S x = keep_Redact S MAdminUser x"

definition ListAdminUsersResponse_Redact :: "stringer \<Rightarrow> ListAdminUsersResponse option \<Rightarrow> ListAdminUsersResponse option \<times> string" where
  "ListAdminUsersResponse_Redact S x = keep_Redact S MListAdminUsersResponse x"

definition AdminRole_Redact :: "stringer \<Rightarrow> AdminRole option \<Rightarrow> AdminRole option \<times> string" where
  "AdminRole_Redact S x = keep_Redact S MAdminRole x"

definition ListAdminRolesResponse_Redact :: "stringer \<Rightarrow> ListAdminRolesResponse option \<Rightarrow> ListAdminRolesResponse option \<times> string" where
  "ListAdminRolesResponse_Redact S x = keep_Redact S MListAdminRolesResponse x"

text \<open>The method a message brings along when it is used through the interface.\<close>

definition via :: "('a \<Rightarrow> pb_message) \<Rightarrow> pb_message \<Rightarrow> 'a option \<times> string \<Rightarrow> pb_message \<times> string" where
  "via wrap old r = ((case fst r of None \<Rightarrow> old | Some m \<Rightarrow> wrap m), snd r)"

fun Redact :: "stringer \<Rightarrow> pb_message \<Rightarrow> pb_message \<times> string" where
    "Redact S (MRegisterModuleRequest m) = via MRegisterModuleRequest (MRegisterModuleRequest m) (RegisterModuleRequest_Redact S (Some m))"
  | "Redact S (MRegisterModuleResponse m) = via MRegisterModuleResponse (MRegisterModuleResponse m) (RegisterModuleResponse_Redact S (Some m))"
  | "Redact S (MUnregisterModuleRequest m) = via MUnregisterModuleRequest (MUnregisterModuleRequest m) (UnregisterModuleRequest_Redact S (Some m))"
  | "Redact S (MUnregisterModuleResponse m) = via MUnregisterModuleResponse (MUnregisterModuleResponse m) (UnregisterModuleResponse_Redact S (Some m))"
  | "Redact S (MHeartbeatRequest m) = via MHeartbeatRequest (MHeartbeatRequest m) (HeartbeatRequest_Redact S (Some m))"
  | "Redact S (MHeartbeatResponse m) = via MHeartbeatResponse (MHeartbeatResponse m) (HeartbeatResponse_Redact S (Some m))"
  | "Redact S (MListModulesRequest m) = via MListModulesRequest (MListModulesRequest m) (ListModulesRequest_Redact S (Some m))"
  | "Redact S (MListModulesResponse m) = via MListModulesResponse (MListModulesResponse m) (ListModulesResponse_Redact S (Some m))"
  | "Redact S (MGetModuleRequest m) = via MGetModuleRequest (MGetModuleRequest m) (GetModuleRequest_Redact S (Some m))"
  | "Redact S (MGetModuleResponse m) = via MGetModuleResponse (MGetModuleResponse m) (GetModuleResponse_Redact S (Some m))"
  | "Redact S (MModule m) = via MModule (MModule m) (Module_Redact S (Some m))"
  | "Redact S (MResolveModuleRequest m) = via MResolveModuleRequest (MResolveModuleRequest m) (ResolveModuleRequest_Redact S (Some m))"
  | "Redact S (MResolveModuleResponse m) = via MResolveModuleResponse (MResolveModuleResponse m) (ResolveModuleResponse_Redact S (Some m))"
  | "Redact S (MSignModuleCertificateRequest m) = via MSignModuleCertificateRequest (MSignModuleCertificateRequest m) (SignModuleCertificateRequest_Redact S (Some m))"
  | "Redact S (MSignModuleCertificateResponse m) = via MSignModuleCertificateResponse (MSignModuleCertificateResponse m) (SignModuleCertificateResponse_Redact S (Some m))"
  | "Redact S (MGetCABundleRequest m) = via MGetCABundleRequest (MGetCABundleRequest m) (GetCABundleRequest_Redact S (Some m))"
  | "Redact S (MGetCABundleResponse m) = via MGetCABundleResponse (MGetCABundleResponse m) (GetCABundleResponse_Redact S (Some m))"
  | "Redact S (MBootstrapCertificatesRequest m) = via MBootstrapCertificatesRequest (MBootstrapCertificatesRequest m) (BootstrapCertificatesRequest_Redact S (Some m))"
  | "Redact S (MBootstrapCertificatesResponse m) = via MBootstrapCertificatesResponse (MBootstrapCertificatesResponse m) (BootstrapCertificatesResponse_Redact S (Some m))"
  | "Redact S (MExportBackupRequest m) = via MExportBackupRequest (MExportBackupRequest m) (ExportBackupRequest_Redact S (Some m))"
  | "Redact S (MExportBackupResponse m) = via MExportBackupResponse (MExportBackupResponse m) (ExportBackupResponse_Redact S (Some m))"
  | "Redact S (MImportBackupRequest m) = via MImportBackupRequest (MImportBackupRequest m) (ImportBackupRequest_Redact S (Some m))"
  | "Redact S (MImportOptions m) = via MImportOptions (MImportOptions m) (ImportOptions_Redact S (Some m))"
  | "Redact S (MTableResult m) = via MTableResult (MTableResult m) (TableResult_Redact S (Some m))"
  | "Redact S (MImportBackupResponse m) = via MImportBackupResponse (MImportBackupResponse m) (ImportBackupResponse_Redact S (Some m))"
  | "Redact S (MTaskTypeDescriptor m) = via MTaskTypeDescriptor (MTaskTypeDescriptor m) (TaskTypeDescriptor_Redact S (Some m))"
  | "Redact S (MRegisterTaskTypesRequest m) = via MRegisterTaskTypesRequest (MRegisterTaskTypesRequest m) (RegisterTaskTypesRequest_Redact S (Some m))"
  | "Redact S (MRegisterTaskTypesResponse m) = via MRegisterTaskTypesResponse (MRegisterTaskTypesResponse m) (RegisterTaskTypesResponse_Redact S (Some m))"
  | "Redact S (MUnregisterTaskTypesRequest m) = via MUnregisterTaskTypesRequest (MUnregisterTaskTypesRequest m) (UnregisterTaskTypesRequest_Redact S (Some m))"
  | "Redact S (MUnregisterTaskTypesResponse m) = via MUnregisterTaskTypesResponse (MUnregisterTaskTypesResponse m) (UnregisterTaskTypesResponse_Redact S (Some m))"
  | "Redact S (MExecuteTaskRequest m) = via MExecuteTaskRequest (MExecuteTaskRequest m) (ExecuteTaskRequest_Redact S (Some m))"
  | "Redact S (MExecuteTaskResponse m) = via MExecuteTaskResponse (MExecuteTaskResponse m) (ExecuteTaskResponse_Redact S (Some m))"
  | "Redact S (MAdminUser m) = via MAdminUser (MAdminUser m) (AdminUser_Redact S (Some m))"
  | "Redact S (MListAdminUsersResponse m) = via MListAdminUsersResponse (MListAdminUsersResponse m) (ListAdminUsersResponse_Redact S (Some m))"
  | "Redact S (MAdminRole m) = via MAdminRole (MAdminRole m) (AdminRole_Redact S (Some m))"
  | "Redact S (MListAdminRolesResponse m) = via MListAdminRolesResponse (MListAdminRolesResponse m) (ListAdminRolesResponse_Redact S (Some m))"

section \<open>Redacting servers\<close>

text \<open>A unary method: the response may be nil, and may come with an error.\<close>

type_synonym ('ctx, 'w, 'err) unary = "'ctx \<Rightarrow> pb_message option \<Rightarrow> 'w \<Rightarrow> (pb_message option \<times> 'err option) \<times> 'w"
type_synonym redact_Apply = "pb_message option \<Rightarrow> pb_message option"

definition redacted_unary :: "redact_Apply \<Rightarrow> ('ctx \<Rightarrow> bool) \<Rightarrow> ('ctx, 'w, 'err) unary \<Rightarrow> ('ctx, 'w, 'err) unary" where
  "redacted_unary apply bypass handle ctx req w =
     (case handle ctx req w of
        ((res, err), w') \<Rightarrow> ((if \<not> bypass ctx then apply res else res, err), w'))"

record ('ctx, 'w, 'err) ModuleRegistrationServiceServer =
  srv_RegisterModule :: "('ctx, 'w, 'err) unary"
  srv_UnregisterModule :: "('ctx, 'w, 'err) unary"
  srv_Heartbeat :: "('ctx, 'w, 'err) unary"
  srv_ListModules :: "('ctx, 'w, 'err) unary"
  srv_GetModule :: "('ctx, 'w, 'err) unary"
  srv_ResolveModule :: "('ctx, 'w, 'err) unary"

definition redacted_RegisterModule :: "redact_Apply \<Rightarrow> ('ctx \<Rightarrow> bool) \<Rightarrow> ('ctx, 'w, 'err) ModuleRegistrationServiceServer \<Rightarrow> ('ctx, 'w, 'err) unary" where
  "redacted_RegisterModule apply bypass srv = redacted_unary apply bypass (srv_RegisterModule srv)"

definition redacted_UnregisterModule :: "redact_Apply \<Rightarrow> ('ctx \<Rightarrow> bool) \<Rightarrow> ('ctx, 'w, 'err) ModuleRegistrationServiceServer \<Rightarrow> ('ctx, 'w, 'err) unary" where
  "redacted_UnregisterModule apply bypass srv = redacted_unary apply bypass (srv_UnregisterModule srv)"

definition redacted_Heartbeat :: "redact_Apply \<Rightarrow> ('ctx \<Rightarrow> bool) \<Rightarrow> ('ctx, 'w, 'err) ModuleRegistrationServiceServer \<Rightarrow> ('ctx, 'w, 'err) unary" where
  "redacted_Heartbeat apply bypass srv = redacted_unary apply bypass (srv_Heartbeat srv)"

definition redacted_ListModules :: "redact_Apply \<Rightarrow> ('ctx \<Rightarrow> bool) \<Rightarrow> ('ctx, 'w, 'err) ModuleRegistrationServiceServer \<Rightarrow> ('ctx, 'w, 'err) unary" where
  "redacted_ListModules apply bypass srv = redacted_unary apply bypass (srv_ListModules srv)"

definition redacted_GetModule :: "redact_Apply \<Rightarrow> ('ctx \<Rightarrow> bool) \<Rightarrow> ('ctx, 'w, 'err) ModuleRegistrationServiceServer \<Rightarrow> ('ctx, 'w, 'err) unary" where
  "redacted_GetModule apply bypass srv = redacted_unary apply bypass (srv_GetModule srv)"

definition redacted_ResolveModule :: "redact_Apply \<Rightarrow> ('ctx \<Rightarrow> bool) \<Rightarrow> ('ctx, 'w, 'err) ModuleRegistrationServiceServer \<Rightarrow> ('ctx, 'w, 'err) unary" where
  "redacted_ResolveModule apply bypass srv = redacted_unary apply bypass (srv_ResolveModule srv)"

definition RedactedModuleRegistrationServiceServer :: "redact_Apply \<Rightarrow> ('ctx \<Rightarrow> bool) \<Rightarrow> ('ctx, 'w, 'err) ModuleRegistrationServiceServer
    \<Rightarrow> ('ctx \<Rightarrow> bool) option \<Rightarrow> ('ctx, 'w, 'err) ModuleRegistrationServiceServer" where
  "RedactedModuleRegistrationServiceServer apply falsy srv bypass =
     (let bypass = (case bypass of None \<Rightarrow> falsy | Some b \<Rightarrow> b)
      in \<lparr>srv_RegisterModule = redacted_RegisterModule apply bypass srv, srv_UnregisterModule = redacted_UnregisterModule apply bypass srv, srv_Heartbeat = redacted_Heartbeat apply bypass srv, srv_ListModules = redacted_ListModules apply bypass srv, srv_GetModule = redacted_GetModule apply bypass srv, srv_ResolveModule = redacted_ResolveModule apply bypass srv\<rparr>)"

definition RegisterRedactedModuleRegistrationServiceServer :: "('reg \<Rightarrow> ('ctx, 'w, 'err) ModuleRegistrationServiceServer \<Rightarrow> 'reg) \<Rightarrow> redact_Apply
    \<Rightarrow> ('ctx \<Rightarrow> bool) \<Rightarrow> 'reg \<Rightarrow> ('ctx, 'w, 'err) ModuleRegistrationServiceServer \<Rightarrow> ('ctx \<Rightarrow> bool) option \<Rightarrow> 'reg" where
  "RegisterRedactedModuleRegistrationServiceServer register apply falsy s srv bypass = register s (RedactedModuleRegistrationServiceServer apply falsy srv bypass)"

record ('ctx, 'w, 'err) LcmBootstrapServiceServer =
  srv_SignModuleCertificate :: "('ctx, 'w, 'err) unary"
  srv_GetCABundle :: "('ctx, 'w, 'err) unary"
  srv_BootstrapCertificates :: "('ctx, 'w, 'err) unary"

definition redacted_SignModuleCertificate :: "redact_Apply \<Rightarrow> ('ctx \<Rightarrow> bool) \<Rightarrow> ('ctx, 'w, 'err) LcmBootstrapServiceServer \<Rightarrow> ('ctx, 'w, 'err) unary" where
  "redacted_SignModuleCertificate apply bypass srv = redacted_unary apply bypass (srv_SignModuleCertificate srv)"

definition redacted_GetCABundle :: "redact_Apply \<Rightarrow> ('ctx \<Rightarrow> bool) \<Rightarrow> ('ctx, 'w, 'err) LcmBootstrapServiceServer \<Rightarrow> ('ctx, 'w, 'err) unary" where
  "redacted_GetCABundle apply bypass srv = redacted_unary apply bypass (srv_GetCABundle srv)"

definition redacted_BootstrapCertificates :: "redact_Apply \<Rightarrow> ('ctx \<Rightarrow> bool) \<Rightarrow> ('ctx, 'w, 'err) LcmBootstrapServiceServer \<Rightarrow> ('ctx, 'w, 'err) unary" where
  "redacted_BootstrapCertificates apply bypass srv = redacted_unary apply bypass (srv_BootstrapCertificates srv)"

definition RedactedLcmBootstrapServiceServer :: "redact_Apply \<Rightarrow> ('ctx \<Rightarrow> bool) \<Rightarrow> ('ctx, 'w, 'err) LcmBootstrapServiceServer
    \<Rightarrow> ('ctx \<Rightarrow> bool) option \<Rightarrow> ('ctx, 'w, 'err) LcmBootstrapServiceServer" where
  "RedactedLcmBootstrapServiceServer apply falsy srv bypass =
     (let bypass = (case bypass of None \<Rightarrow> falsy | Some b \<Rightarrow> b)
      in \<lparr>srv_SignModuleCertificate = redacted_SignModuleCertificate apply bypass srv, srv_GetCABundle = redacted_GetCABundle apply bypass srv, srv_BootstrapCertificates = redacted_BootstrapCertificates apply bypass srv\<rparr>)"

definition RegisterRedactedLcmBootstrapServiceServer :: "('reg \<Rightarrow> ('ctx, 'w, 'err) LcmBootstrapServiceServer \<Rightarrow> 'reg) \<Rightarrow> redact_Apply
    \<Rightarrow> ('ctx \<Rightarrow> bool) \<Rightarrow> 'reg \<Rightarrow> ('ctx, 'w, 'err) LcmBootstrapServiceServer \<Rightarrow> ('ctx \<Rightarrow> bool) option \<Rightarrow> 'reg" where
  "RegisterRedactedLcmBootstrapServiceServer register apply falsy s srv bypass = register s (RedactedLcmBootstrapServiceServer apply falsy srv bypass)"

record ('ctx, 'w, 'err) TaskTypeRegistrationServiceServer =
  srv_RegisterTaskTypes :: "('ctx, 'w, 'err) unary"
  srv_UnregisterTaskTypes :: "('ctx, 'w, 'err) unary"

definition redacted_RegisterTaskTypes :: "redact_Apply \<Rightarrow> ('ctx \<Rightarrow> bool) \<Rightarrow> ('ctx, 'w, 'err) TaskTypeRegistrationServiceServer \<Rightarrow> ('ctx, 'w, 'err) unary" where
  "redacted_RegisterTaskTypes apply bypass srv = redacted_unary apply bypass (srv_RegisterTaskTypes srv)"

definition redacted_UnregisterTaskTypes :: "redact_Apply \<Rightarrow> ('ctx \<Rightarrow> bool) \<Rightarrow> ('ctx, 'w, 'err) TaskTypeRegistrationServiceServer \<Rightarrow> ('ctx, 'w, 'err) unary" where
  "redacted_UnregisterTaskTypes apply bypass srv = redacted_unary apply bypass (srv_UnregisterTaskTypes srv)"

definition RedactedTaskTypeRegistrationServiceServer :: "redact_Apply \<Rightarrow> ('ctx \<Rightarrow> bool) \<Rightarrow> ('ctx, 'w, 'err) TaskTypeRegistrationServiceServer
    \<Rightarrow> ('ctx \<Rightarrow> bool) option \<Rightarrow> ('ctx, 'w, 'err) TaskTypeRegistrationServiceServer" where
  "RedactedTaskTypeRegistrationServiceServer apply falsy srv bypass =
     (let bypass = (case bypass of None \<Rightarrow> falsy | Some b \<Rightarrow> b)
      in \<lparr>srv_RegisterTaskTypes = redacted_RegisterTaskTypes apply bypass srv, srv_UnregisterTaskTypes = redacted_UnregisterTaskTypes apply bypass srv\<rparr>)"

definition RegisterRedactedTaskTypeRegistrationServiceServer :: "('reg \<Rightarrow> ('ctx, 'w, 'err) TaskTypeRegistrationServiceServer \<Rightarrow> 'reg) \<Rightarrow> redact_Apply
    \<Rightarrow> ('ctx \<Rightarrow> bool) \<Rightarrow> 'reg \<Rightarrow> ('ctx, 'w, 'err) TaskTypeRegistrationServiceServer \<Rightarrow> ('ctx \<Rightarrow> bool) option \<Rightarrow> 'reg" where
  "RegisterRedactedTaskTypeRegistrationServiceServer register apply falsy s srv bypass = register s (RedactedTaskTypeRegistrationServiceServer apply falsy srv bypass)"

record ('ctx, 'w, 'err) TaskExecutorServiceServer =
  srv_ExecuteTask :: "('ctx, 'w, 'err) unary"

definition redacted_ExecuteTask :: "redact_Apply \<Rightarrow> ('ctx \<Rightarrow> bool) \<Rightarrow> ('ctx, 'w, 'err) TaskExecutorServiceServer \<Rightarrow> ('ctx, 'w, 'err) unary" where
  "redacted_ExecuteTask apply bypass srv = redacted_unary apply bypass (srv_ExecuteTask srv)"

definition RedactedTaskExecutorServiceServer :: "redact_Apply \<Rightarrow> ('ctx \<Rightarrow> bool) \<Rightarrow> ('ctx, 'w, 'err) TaskExecutorServiceServer
    \<Rightarrow> ('ctx \<Rightarrow> bool) option \<Rightarrow> ('ctx, 'w, 'err) TaskExecutorServiceServer" where
  "RedactedTaskExecutorServiceServer apply falsy srv bypass =
     (let bypass = (case bypass of None \<Rightarrow> falsy | Some b \<Rightarrow> b)
      in \<lparr>srv_ExecuteTask = redacted_ExecuteTask apply bypass srv\<rparr>)"

definition RegisterRedactedTaskExecutorServiceServer :: "('reg \<Rightarrow> ('ctx, 'w, 'err) TaskExecutorServiceServer \<Rightarrow> 'reg) \<Rightarrow> redact_Apply
    \<Rightarrow> ('ctx \<Rightarrow> bool) \<Rightarrow> 'reg \<Rightarrow> ('ctx, 'w, 'err) TaskExecutorServiceServer \<Rightarrow> ('ctx \<Rightarrow> bool) option \<Rightarrow> 'reg" where
  "RegisterRedactedTaskExecutorServiceServer register apply falsy s srv bypass = register s (RedactedTaskExecutorServiceServer apply falsy srv bypass)"

text \<open>The backup service streams; its methods are passed through.\<close>

record ('exp, 'imp, 'w, 'err) BackupServiceServer =
  srv_ExportBackup :: "pb_message option \<Rightarrow> 'exp \<Rightarrow> 'w \<Rightarrow> 'err option \<times> 'w"
  srv_ImportBackup :: "'imp \<Rightarrow> 'w \<Rightarrow> 'err option \<times> 'w"

definition redacted_ExportBackup :: "('exp, 'imp, 'w, 'err) BackupServiceServer \<Rightarrow> pb_message option \<Rightarrow> 'exp \<Rightarrow> 'w \<Rightarrow> 'err option \<times> 'w" where
  "redacted_ExportBackup srv req stream w = srv_ExportBackup srv req stream w"

definition redacted_ImportBackup :: "('exp, 'imp, 'w, 'err) BackupServiceServer \<Rightarrow> 'imp \<Rightarrow> 'w \<Rightarrow> 'err option \<times> 'w" where
  "redacted_ImportBackup srv stream w = srv_ImportBackup srv stream w"

definition RedactedBackupServiceServer :: "('ctx \<Rightarrow> bool) \<Rightarrow> ('exp, 'imp, 'w, 'err) BackupServiceServer
    \<Rightarrow> ('ctx \<Rightarrow> bool) option \<Rightarrow> ('exp, 'imp, 'w, 'err) BackupServiceServer" where
  "RedactedBackupServiceServer falsy srv bypass = \<lparr>srv_ExportBackup = redacted_ExportBackup srv, srv_ImportBackup = redacted_ImportBackup srv\<rparr>"

definition RegisterRedactedBackupServiceServer :: "('reg \<Rightarrow> ('exp, 'imp, 'w, 'err) BackupServiceServer \<Rightarrow> 'reg)
    \<Rightarrow> ('ctx \<Rightarrow> bool) \<Rightarrow> 'reg \<Rightarrow> ('exp, 'imp, 'w, 'err) BackupServiceServer \<Rightarrow> ('ctx \<Rightarrow> bool) option \<Rightarrow> 'reg" where
  "RegisterRedactedBackupServiceServer register falsy s srv bypass = register s (RedactedBackupServiceServer falsy srv bypass)"

section \<open>What is masked\<close>

lemmas plain_Redact_defs = keep_Redact_def RegisterModuleResponse_Redact_def UnregisterModuleRequest_Redact_def
  UnregisterModuleResponse_Redact_def HeartbeatRequest_Redact_def HeartbeatResponse_Redact_def
  ListModulesRequest_Redact_def ListModulesResponse_Redact_def GetModuleRequest_Redact_def
  GetModuleResponse_Redact_def Module_Redact_def ResolveModuleRequest_Redact_def ResolveModuleResponse_Redact_def
  SignModuleCertificateRequest_Redact_def SignModuleCertificateResponse_Redact_def GetCABundleRequest_Redact_def
  GetCABundleResponse_Redact_def BootstrapCertificatesRequest_Redact_def BootstrapCertificatesResponse_Redact_def
  ExportBackupRequest_Redact_def ExportBackupResponse_Redact_def ImportBackupRequest_Redact_def
  ImportOptions_Redact_def TableResult_Redact_def ImportBackupResponse_Redact_def TaskTypeDescriptor_Redact_def
  RegisterTaskTypesRequest_Redact_def RegisterTaskTypesResponse_Redact_def UnregisterTaskTypesRequest_Redact_def
  UnregisterTaskTypesResponse_Redact_def ExecuteTaskRequest_Redact_def ExecuteTaskResponse_Redact_def
  AdminUser_Redact_def ListAdminUsersResponse_Redact_def AdminRole_Redact_def ListAdminRolesResponse_Redact_def

text \<open>Registering is the only message that has anything to hide.\<close>

definition plain :: "pb_message \<Rightarrow> bool" where
  "plain m \<longleftrightarrow> (case m of MRegisterModuleRequest _ \<Rightarrow> False | _ \<Rightarrow> True)"

lemma Redact_plain: "plain m \<Longrightarrow> Redact S m = (m, S m)"
  by (cases m) (simp_all add: plain_def via_def plain_Redact_defs)

definition public_part :: "register_request \<Rightarrow> register_request" where
  "public_part r = r\<lparr>rr_OpenapiSpec := [], rr_ProtoDescriptor := [], rr_MenusYaml := [], rr_AuthToken := []\<rparr>"

lemma Redact_register:
  "\<exists>m. RegisterModuleRequest_Redact S (Some r) = (Some m, S (MRegisterModuleRequest m)) \<and> public_part m = public_part r \<and>
     m = (public_part r)\<lparr>rr_OpenapiSpec := bytes_of_string ''[OPENAPI_SPEC]'', rr_ProtoDescriptor := bytes_of_string ''[PROTO_DESCRIPTOR]'',
       rr_MenusYaml := bytes_of_string ''[MENUS_YAML]'', rr_AuthToken := ''[REDACTED]''\<rparr>"
  by (simp add: RegisterModuleRequest_Redact_def public_part_def Let_def)

lemma Redact_register_cong:
  assumes "public_part r = public_part r'"
  shows "RegisterModuleRequest_Redact S (Some r) = RegisterModuleRequest_Redact S (Some r')"
  using Redact_register[of S r] Redact_register[of S r'] assms by auto

section \<open>Servers\<close>

definition redact_law :: "stringer \<Rightarrow> redact_Apply \<Rightarrow> bool" where
  "redact_law S apply \<longleftrightarrow> apply None = None \<and> (\<forall>m. apply (Some m) = Some (fst (Redact S m)))"

text \<open>A method that answers with a response, never with the registration request.\<close>

definition answers :: "('ctx, 'w, 'err) unary \<Rightarrow> bool" where
  "answers handle \<longleftrightarrow> (\<forall>ctx req w m. fst (fst (handle ctx req w)) = Some m \<longrightarrow> plain m)"

lemma redacted_unary_same:
  assumes "redact_law S apply" and "answers handle"
  shows "redacted_unary apply bypass handle = handle"
proof (intro ext)
  fix ctx req w
  obtain res err w' where h: "handle ctx req w = ((res, err), w')" by (metis surj_pair)
  have "apply res = res"
  proof (cases res)
    case (Some m)
    then have "plain m" using assms(2)[unfolded answers_def, rule_format, of ctx req w m] h by simp
    then show ?thesis using assms(1) Some by (simp add: redact_law_def Redact_plain)
  qed (use assms(1) in \<open>simp add: redact_law_def\<close>)
  then show "redacted_unary apply bypass handle ctx req w = handle ctx req w" by (simp add: redacted_unary_def h)
qed

lemmas redacted_server_defs = RedactedModuleRegistrationServiceServer_def RedactedLcmBootstrapServiceServer_def
  RedactedTaskTypeRegistrationServiceServer_def RedactedTaskExecutorServiceServer_def redacted_RegisterModule_def
  redacted_UnregisterModule_def redacted_Heartbeat_def redacted_ListModules_def redacted_GetModule_def
  redacted_ResolveModule_def redacted_SignModuleCertificate_def redacted_GetCABundle_def
  redacted_BootstrapCertificates_def redacted_RegisterTaskTypes_def redacted_UnregisterTaskTypes_def
  redacted_ExecuteTask_def

text \<open>Secrets of other messages, which no rule masks, are printed.\<close>

lemma other_secrets_printed:
  "snd (Redact S (MUnregisterModuleRequest u)) = S (MUnregisterModuleRequest u)"
  "snd (Redact S (MSignModuleCertificateRequest q)) = S (MSignModuleCertificateRequest q)"
  "snd (Redact S (MBootstrapCertificatesResponse b)) = S (MBootstrapCertificatesResponse b)"
  by (simp_all add: Redact_plain plain_def del: Redact.simps)

section \<open>Properties\<close>

text \<open>
  C30 (\<open>registration_redacted\<close>): what \<open>Redact\<close> prints of the request a module registers with, and what it
  leaves of the request, depends neither on the module's token nor on its specification, descriptor
  and menus: two configurations that agree on the rest cannot be told apart.  Redacting the result
  again changes nothing.
\<close>

theorem registration_redacted:
  assumes "public_part (register_req c) = public_part (register_req c')"
  shows "Redact S (MRegisterModuleRequest (register_req c)) = Redact S (MRegisterModuleRequest (register_req c')) \<and>
    Redact S (fst (Redact S (MRegisterModuleRequest (register_req c)))) = Redact S (MRegisterModuleRequest (register_req c))"
proof -
  obtain m where m: "RegisterModuleRequest_Redact S (Some (register_req c)) = (Some m, S (MRegisterModuleRequest m))"
    "public_part m = public_part (register_req c)" using Redact_register[of S "register_req c"] by blast
  have "RegisterModuleRequest_Redact S (Some m) = (Some m, S (MRegisterModuleRequest m))"
    using Redact_register_cong[OF m(2)] m(1) by simp
  then show ?thesis using Redact_register_cong[OF assms] m(1) by (simp add: via_def)
qed

text \<open>
  C31 (\<open>redacted_servers_transparent\<close>): the redacting servers are the servers they wrap, whatever the bypass
  is: no response of any unary service has a field that redaction masks, not even the private keys the
  deprecated bootstrap call returns, and the streaming service is passed through.
\<close>

theorem redacted_servers_transparent:
  assumes "redact_law S apply"
    and "list_all answers [srv_RegisterModule reg, srv_UnregisterModule reg, srv_Heartbeat reg, srv_ListModules reg,
      srv_GetModule reg, srv_ResolveModule reg]"
    and "list_all answers [srv_SignModuleCertificate boot, srv_GetCABundle boot, srv_BootstrapCertificates boot]"
    and "list_all answers [srv_RegisterTaskTypes types, srv_UnregisterTaskTypes types]" and "answers (srv_ExecuteTask exec)"
  shows "RedactedModuleRegistrationServiceServer apply falsy reg bypass = reg \<and>
    RedactedLcmBootstrapServiceServer apply falsy boot bypass = boot \<and>
    RedactedTaskTypeRegistrationServiceServer apply falsy types bypass = types \<and>
    RedactedTaskExecutorServiceServer apply falsy exec bypass = exec \<and>
    RedactedBackupServiceServer falsy backup bypass = backup"
  using assms(2-)
  by (simp add: redacted_server_defs redacted_unary_same[OF assms(1)] RedactedBackupServiceServer_def
      redacted_ExportBackup_def[abs_def] redacted_ImportBackup_def[abs_def] Let_def)

text \<open>A module with a token, and servers that answer every call with nothing but success.\<close>

definition token_config :: "string \<Rightarrow> reg_Config" where
  "token_config token = \<lparr>rc_ModuleID = ''m'', rc_ModuleName = ''M'', rc_Version = ''1'', rc_Description = [], rc_GRPCEndpoint = ''h:1'',
     rc_FrontendEntryUrl = [], rc_HttpEndpoint = [], rc_ServerName = [], rc_AdminEndpoint = ''a:1'', rc_OpenapiSpec = [],
     rc_ProtoDescriptor = [], rc_MenusYaml = [], rc_AuthToken = token, rc_HeartbeatInterval = 1, rc_RetryInterval = 1, rc_MaxRetries = 1\<rparr>"

definition print_token :: stringer where
  "print_token m = (case m of MRegisterModuleRequest r \<Rightarrow> rr_AuthToken r | _ \<Rightarrow> [])"

theorem registration_redacted_witness:
  "Redact print_token (MRegisterModuleRequest (register_req (token_config ''secret''))) =
     Redact print_token (MRegisterModuleRequest (register_req (token_config ''other'')))"
  by (rule registration_redacted[THEN conjunct1]) (simp add: public_part_def register_req_def token_config_def)

definition silent :: "pb_message \<Rightarrow> (unit, nat, unit) unary" where
  "silent m ctx req w = ((Some m, None), w + 1)"

lemma silent_answers: "plain m \<Longrightarrow> answers (silent m)"
  by (simp add: answers_def silent_def)

theorem redacted_servers_transparent_witness:
  "RedactedTaskTypeRegistrationServiceServer (map_option (\<lambda>m. fst (Redact (\<lambda>_. ''text'') m))) (\<lambda>_. False)
     \<lparr>srv_RegisterTaskTypes = silent (MRegisterTaskTypesResponse \<lparr>rtts_RegisteredCount = 1, rtts_Message = []\<rparr>),
      srv_UnregisterTaskTypes = silent (MUnregisterTaskTypesResponse \<lparr>utts_Message = []\<rparr>)\<rparr> None =
     \<lparr>srv_RegisterTaskTypes = silent (MRegisterTaskTypesResponse \<lparr>rtts_RegisteredCount = 1, rtts_Message = []\<rparr>),
      srv_UnregisterTaskTypes = silent (MUnregisterTaskTypesResponse \<lparr>utts_Message = []\<rparr>)\<rparr>"
proof -
  let ?p = "silent (MUnregisterTaskTypesResponse \<lparr>utts_Message = []\<rparr>)"
  have "redact_law (\<lambda>_. ''text'') (map_option (\<lambda>m. fst (Redact (\<lambda>_. ''text'') m)))" by (simp add: redact_law_def)
  from redacted_servers_transparent[OF this, of
      "\<lparr>srv_RegisterModule = ?p, srv_UnregisterModule = ?p, srv_Heartbeat = ?p, srv_ListModules = ?p, srv_GetModule = ?p, srv_ResolveModule = ?p\<rparr>"
      "\<lparr>srv_SignModuleCertificate = ?p, srv_GetCABundle = ?p, srv_BootstrapCertificates = ?p\<rparr>"
      "\<lparr>srv_RegisterTaskTypes = silent (MRegisterTaskTypesResponse \<lparr>rtts_RegisteredCount = 1, rtts_Message = []\<rparr>),
        srv_UnregisterTaskTypes = ?p\<rparr>" "\<lparr>srv_ExecuteTask = ?p\<rparr>" "\<lambda>_. False" None
      "\<lparr>srv_ExportBackup = (\<lambda>_ (_ :: unit) (w :: nat). (None :: unit option, w)), srv_ImportBackup = (\<lambda>(_ :: unit) w. (None, w))\<rparr>"]
  show ?thesis by (simp add: silent_answers plain_def)
qed

end
