(* ===== verification/Slices.thy ===== *)
theory Slices
  imports GoStrings
begin

text \<open>
  The slice helpers of \<^verbatim>\<open>utils/slice/merge.go\<close>, and the two name builders \<^verbatim>\<open>service/name.go\<close> and
  \<^verbatim>\<open>task/backup.go\<close>.

  \<open>MergeInPlace\<close> writes into the array behind its first argument when there is room, so it is modelled
  on an explicit store of arrays, with slices as windows that may share one.  The other helpers only
  read their arguments; for them a slice is a list.
\<close>

section \<open>Slices over a store of arrays\<close>

record slice =
  sl_ref :: nat
  sl_off :: nat
  sl_len :: nat
  sl_cap :: nat

record 'a array_store =
  hp_array :: "nat \<Rightarrow> 'a list"
  hp_next :: nat

definition valid_slice :: "'a array_store \<Rightarrow> slice \<Rightarrow> bool" where
  "valid_slice h s \<longleftrightarrow> sl_len s \<le> sl_cap s \<and> sl_off s + sl_cap s \<le> length (hp_array h (sl_ref s)) \<and> sl_ref s < hp_next h"

definition contents :: "'a array_store \<Rightarrow> slice \<Rightarrow> 'a list" where
  "contents h s = take (sl_len s) (drop (sl_off s) (hp_array h (sl_ref s)))"

text \<open>\<open>make([]T, len, cap)\<close>: a fresh array of zero values.\<close>

definition make_slice :: "'a \<Rightarrow> nat \<Rightarrow> nat \<Rightarrow> 'a array_store \<Rightarrow> slice \<times> 'a array_store" where
  "make_slice zero len cap h =
     (\<lparr>sl_ref = hp_next h, sl_off = 0, sl_len = len, sl_cap = cap\<rparr>,
      h\<lparr>hp_array := (hp_array h)(hp_next h := replicate cap zero), hp_next := Suc (hp_next h)\<rparr>)"

text \<open>\<open>copy(dst, src)\<close>, which reads all of the source before it writes.\<close>

definition copy_slice :: "slice \<Rightarrow> slice \<Rightarrow> 'a array_store \<Rightarrow> 'a array_store" where
  "copy_slice dst src h =
     (let n = min (sl_len dst) (sl_len src); a = hp_array h (sl_ref dst)
      in h\<lparr>hp_array := (hp_array h)(sl_ref dst :=
           take (sl_off dst) a @ take n (contents h src) @ drop (sl_off dst + n) a)\<rparr>)"

text \<open>\<open>s[:n]\<close> for \<open>n\<close> up to the capacity, and \<open>s[n:]\<close> for \<open>n\<close> up to the length.\<close>

definition reslice_to :: "nat \<Rightarrow> slice \<Rightarrow> slice" where
  "reslice_to n s = s\<lparr>sl_len := n\<rparr>"

definition reslice_from :: "nat \<Rightarrow> slice \<Rightarrow> slice" where
  "reslice_from n s = s\<lparr>sl_off := sl_off s + n, sl_len := sl_len s - n, sl_cap := sl_cap s - n\<rparr>"

definition MergeInPlace :: "'a \<Rightarrow> slice \<Rightarrow> slice \<Rightarrow> 'a array_store \<Rightarrow> slice \<times> 'a array_store" where
  "MergeInPlace zero sa sb h =
     (let totalLen = sl_len sa + sl_len sb;
          (s1, h1) = (if sl_cap sa < totalLen
                      then let (newSlice, h') = make_slice zero (sl_len sa) totalLen h in (newSlice, copy_slice newSlice sa h')
                      else (sa, h));
          s = reslice_to totalLen s1
      in (s, copy_slice (reslice_from (sl_len s - sl_len sb) s) sb h1))"

section \<open>Deduplication\<close>

text \<open>The loop body shared by the helpers: append a value that was not seen yet.\<close>

definition add_new :: "'a \<Rightarrow> 'a set \<times> 'a list \<Rightarrow> 'a set \<times> 'a list" where
  "add_new v = (\<lambda>(seen, result). if v \<in> seen then (seen, result) else (insert v seen, result @ [v]))"

definition MergeAndDeduplicateOrdered :: "u32 list \<Rightarrow> u32 list \<Rightarrow> u32 list" where
  "MergeAndDeduplicateOrdered sa sb = snd (fold add_new sb (fold add_new sa ({}, [])))"

text \<open>\<open>range_order\<close> is the order in which Go walks the map.\<close>

definition MergeAndDeduplicate :: "(u32 set \<Rightarrow> u32 list) \<Rightarrow> u32 list \<Rightarrow> u32 list \<Rightarrow> u32 list" where
  "MergeAndDeduplicate range_order sa sb = range_order (fold insert sb (fold insert sa {}))"

definition Unique :: "'a list \<Rightarrow> 'a list" where
  "Unique s = (if length s = 0 then s else snd (fold add_new s ({}, [])))"

definition Intersect :: "'a list \<Rightarrow> 'a list \<Rightarrow> 'a list" where
  "Intersect a b =
     (if length a = 0 \<or> length b = 0 then []
      else let m = fold insert b {} in
        snd (fold (\<lambda>v st. if v \<in> m then add_new v st else st) a ({}, [])))"

section \<open>Numbers to strings\<close>

text \<open>
  The types of the switch; \<open>Named\<close> is a value of a named type over one of them, which matches no case.
  Formatting of floats and \<open>fmt.Sprint\<close> are parameters.
\<close>

datatype 'f gonum = NumInt "64 word" | NumInt8 "8 word" | NumInt16 "16 word" | NumInt32 "32 word" | NumInt64 "64 word"
  | NumUint "64 word" | NumUint8 "8 word" | NumUint16 "16 word" | NumUint32 "32 word" | NumUint64 "64 word"
  | NumFloat32 'f | NumFloat64 'f | Named 'f

fun number_string :: "('f \<Rightarrow> nat \<Rightarrow> string) \<Rightarrow> ('f \<Rightarrow> string) \<Rightarrow> 'f gonum \<Rightarrow> string" where
  "number_string ff sp (NumInt x) = FormatInt (sint x)"
| "number_string ff sp (NumInt8 x) = FormatInt (sint x)"
| "number_string ff sp (NumInt16 x) = FormatInt (sint x)"
| "number_string ff sp (NumInt32 x) = FormatInt (sint x)"
| "number_string ff sp (NumInt64 x) = FormatInt (sint x)"
| "number_string ff sp (NumUint x) = FormatUint (unat x)"
| "number_string ff sp (NumUint8 x) = FormatUint (unat x)"
| "number_string ff sp (NumUint16 x) = FormatUint (unat x)"
| "number_string ff sp (NumUint32 x) = FormatUint (unat x)"
| "number_string ff sp (NumUint64 x) = FormatUint (unat x)"
| "number_string ff sp (NumFloat32 x) = ff x 32"
| "number_string ff sp (NumFloat64 x) = ff x 64"
| "number_string ff sp (Named x) = sp x"

definition NumberSliceToStrings :: "('f \<Rightarrow> nat \<Rightarrow> string) \<Rightarrow> ('f \<Rightarrow> string) \<Rightarrow> 'f gonum list \<Rightarrow> string list" where
  "NumberSliceToStrings ff sp s = (if length s = 0 then [] else map (number_string ff sp) s)"

section \<open>Names\<close>

definition Project :: string where "Project = ''gotangra''"

definition NewDiscoveryName :: "string \<Rightarrow> string" where
  "NewDiscoveryName serviceName = Project @ ''/'' @ serviceName"

definition BackupTaskType :: string where "BackupTaskType = ''backup''"

definition CreateBackupTaskID :: "u32 \<Rightarrow> string" where
  "CreateBackupTaskID taskId = BackupTaskType @ '':'' @ FormatUint (unat taskId)"

section \<open>Lemmas\<close>

text \<open>The reference: every value once, at its first position.\<close>

fun firsts :: "'a list \<Rightarrow> 'a list" where
  "firsts [] = []"
| "firsts (x # xs) = x # filter (\<lambda>y. y \<noteq> x) (firsts xs)"

lemma set_firsts [simp]: "set (firsts xs) = set xs"
  by (induction xs) auto

lemma distinct_firsts [simp]: "distinct (firsts xs)"
  by (induction xs) auto

lemma fold_add_new: "fold add_new xs (seen, acc) = (seen \<union> set xs, acc @ filter (\<lambda>y. y \<notin> seen) (firsts xs))"
proof (induction xs arbitrary: seen acc)
  case (Cons x xs)
  have "filter (\<lambda>y. y \<notin> seen) (filter (\<lambda>y. y \<noteq> x) (firsts xs)) = filter (\<lambda>y. y \<notin> insert x seen) (firsts xs)"
    by (simp add: conj_commute)
  moreover have "filter (\<lambda>y. y \<notin> seen) (filter (\<lambda>y. y \<noteq> x) (firsts xs)) = filter (\<lambda>y. y \<notin> seen) (firsts xs)" if "x \<in> seen"
    using that by (auto intro: filter_cong)
  ultimately show ?case using Cons by (auto simp: add_new_def)
qed simp

lemma fold_insert_set: "fold insert xs A = A \<union> set xs"
  by (induction xs arbitrary: A) auto

lemma fold_guarded: "fold (\<lambda>v st. if P v then f v st else st) xs st = fold f (filter P xs) st"
  by (induction xs arbitrary: st) auto

lemma firsts_append: "firsts (xs @ ys) = firsts xs @ filter (\<lambda>y. y \<notin> set xs) (firsts ys)"
  by (induction xs) (auto simp: filter_filter intro: filter_cong)

lemma Unique_firsts: "Unique xs = firsts xs"
  by (simp add: Unique_def fold_add_new)

lemma firsts_filter: "firsts (filter P xs) = filter P (firsts xs)"
  by (induction xs) (auto intro: filter_cong)

lemma contents_length: "valid_slice h s \<Longrightarrow> length (contents h s) = sl_len s"
  by (auto simp: valid_slice_def contents_def)

lemma copied:
  assumes "sl_off dst + sl_len dst \<le> length (hp_array h (sl_ref dst))" and "length (contents h src) = sl_len dst" and "sl_len src = sl_len dst"
  shows "hp_array (copy_slice dst src h) (sl_ref dst) =
      take (sl_off dst) (hp_array h (sl_ref dst)) @ contents h src @ drop (sl_off dst + sl_len dst) (hp_array h (sl_ref dst))"
    and "r \<noteq> sl_ref dst \<Longrightarrow> hp_array (copy_slice dst src h) r = hp_array h r"
  using assms by (simp_all add: copy_slice_def Let_def)

lemma merge_grows:
  assumes "valid_slice h sa" and "valid_slice h sb" and "sl_cap sa < sl_len sa + sl_len sb" and "MergeInPlace zero sa sb h = (s, h')"
  shows "sl_ref s = hp_next h" "sl_off s = 0" "sl_len s = sl_len sa + sl_len sb"
    "hp_array h' (hp_next h) = contents h sa @ contents h sb"
    "r < hp_next h \<Longrightarrow> hp_array h' r = hp_array h r"
proof -
  let ?t = "sl_len sa + sl_len sb"
  let ?n = "\<lparr>sl_ref = hp_next h, sl_off = 0, sl_len = sl_len sa, sl_cap = ?t\<rparr>"
  let ?h1 = "h\<lparr>hp_array := (hp_array h)(hp_next h := replicate ?t zero), hp_next := Suc (hp_next h)\<rparr>"
  let ?h2 = "copy_slice ?n sa ?h1"
  let ?d = "\<lparr>sl_ref = hp_next h, sl_off = sl_len sa, sl_len = sl_len sb, sl_cap = sl_len sb\<rparr>"
  have m: "s = ?n\<lparr>sl_len := ?t\<rparr>" "h' = copy_slice ?d sb ?h2"
    using assms(3,4) by (simp_all add: MergeInPlace_def make_slice_def Let_def reslice_to_def reslice_from_def)
  have refs: "sl_ref sa \<noteq> hp_next h" "sl_ref sb \<noteq> hp_next h" using assms(1,2) by (auto simp: valid_slice_def)
  have la: "length (contents h sa) = sl_len sa" and lb: "length (contents h sb) = sl_len sb"
    using assms(1,2) by (simp_all add: contents_length)
  have ca: "contents ?h1 sa = contents h sa" using refs by (simp add: contents_def)
  have h2: "hp_array ?h2 (hp_next h) = contents h sa @ replicate (sl_len sb) zero"
    "r \<noteq> hp_next h \<Longrightarrow> hp_array ?h2 r = hp_array h r" for r
    using copied[of ?n ?h1 sa] la ca by simp_all
  have cb: "contents ?h2 sb = contents h sb" using refs h2(2) by (simp add: contents_def)
  show "sl_ref s = hp_next h" "sl_off s = 0" "sl_len s = ?t" using m(1) by simp_all
  have len: "sl_off ?d + sl_len ?d \<le> length (hp_array ?h2 (sl_ref ?d))" using la by (simp add: h2(1))
  show "hp_array h' (hp_next h) = contents h sa @ contents h sb"
    using copied(1)[OF len, of sb] lb la by (simp add: m(2) cb h2(1))
  show "r < hp_next h \<Longrightarrow> hp_array h' r = hp_array h r"
    using copied(2)[OF len, of sb r] lb h2(2)[of r] by (simp add: m(2) cb)
qed

lemma merge_fits:
  assumes "valid_slice h sa" and "valid_slice h sb" and "sl_len sa + sl_len sb \<le> sl_cap sa" and "MergeInPlace zero sa sb h = (s, h')"
  shows "s = sa\<lparr>sl_len := sl_len sa + sl_len sb\<rparr>"
    "hp_array h' (sl_ref sa) = take (sl_off sa + sl_len sa) (hp_array h (sl_ref sa)) @ contents h sb @
       drop (sl_off sa + sl_len sa + sl_len sb) (hp_array h (sl_ref sa))"
    "r \<noteq> sl_ref sa \<Longrightarrow> hp_array h' r = hp_array h r"
proof -
  let ?d = "sa\<lparr>sl_off := sl_off sa + sl_len sa, sl_len := sl_len sb, sl_cap := sl_cap sa - sl_len sa\<rparr>"
  have m: "s = sa\<lparr>sl_len := sl_len sa + sl_len sb\<rparr>" "h' = copy_slice ?d sb h"
    using assms(3,4) by (simp_all add: MergeInPlace_def Let_def reslice_to_def reslice_from_def)
  have lb: "length (contents h sb) = sl_len sb" using assms(2) by (simp add: contents_length)
  have len: "sl_off ?d + sl_len ?d \<le> length (hp_array h (sl_ref ?d))" using assms(1,3) by (simp add: valid_slice_def)
  show "s = sa\<lparr>sl_len := sl_len sa + sl_len sb\<rparr>" by (rule m(1))
  show "hp_array h' (sl_ref sa) = take (sl_off sa + sl_len sa) (hp_array h (sl_ref sa)) @ contents h sb @
       drop (sl_off sa + sl_len sa + sl_len sb) (hp_array h (sl_ref sa))"
    using copied(1)[OF len, of sb] lb by (simp add: m(2))
  show "r \<noteq> sl_ref sa \<Longrightarrow> hp_array h' r = hp_array h r" using copied(2)[OF len, of sb r] lb by (simp add: m(2))
qed

section \<open>Properties\<close>

text \<open>
  C39 (\<open>merge_in_place\<close>): the merged slice holds the elements of the first and then of the second, as they
  were before the call, also when the two share an array.  When the first has enough capacity
  the result is a window of its array, which changes exactly behind its
  elements, where the second one's now are, and no other array does.  When it has too little, the
  result lies in a new array and no existing one changes: the original slice is then not overwritten,
  although the function is documented never to create a new one.
\<close>

theorem merge_in_place:
  assumes "valid_slice h sa" and "valid_slice h sb" and "MergeInPlace zero sa sb h = (s, h')"
  shows "contents h' s = contents h sa @ contents h sb \<and>
    (if sl_cap sa < sl_len sa + sl_len sb then sl_ref s = hp_next h \<and> (\<forall>r. r < hp_next h \<longrightarrow> hp_array h' r = hp_array h r)
     else sl_ref s = sl_ref sa \<and> sl_off s = sl_off sa \<and> (\<forall>r. r \<noteq> sl_ref sa \<longrightarrow> hp_array h' r = hp_array h r) \<and>
       take (sl_off sa + sl_len sa) (hp_array h' (sl_ref sa)) = take (sl_off sa + sl_len sa) (hp_array h (sl_ref sa)) \<and>
       drop (sl_off sa + sl_len sa + sl_len sb) (hp_array h' (sl_ref sa)) =
         drop (sl_off sa + sl_len sa + sl_len sb) (hp_array h (sl_ref sa)))"
proof (cases "sl_cap sa < sl_len sa + sl_len sb")
  case True
  note m = merge_grows[OF assms(1,2) True assms(3)]
  have "contents h' s = contents h sa @ contents h sb"
    using m(1-4) contents_length[OF assms(1)] contents_length[OF assms(2)] by (simp add: contents_def[of h'])
  then show ?thesis using True m(1,5) by simp
next
  case False
  then have fits: "sl_len sa + sl_len sb \<le> sl_cap sa" by simp
  note m = merge_fits[OF assms(1,2) fits assms(3)]
  let ?a = "hp_array h (sl_ref sa)"
  have lens: "sl_off sa + sl_len sa + sl_len sb \<le> length ?a" "length (contents h sb) = sl_len sb"
    using assms fits by (simp_all add: valid_slice_def contents_length)
  have "contents h' s = contents h sa @ contents h sb"
    using lens by (simp add: contents_def[of h'] m(1,2) contents_def[of h sa] drop_take min_def) arith
  moreover have "take (sl_off sa + sl_len sa) (hp_array h' (sl_ref sa)) = take (sl_off sa + sl_len sa) ?a"
    "drop (sl_off sa + sl_len sa + sl_len sb) (hp_array h' (sl_ref sa)) = drop (sl_off sa + sl_len sa + sl_len sb) ?a"
    using lens by (simp_all add: m(2) min.absorb2)
  ultimately show ?thesis using False m(3) by (simp add: m(1))
qed

text \<open>
  \<open>dedup_helpers_agree\<close>: the ordered merge is \<open>Unique\<close> of the concatenation, and both are the
  reference that keeps every value at its first position; the unordered merge has the same
  elements once each, in whatever order the map is walked; \<open>Intersect\<close> keeps, of the first
  positions of its first argument, those that occur in the second.
\<close>

theorem dedup_helpers_agree:
  assumes "\<And>A. set (range_order A) = A \<and> distinct (range_order A)"
  shows "MergeAndDeduplicateOrdered xs ys = Unique (xs @ ys) \<and> Unique (xs @ ys) = firsts (xs @ ys) \<and>
    distinct (MergeAndDeduplicate range_order xs ys) \<and>
    set (MergeAndDeduplicate range_order xs ys) = set (MergeAndDeduplicateOrdered xs ys) \<and>
    Intersect xs ys = filter (\<lambda>v. v \<in> set ys) (Unique xs)"
proof -
  have o: "MergeAndDeduplicateOrdered xs ys = firsts (xs @ ys)"
    by (simp add: MergeAndDeduplicateOrdered_def fold_add_new firsts_append)
  have "Intersect xs ys = filter (\<lambda>v. v \<in> set ys) (Unique xs)"
    by (auto simp: Intersect_def fold_guarded fold_add_new fold_insert_set firsts_filter Unique_firsts)
  then show ?thesis using assms o by (simp add: Unique_firsts MergeAndDeduplicate_def fold_insert_set)
qed

text \<open>
  \<open>names_injective\<close>: different backup tasks have different task identifiers, and different services
  different discovery names.
\<close>

theorem names_injective:
  "inj CreateBackupTaskID \<and> inj NewDiscoveryName"
proof -
  have "i = j" if "CreateBackupTaskID i = CreateBackupTaskID j" for i j
    using that FormatUint_inj[of "unat i" "unat j"] by (simp add: CreateBackupTaskID_def word_unat_eq_iff)
  then show ?thesis by (simp add: inj_def NewDiscoveryName_def)
qed

section \<open>Examples\<close>

text \<open>Two windows of one array: the second begins one position behind the end of the first.\<close>

theorem merge_in_place_witness:
  "contents (snd (MergeInPlace 0 \<lparr>sl_ref = 0, sl_off = 0, sl_len = 1, sl_cap = 4\<rparr> \<lparr>sl_ref = 0, sl_off = 2, sl_len = 2, sl_cap = 2\<rparr>
      \<lparr>hp_array = (\<lambda>_. [1, 2, 3, 4]), hp_next = 1\<rparr>)) \<lparr>sl_ref = 0, sl_off = 0, sl_len = 3, sl_cap = 4\<rparr> = [1, 3, 4 :: int]"
proof -
  let ?sa = "\<lparr>sl_ref = 0, sl_off = 0, sl_len = 1, sl_cap = 4\<rparr>" and ?sb = "\<lparr>sl_ref = 0, sl_off = 2, sl_len = 2, sl_cap = 2\<rparr>"
    and ?h = "\<lparr>hp_array = (\<lambda>_. [1, 2, 3, 4 :: int]), hp_next = 1\<rparr>"
  have v: "valid_slice ?h ?sa" "valid_slice ?h ?sb" by (simp_all add: valid_slice_def)
  obtain s h' where m: "MergeInPlace 0 ?sa ?sb ?h = (s, h')" by (metis surj_pair)
  have "s = \<lparr>sl_ref = 0, sl_off = 0, sl_len = 3, sl_cap = 4\<rparr>"
    using merge_fits(1)[OF v _ m] by simp
  then have "contents h' \<lparr>sl_ref = 0, sl_off = 0, sl_len = 3, sl_cap = 4\<rparr> = contents ?h ?sa @ contents ?h ?sb"
    using merge_in_place[OF v m] by blast
  also have "\<dots> = [1, 3, 4]" by (simp add: contents_def)
  finally show ?thesis unfolding m snd_conv .
qed

theorem dedup_helpers_agree_witness:
  "MergeAndDeduplicateOrdered [3, 1] [1, 2] = Unique ([3, 1] @ [1, 2])"
proof -
  have "\<exists>xs. set xs = A \<and> distinct xs" for A :: "u32 set" using finite_distinct_list[of A] by simp
  then obtain f :: "u32 set \<Rightarrow> u32 list" where f: "set (f A) = A \<and> distinct (f A)" for A by metis
  show ?thesis using dedup_helpers_agree[OF f, of "[3, 1]" "[1, 2]"] by blast
qed

end
