(* ===== verification/Ambient.thy ===== *)
theory Ambient
  imports Prelude
begin

text \<open>
  The parts around the services: the metrics middleware and server (\<^verbatim>\<open>metrics/\<close>) and the identity of
  background jobs (\<^verbatim>\<open>viewer/system_viewer.go\<close>).  Prometheus, the HTTP server and the clock are parameters.
\<close>

section \<open>Metrics\<close>

text \<open>
  A handler works on the world; \<open>observe\<close> and \<open>inc\<close> are the histogram and the counter, each of which
  may be missing.  \<open>clock\<close> reads the time in seconds off the world.
\<close>

definition NewServerMiddleware :: "('w \<Rightarrow> int) \<Rightarrow> ('ctx \<Rightarrow> string option) \<Rightarrow> (string \<Rightarrow> int \<Rightarrow> 'w \<Rightarrow> 'w) option
    \<Rightarrow> (string \<Rightarrow> string \<Rightarrow> 'w \<Rightarrow> 'w) option
    \<Rightarrow> ('ctx \<Rightarrow> 'req \<Rightarrow> 'w \<Rightarrow> ('e, 'r) result \<times> 'w) \<Rightarrow> 'ctx \<Rightarrow> 'req \<Rightarrow> 'w \<Rightarrow> ('e, 'r) result \<times> 'w" where
  "NewServerMiddleware clock transportOp duration requests handler ctx req w =
     (let (reply, w1) = handler ctx req w;
          operation = (case transportOp ctx of Some operation \<Rightarrow> operation | None \<Rightarrow> []);
          status = (if is_ok reply then ''OK'' else ''ERROR'');
          elapsed = clock w1 - clock w;
          w2 = (case duration of Some observe \<Rightarrow> if operation \<noteq> [] then observe operation elapsed w1 else w1 | None \<Rightarrow> w1);
          w3 = (case requests of Some inc \<Rightarrow> if operation \<noteq> [] then inc operation status w2 else w2 | None \<Rightarrow> w2)
      in (reply, w3))"

text \<open>What the server answers: the metrics of the given or the default registry, or the health check.\<close>

datatype ('p, 'b) metrics_answer = MetricsPage 'p | Healthy | NotFound

definition metrics_mux :: "'reg option \<Rightarrow> ('reg \<Rightarrow> 'p) \<Rightarrow> 'p \<Rightarrow> string \<Rightarrow> ('p, 'b) metrics_answer" where
  "metrics_mux registry handlerFor defaultHandler path =
     (if path = ''/metrics'' then MetricsPage (case registry of Some reg \<Rightarrow> handlerFor reg | None \<Rightarrow> defaultHandler)
      else if path = ''/healthz'' then Healthy else NotFound)"

datatype serve_err = ErrServerClosed | ServeError string

definition metrics_Start :: "serve_err option \<Rightarrow> serve_err option" where
  "metrics_Start listenAndServe =
     (case listenAndServe of Some err \<Rightarrow> if err \<noteq> ErrServerClosed then Some err else None | None \<Rightarrow> None)"

definition metrics_Stop :: "('ctx \<Rightarrow> 'w \<Rightarrow> 'e option \<times> 'w) \<Rightarrow> 'ctx \<Rightarrow> 'w \<Rightarrow> 'e option \<times> 'w" where
  "metrics_Stop shutdown ctx w = shutdown ctx w"

text \<open>The middleware never changes what a call returns, and records nothing without an operation.\<close>

lemma metrics_transparent: "fst (NewServerMiddleware clock tr dur reqs handler ctx req w) = fst (handler ctx req w)"
  by (simp add: NewServerMiddleware_def Let_def split: prod.split)

lemma metrics_silent: "tr ctx = None \<Longrightarrow> NewServerMiddleware clock tr dur reqs handler ctx req w = handler ctx req w"
  by (simp add: NewServerMiddleware_def Let_def split: prod.split option.split)

section \<open>The system viewer\<close>

record viewer_Context =
  ShouldAudit :: bool
  UserID :: u64
  TenantID :: u64
  OrgUnitID :: u64
  Permissions :: "string list"
  Roles :: "string list"
  DataScope :: "string list"
  TraceID :: string
  HasPermission :: "string \<Rightarrow> string \<Rightarrow> bool"
  IsPlatformContext :: bool
  IsTenantContext :: bool
  IsSystemContext :: bool

definition NewSystemViewer :: viewer_Context where
  "NewSystemViewer = \<lparr>ShouldAudit = False, UserID = 0, TenantID = 0, OrgUnitID = 0, Permissions = [], Roles = [], DataScope = [],
     TraceID = [], HasPermission = (\<lambda>_ _. True), IsPlatformContext = True, IsTenantContext = False, IsSystemContext = True\<rparr>"

definition NewSystemViewerContext :: "('ctx \<Rightarrow> viewer_Context \<Rightarrow> 'ctx) \<Rightarrow> 'ctx \<Rightarrow> 'ctx" where
  "NewSystemViewerContext withContext ctx = withContext ctx NewSystemViewer"

text \<open>The documented meaning of the context flags holds of it: platform means tenant 0.\<close>

lemma system_viewer_consistent:
  "IsPlatformContext NewSystemViewer \<longleftrightarrow> TenantID NewSystemViewer = 0"
  "IsTenantContext NewSystemViewer \<longleftrightarrow> 0 < TenantID NewSystemViewer"
  by (simp_all add: NewSystemViewer_def)

end
