(* ===== verification/Spec2Isabelle.thy ===== *)
theory Spec2Isabelle
  imports SqlDump Backup Crypto EventBus BusLock EventTypes Metadata Claims Mtls AuditTrail RequestTyping Router Cert ModuleDialer Registration Lifecycle Redaction Slices Ambient
begin

text \<open>
  A verification development for go-tangra-common, the Go library shared by the services of the
  Tangra platform: the gateway in front of the modules, the security middleware every module runs,
  the clients with which a module obtains certificates, registers itself and calls its siblings,
  the backup formats, encryption at rest, the event bus and a few helpers.

  \<^bold>\<open>The program.\<close>  An HTTP request enters the dynamic router, which authenticates the bearer token and
  picks a module by the path.  The transcoder finds the gRPC method whose HTTP binding fits the rest
  of the path, builds the request message from body, path and query, attaches the caller's identity,
  calls the module and renders the reply.  In the
  module, the certificate check, the claims check, the metrics and the audit log wrap the handler.
  A module starts by provisioning certificates, registers with the admin gateway, sends heartbeats
  and unregisters at shutdown; it calls other modules through the module dialer, with the same
  certificates.  Its data is backed up as entity archives or as raw table streams.

  \<^bold>\<open>Theories and sources\<close> (paths under \<^verbatim>\<open>src/\<close>).

  \<^item> \<open>Prelude\<close>: types, results, loops with early return, bounded retry, and the interfaces below.
    \<open>GoStrings\<close>, \<open>Base64\<close>, \<open>Filepath\<close>: the parts of Go's standard library the source calls
    (\<^verbatim>\<open>strings\<close>, \<^verbatim>\<open>strconv\<close>, \<^verbatim>\<open>encoding/base64\<close>, \<^verbatim>\<open>path/filepath\<close>) as executable functions.

  \<^item> \<open>Frame\<close>: \<^verbatim>\<open>backup/sqldump/frame.go\<close>.  Lengths, blocks, chunk writer and chunk reader.  Blocks
    round-trip exactly up to the 256 MiB cap, a table stream reads back to its data and leaves the
    reader behind its terminator however the reads are sized, and it is stated which truncations are
    noticed.

  \<^item> \<open>SqlDump\<close>: the rest of \<^verbatim>\<open>backup/sqldump\<close>.  \<open>Dump\<close>, \<open>Restore\<close>, introspection and merge over an
    abstract transaction.  Restoring a dump performs exactly the work of an abstract specification of
    restoring, a list of tables at a time; a merge sends only the statements of a merge of the tables of
    the archive, among which the column types of the archive stand as they are.

  \<^item> \<open>Backup\<close>: \<^verbatim>\<open>backup/manifest.go\<close>, \<^verbatim>\<open>compress.go\<close>, \<^verbatim>\<open>migration.go\<close>, \<^verbatim>\<open>restore.go\<close>.  Archives, packing,
    every outcome of a migration run with the entities it reaches, and that runs compose.

  \<^item> \<open>Crypto\<close>: \<^verbatim>\<open>crypto/\<close>.  Round trips of strings and payloads, the marker prefix, and the global
    encryptor behind its \<open>sync.Once\<close>.

  \<^item> \<open>Metadata\<close>, \<open>Claims\<close>: \<^verbatim>\<open>grpcx/metadata.go\<close>, \<^verbatim>\<open>module_secret.go\<close>, \<^verbatim>\<open>claims_signing.go\<close> and
    \<^verbatim>\<open>middleware/claims/claims.go\<close>.  A signature binds every claim; behind the enforcing middleware no
    forged claim is visible; a module call is accepted exactly when both ends hold the same secret.

  \<^item> \<open>Mtls\<close>: \<^verbatim>\<open>middleware/mtls/\<close>.  Handlers of protected endpoints see authenticated peers only.

  \<^item> \<open>AuditTrail\<close>: \<^verbatim>\<open>middleware/audit/\<close>.  The middleware is transparent, its records carry their hash
    and, unless signing fails, a signature that verifies; the DER codec round-trips.

  \<^item> \<open>EventBus\<close>, \<open>BusLock\<close>, \<open>EventTypes\<close>: \<^verbatim>\<open>eventbus/\<close>.  Delivery by one publisher and retries; the interleaving
    of several publishers with once-handlers; the read/write lock with handlers that call the bus again:
    every run of goroutines whose handlers leave the bus alone ends with the lock free, and any handler
    that calls back can end in a deadlock; the names and payloads of the events.

  \<^item> \<open>Routes\<close>, \<open>RequestBuilder\<close>, \<open>RequestTyping\<close>, \<open>ResponseTransformer\<close>, \<open>Transcoder\<close>, \<open>Router\<close>:
    \<^verbatim>\<open>gateway/\<close>.  Method selection is the most specific match, filled patterns match, scalars survive
    the query string, the message built has the input type of the method and it is stated which
    parameter names and body rules make the protobuf runtime panic, a request has an effect only as one call of a matching method, every request is audited once, no request
    passes without a valid token, and the router refines a set of modules under registry events.

  \<^item> \<open>Cert\<close>: \<^verbatim>\<open>cert/\<close>.  The check of the certificates on disk, the pinned connection and \<open>Ensure\<close>, which
    leaves the issued certificates and their keys on disk, and does not repair what an interrupted run left.

  \<^item> \<open>ModuleDialer\<close>: \<^verbatim>\<open>grpcx/module_dialer.go\<close>.  Resolution and connection with bounded retries and
    cancellation, and the choice of credentials.

  \<^item> \<open>Registration\<close>, \<open>Lifecycle\<close>: \<^verbatim>\<open>registration/\<close>.  The client's operations as functions, and the
    interleaving of the registering goroutine, the heartbeat and \<open>Stop\<close> as a step relation with a measure
    that bounds what happens after \<open>Stop\<close>; the functions refine the relation: the lifecycle states read
    off the client and the world along a run are states the relation reaches.

  \<^item> \<open>Messages\<close>, \<open>Redaction\<close>: the message structs of the platform's services and the redaction code under
    \<^verbatim>\<open>gen/go/common/\<close>.  What is printed of a registration does not depend on its secrets; the redacting
    servers change no response.

  \<^item> \<open>Slices\<close>, \<open>Ambient\<close>: \<^verbatim>\<open>utils/slice\<close>, \<^verbatim>\<open>service/name.go\<close>, \<^verbatim>\<open>task/backup.go\<close>, \<^verbatim>\<open>metrics/\<close>, \<^verbatim>\<open>viewer/\<close>.
    In-place merging over a store of shared arrays, and the deduplicating helpers against one reference.

  \<^item> This theory: the properties that span components.  The certificate check around the claims
    check guards a service; what \<open>Ensure\<close> installs is what the dialer loads; a parameter name that makes the
    protobuf runtime panic ends in an audit record of success.

  \<^bold>\<open>State and effects.\<close>  A struct is a record with the source's field names behind a short prefix,
  an enumeration a datatype or the constants of the source, a pair of value and error a sum with the
  error on the left.  Effects outside the process act on a world \<open>'w\<close> that the operations pass on.
  A panic is a value of its own where it can be reached.  Where a pointer is shared (the client
  record of the certificate check) or an array is (the slices of \<open>MergeInPlace\<close>), there is an
  explicit heap.  Concurrency is modelled where the result depends on it: the event bus and its lock
  and the registration lifecycle are step relations over the critical sections of the code.  Other
  operations that take a lock for their whole body are sequential functions.

  \<^bold>\<open>Parameters.\<close>  Code outside the repository is an argument, usually a record of operations, and a
  theorem that needs its documented behaviour names it: \<open>metadata_laws\<close> and \<open>metadata_only\<close> (gRPC
  metadata), \<open>cipher_laws\<close> (AES-GCM and SHA-256), \<open>ecdsa_laws\<close>, \<open>os_laws\<close> and \<open>files_kept\<close> (the file
  system, and that other calls leave it alone), \<open>pairs_from_files\<close> and \<open>key_laws\<close> (the key pair loader, which checks that
  key and certificate match, and what requests and certificates hold), \<open>gateway_laws\<close> (the admin gateway
  and its connection), \<open>pg_keeps\<close> (what database statements keep), \<open>proto_laws\<close>
  (the type checks of the protobuf runtime), \<open>transport_laws\<close> (what one end of a call sends the other
  end reads), \<open>redact_law\<close> (\<open>redact.Apply\<close> runs the \<open>Redact\<close> method), and round
  trips of JSON and gzip.  Nothing is assumed of HMAC-SHA256: the theorem on signatures ends in the
  alternative of a collision.  Each such theorem is applied to a concrete instance of its parameters.

  \<^bold>\<open>Interfaces.\<close>  \<open>self_delimiting\<close> (a codec whose values can be followed by anything, provided by
  blocks), \<open>keyed_store\<close> (provided by the handler table of the router and the connection table of the
  transcoder), \<open>gate_middleware\<close> (a middleware that lets a call through or answers it, provided by the
  certificate and the claims check) and \<open>gate_chain\<close>, two gates around each other, which is a gate
  again and is provided by the pair of them.

  \<^bold>\<open>Numbers and loops.\<close>  Lengths on the wire are 32-bit words, parsed integers are checked against
  the width of their field, wrapping conversions are written out, and times are integers.  Go's
  \<open>int\<close> counters that stay far below their range are natural numbers or integers.  Every loop is a
  total function: the chunk reader recurses on the bytes left, the migration loop on the versions left,
  retry loops on the attempts left, the others on their data, so no fuel is needed.  The waiting loops that run until the process ends
  (heartbeat, event watching) are steps or lists of events.

  \<^bold>\<open>Not modelled.\<close>  What the protobuf compiler generates besides the message structs, the service
  interfaces and the redaction code: reflection tables, getters and stubs under \<^verbatim>\<open>gen/\<close>.  Log output and the
  loggers that constructors keep; JSON tags of the event payloads; the constant connection parameters
  given to gRPC; unknown fields of messages; scheduling of goroutines beyond the step relations; and
  letter case outside ASCII.
\<close>

section \<open>A guarded service\<close>

text \<open>
  A module's server runs the certificate check outside the claims check.  Both are gates on contexts
  that consist of the heap of client records and the server context.
\<close>

interpretation guarded: gate_chain "MTLSMiddleware env mopts now" "mtls_admit (mtls_options env mopts) now"
    "claims_Server G hmac env copts now" "claims_admit G hmac (claims_options env copts) now"
  by unfold_locales

text \<open>Replacing the incoming metadata of a context keeps its other values.\<close>

definition metadata_only :: "(heap \<times> 'a server_ctx_scheme, 'md) grpc_md \<Rightarrow> bool" where
  "metadata_only G \<longleftrightarrow> (\<forall>hc md. fst (NewIncomingContext G hc md) = fst hc \<and>
     sc_ClientInfo (snd (NewIncomingContext G hc md)) = sc_ClientInfo (snd hc))"

lemma claims_keep_client:
  assumes "metadata_only G" and "claims_admit G hmac options now (h, ctx) = Inr (h', ctx')"
  shows "h' = h" "sc_ClientInfo ctx' = sc_ClientInfo ctx"
proof -
  have s: "fst (StripUserClaims G (h, ctx)) = h \<and> sc_ClientInfo (snd (StripUserClaims G (h, ctx))) = sc_ClientInfo ctx"
    using assms(1) by (simp add: StripUserClaims_def metadata_only_def Let_def split: option.split)
  have "(h', ctx') = (h, ctx) \<or> (h', ctx') = StripUserClaims G (h, ctx)"
    using assms(2) by (auto simp: claims_admit_def split: option.splits if_splits)
  then show "h' = h" "sc_ClientInfo ctx' = sc_ClientInfo ctx" using s by (metis fst_conv snd_conv prod.inject)+
qed

text \<open>What a handler behind both checks may rely on.\<close>

definition vouched :: "(heap \<times> 'a server_ctx_scheme, 'md) grpc_md \<Rightarrow> mac \<Rightarrow> mtls_Options \<Rightarrow> byte list \<Rightarrow> int
    \<Rightarrow> heap \<times> 'a server_ctx_scheme \<Rightarrow> bool" where
  "vouched G hmac options secret now hc \<longleftrightarrow> claims_trusted G hmac secret now hc \<and>
     IsClientAuthenticated (fst hc) (snd hc) \<and>
     (\<exists>c. GetClientCertificateFromContext (fst hc) (snd hc) = Some c \<and> cert_ok options now c)"

lemma client_info_cong:
  "sc_ClientInfo ctx' = sc_ClientInfo ctx \<Longrightarrow> GetClientInfoFromContext ctx' = GetClientInfoFromContext ctx"
  by (simp add: GetClientInfoFromContext_def)

lemma chain_vouched:
  fixes hc :: "heap \<times> 'a server_ctx_scheme"
  assumes "metadata_laws G lower" and "metadata_only G" and "co_Mode (claims_options env copts) = ModeEnforce"
    and "sc_Operation ctx = Some operation" and "operation \<notin> set (mo_PublicEndpoints (mtls_options env mopts))"
    and "chain_admit (mtls_admit (mtls_options env mopts) now) (claims_admit G hmac (claims_options env copts) now) (h, ctx) =
      (Inr hc :: (('e rpc_error, 'r) result \<times> heap) + _)"
  shows "vouched G hmac (mtls_options env mopts) (co_Secret (claims_options env copts)) now hc"
proof -
  obtain h1 ctx1 where a: "mtls_admit (mtls_options env mopts) now (h, ctx) = (Inr (h1, ctx1) :: (('e rpc_error, 'r) result \<times> heap) + _)"
    and b: "claims_admit G hmac (claims_options env copts) now (h1, ctx1) = (Inr hc :: (('e rpc_error, 'r) result \<times> heap) + _)"
    using assms(6) by (auto simp: chain_admit_def rbind_Inr_iff)
  obtain h2 ctx2 where hc: "hc = (h2, ctx2)" by (cases hc)
  note keep = claims_keep_client[OF assms(2) b[unfolded hc]]
  obtain c where "IsClientAuthenticated h1 ctx1" "GetClientCertificateFromContext h1 ctx1 = Some c" "cert_ok (mtls_options env mopts) now c"
    using mtls_admitted[OF a assms(4,5)] by blast
  moreover have "claims_trusted G hmac (co_Secret (claims_options env copts)) now hc"
    using enforce_admits_trusted[OF assms(1,3) b] .
  ultimately show ?thesis using client_info_cong[OF keep(2)]
    by (simp add: vouched_def hc keep(1) IsClientAuthenticated_def GetClientCertificateFromContext_def)
qed

text \<open>
  C3 (\<open>guarded_service\<close>): behind the certificate check and the enforced claims check, the handler of a
  protected operation runs only for callers vouched for twice: the peer's certificate is valid,
  trusted and recorded in the context, and whatever user claims the call carries were signed by the
  gateway.  Handlers that agree on such calls cannot be told apart.
\<close>

theorem guarded_service:
  assumes "metadata_laws G lower" and "metadata_only G" and "co_Mode (claims_options env copts) = ModeEnforce"
    and "sc_Operation ctx = Some operation" and "operation \<notin> set (mo_PublicEndpoints (mtls_options env mopts))"
    and "\<And>hc. vouched G hmac (mtls_options env mopts) (co_Secret (claims_options env copts)) now hc \<Longrightarrow> f hc req = g hc req"
  shows "MTLSMiddleware env mopts now (claims_Server G hmac env copts now f) (h, ctx) req =
    MTLSMiddleware env mopts now (claims_Server G hmac env copts now g) (h, ctx) req"
proof (rule guarded.chain.handler_runs_only_if[where P = "vouched G hmac (mtls_options env mopts) (co_Secret (claims_options env copts)) now"])
qed (rule chain_vouched[OF assms(1-5)], assumption, rule assms(6))

section \<open>Provisioned modules can call each other\<close>

text \<open>Loading a key pair depends on the two files only.\<close>

definition pairs_from_files :: "'w os_api \<Rightarrow> ('conn, 'pool, 'pair, 'w) dial_api \<Rightarrow> (byte list \<Rightarrow> byte list \<Rightarrow> (string, 'pair) result) \<Rightarrow> bool" where
  "pairs_from_files F D keypair \<longleftrightarrow>
     (\<forall>w p q c k. os_Read F w p = Inr c \<longrightarrow> os_Read F w q = Inr k \<longrightarrow> load_pair D w p q = keypair c k) \<and>
     (\<forall>w p q e. os_Read F w p = Inl e \<longrightarrow> \<not> is_ok (load_pair D w p q))"

text \<open>
  What the provisioning relies on, with the public key that each of a key, a signing request, a
  certificate and an encoded key holds: a signing request and an encoded private key hold the public
  key of the key they are made from, the service certifies the key of the request, and
  a certificate loads with a private key exactly when both hold the same public key, as
  \<^verbatim>\<open>tls.X509KeyPair\<close> checks it.
\<close>

definition key_laws :: "('key, 'ip, 'w) key_api \<Rightarrow> ('conn, 'w) lcm_api \<Rightarrow> (byte list \<Rightarrow> byte list \<Rightarrow> (string, 'pair) result)
    \<Rightarrow> ('key \<Rightarrow> 'pub) \<Rightarrow> (byte list \<Rightarrow> 'pub option) \<Rightarrow> (byte list \<Rightarrow> 'pub option) \<Rightarrow> (byte list \<Rightarrow> 'pub option) \<Rightarrow> bool" where
  "key_laws K L keypair pub csr_pub cert_pub key_pub \<longleftrightarrow>
     (\<forall>t key w der w'. CreateCertificateRequest K t key w = (Inr der, w') \<longrightarrow>
        csr_pub (pem_Encode K ''CERTIFICATE REQUEST'' der) = Some (pub key)) \<and>
     (\<forall>key der. MarshalPKCS8 K key = Inr der \<longrightarrow> key_pub (pem_Encode K ''PRIVATE KEY'' der) = Some (pub key)) \<and>
     (\<forall>conn req w resp w'. SignModuleCertificate L conn req w = (Inr resp, w') \<longrightarrow>
        cert_pub (bytes_of_string (sp_CertificatePem resp)) = csr_pub (bytes_of_string (sr_CsrPem req))) \<and>
     (\<forall>c k. is_ok (keypair c k) \<longleftrightarrow> cert_pub c \<noteq> None \<and> cert_pub c = key_pub k)"

text \<open>The certificate and the key of one signing cycle belong together.\<close>

lemma issued_pair_loads:
  assumes "key_laws K L keypair pub csr_pub cert_pub key_pub" and "issued L K conn cfg kind cn w resp keyPEM"
  shows "is_ok (keypair (bytes_of_string (sp_CertificatePem resp)) keyPEM)"
proof -
  note laws = assms(1)[unfolded key_laws_def]
  obtain key csr w1 w2 where
    g: "GenerateKeyAndCSR K cn (ec_DNSNames cfg) (ec_IPAddresses cfg) w = (Inr (key, csr), w1)" and
    r: "SignModuleCertificate L conn \<lparr>sr_ModuleId = ec_ModuleID cfg, sr_Secret = ec_Secret cfg,
          sr_CsrPem = string_of_bytes csr, sr_Kind = kind\<rparr> w1 = (Inr resp, w2)" and
    m: "MarshalKeyPEM K key = Inr keyPEM" using assms(2) unfolding issued_def by blast
  obtain t v der where d: "CreateCertificateRequest K t key v = (Inr der, w1)" "csr = pem_Encode K ''CERTIFICATE REQUEST'' der"
    using g by (auto simp: GenerateKeyAndCSR_def Let_def split: if_splits prod.splits sum.splits)
  have "csr_pub csr = Some (pub key)" using laws d by blast
  moreover have "cert_pub (bytes_of_string (sp_CertificatePem resp)) = csr_pub csr"
    using laws[THEN conjunct2, THEN conjunct2, THEN conjunct1, rule_format, OF r] by simp
  moreover have "key_pub keyPEM = Some (pub key)"
    using laws[THEN conjunct2, THEN conjunct1] m by (auto simp: MarshalKeyPEM_def rbind_Inr_iff)
  ultimately show ?thesis using laws[THEN conjunct2, THEN conjunct2, THEN conjunct2] by simp
qed

text \<open>
  C35 (\<open>ensured_module_dials_tls\<close>): what \<open>Ensure\<close> installs is what the dialer needs.  After a provisioning
  that succeeded, a dialer on the same directory whose module has no certificate of its own opens
  its connections with mutual TLS, with the client certificate issued and its key as the pair, and the
  CA the service sent as its root, provided that one parses.  The pair loads because the key written beside the
  certificate is the one whose signing request was signed.
\<close>

theorem ensured_module_dials_tls:
  assumes "os_laws F" and "files_kept F K L" and "applyDefaults env ips cfg0 = Inr cfg"
    and "\<not> ch_OK (CheckLocalCert F X now (ec_CertsDir cfg) (ec_PinnedCAFingerprint cfg) (ec_RenewBefore cfg) w)"
    and "Ensure env ips F X K L now cfg0 w = (Inr cm, w')"
    and "pairs_from_files F D keypair" and "key_laws K L keypair pub csr_pub cert_pub key_pub"
    and "os_Read F w' (cert_path cfg caller (caller @ ''.crt'')) = Inl e"
    and "os_Read F w' (cm_caCertPath cm) = Inr caPEM" and "append_pem D caPEM = Some pool"
  shows "\<exists>conn v resp key pair. issued L K conn cfg CERTIFICATE_KIND_CLIENT (''lcm-'' @ ec_ModuleID cfg) v resp key \<and>
    caPEM = bytes_of_string (sp_CaCertificatePem resp) \<and>
    keypair (bytes_of_string (sp_CertificatePem resp)) key = Inr pair \<and>
    dialWithMTLS F D (NewModuleDialer caller (ec_CertsDir cfg)) endpoint serverName w' =
      grpc_NewClient D endpoint (TLSCreds \<lparr>tl_Certificates = [pair], tl_RootCAs = pool, tl_ServerName = serverName, tl_MinVersion = VersionTLS12\<rparr>)"
proof -
  let ?d = "NewModuleDialer caller (ec_CertsDir cfg)"
  note ca = Ensure_manager[OF assms(5,3)]
  obtain conn v resp key where i: "issued L K conn cfg CERTIFICATE_KIND_CLIENT (''lcm-'' @ ec_ModuleID cfg) v resp key"
    "os_Read F w' (cert_path cfg ''client'' ''client.crt'') = Inr (bytes_of_string (sp_CertificatePem resp))"
    "os_Read F w' (cert_path cfg ''client'' ''client.key'') = Inr key"
    "os_Read F w' (cert_path cfg ''ca'' ''ca.crt'') = Inr (bytes_of_string (sp_CaCertificatePem resp))"
    using Ensure_reissues[OF assms(1-5)] unfolding ca by blast
  obtain pair where p: "keypair (bytes_of_string (sp_CertificatePem resp)) key = Inr pair"
    using issued_pair_loads[OF assms(7) i(1)] by (auto simp: is_ok_iff)
  have c: "caPEM = bytes_of_string (sp_CaCertificatePem resp)" using assms(9) i(4) unfolding ca by simp
  have dir: "md_certsDir ?d = ec_CertsDir cfg" "md_callerModuleID ?d = caller"
    using applyDefaults_dir[OF assms(3)] by (simp_all add: NewModuleDialer_def or_default_def)
  have "\<not> is_ok (load_pair D w' (cert_path cfg caller (caller @ ''.crt'')) (cert_path cfg caller (caller @ ''.key'')))"
    using assms(6,8) by (simp add: pairs_from_files_def)
  moreover have "load_pair D w' (cert_path cfg ''client'' ''client.crt'') (cert_path cfg ''client'' ''client.key'') = Inr pair"
    using assms(6) i(2,3) p by (simp add: pairs_from_files_def)
  ultimately have "loadClientTLS F D ?d serverName w' =
      Inr \<lparr>tl_Certificates = [pair], tl_RootCAs = pool, tl_ServerName = serverName, tl_MinVersion = VersionTLS12\<rparr>"
    using i(4) assms(10) unfolding c loadClientTLS_ok dir cert_path_def[symmetric] Let_def by blast
  then have "dialWithMTLS F D ?d endpoint serverName w' =
      grpc_NewClient D endpoint (TLSCreds \<lparr>tl_Certificates = [pair], tl_RootCAs = pool, tl_ServerName = serverName, tl_MinVersion = VersionTLS12\<rparr>)"
    by (simp add: dialWithMTLS_def)
  with i(1) c p show ?thesis by blast
qed

section \<open>A parameter name that panics\<close>

text \<open>
  C17 (\<open>panicking_parameter_audited\<close>): a client that may send a query string to a routed method can end the
  handling of its request in a panic, by a dotted parameter name that goes through a repeated or a map
  field; the module is not called, and the audit log records the request with status 200.
\<close>

theorem panicking_parameter_audited:
  assumes "proto_laws (ge_proto E) is_map" and "GetModuleConnection t m = Some mc"
    and "FindMethodByHTTP (mc_Descriptor mc) (rq_Method r) p = Some (mth, params)"
    and "\<not> mi_IsClientStreaming mth" and "\<not> mi_IsServerStreaming mth"
    and "apply_body (ge_proto E) r (find_rule mth (rq_Method r) p)
      (pb_NewMessage (ge_proto E) (pb_TypeByName (ge_proto E) (mi_InputType mth))) = Inr msg"
    and "nv \<in> set (query_assigns r params)"
    and "\<not> walkable (ge_proto E) is_map (pb_TypeByName (ge_proto E) (mi_InputType mth)) (Split CHR ''.'' (fst nv))"
    and "tc_auditWriter t = Some wr"
  shows "\<exists>entry t'. Handle E now latency ctx r m p t w = (PanicResponse, t', wr (rq_Context r) entry w) \<and> te_StatusCode entry = 200"
proof -
  have c: "GetModuleConnection (touch now m t) m = Some (mc\<lparr>mc_LastUsed := now\<rparr>)" using assms(2) by (simp add: touch_lookup)
  have "BuildRequest (ge_proto E) (ge_keys E) r mth (find_rule mth (rq_Method r) p) params = Inl RuntimePanic"
    using build_request_cases[OF assms(1) refl assms(6), of "ge_keys E" params] assms(7,8) by (auto simp: list_all_iff split: if_splits)
  then have "handle_body E (touch now m t) ctx r m p w = (panicked (Some mth), w)"
    using assms(3-5) by (simp add: handle_body_def c Let_def)
  then have h: "Handle E now latency ctx r m p t w = (PanicResponse, touch now m t, wr (rq_Context r)
      (audit_entry (net_ParseIP (ge_rpc E)) r m (Some mth) p 200 [] latency (bufferRequestBody r)) w)"
    using assms(9) by (simp add: Handle_def Let_def panicked_def)
  show ?thesis unfolding h by (intro exI conjI, rule refl) (simp add: audit_entry_def)
qed

section \<open>Examples\<close>

text \<open>Server contexts that carry an association list as their metadata.\<close>

definition ctx_md :: "(heap \<times> (string \<times> string list) list option server_ctx_scheme, (string \<times> string list) list) grpc_md" where
  "ctx_md = \<lparr>FromIncomingContext = (\<lambda>hc. server_ctx.more (snd hc)),
     NewIncomingContext = (\<lambda>hc md. (fst hc, server_ctx.more_update (\<lambda>_. Some md) (snd hc))),
     md_Get = md_Get alist_md, md_Copy = md_Copy alist_md, md_Delete = md_Delete alist_md, AppendToOutgoingContext = (\<lambda>hc _ _. hc)\<rparr>"

lemma ctx_md_laws: "metadata_laws ctx_md (\<lambda>_. True)" "metadata_only ctx_md"
  using alist_md_laws by (simp_all add: metadata_laws_def ctx_md_def metadata_only_def)

definition guarded_ctx :: "(string \<times> string list) list option server_ctx_scheme" where
  "guarded_ctx = \<lparr>sc_Operation = Some ''/svc/Get'', sc_Peer = Some demo_peer, sc_ClientInfo = None, \<dots> = Some [(MDUserID, [''7''])]\<rparr>"

lemma guarded_options: "mo_PublicEndpoints (mtls_options demo_env []) = []"
proof -
  have "mo_PublicEndpoints (fold (\<lambda>cn ops. if TrimSpace cn \<noteq> []
      then ops\<lparr>mo_AllowedCommonNames := mo_AllowedCommonNames ops @ [TrimSpace cn]\<rparr> else ops) cns ops) = mo_PublicEndpoints ops"
    for cns and ops :: mtls_Options by (induction cns arbitrary: ops) simp_all
  then show ?thesis by (simp add: mtls_options_def mtls_defaults_def Let_def)
qed

theorem guarded_service_witness:
  "MTLSMiddleware demo_env [] 5 (claims_Server ctx_md demo_mac demo_env [] 5
      (\<lambda>hc _. (Inr (IsClientAuthenticated (fst hc) (snd hc)) :: (unit rpc_error, bool) result, fst hc))) ([], guarded_ctx) () =
   MTLSMiddleware demo_env [] 5 (claims_Server ctx_md demo_mac demo_env [] 5 (\<lambda>hc _. (Inr True, fst hc))) ([], guarded_ctx) ()"
proof (rule guarded_service[OF ctx_md_laws, where operation = "''/svc/Get''"])
  show "co_Mode (claims_options demo_env []) = ModeEnforce" by (simp add: demo_options)
  show "sc_Operation guarded_ctx = Some ''/svc/Get''" by (simp add: guarded_ctx_def)
  show "''/svc/Get'' \<notin> set (mo_PublicEndpoints (mtls_options demo_env []))" by (simp add: guarded_options)
qed (simp add: vouched_def)

text \<open>
  A dialer that reads its key pairs from the example file system.  The public key is the first byte,
  and a pair loads only when certificate and key agree on it.
\<close>

definition demo_pub :: "byte list \<Rightarrow> byte option" where
  "demo_pub b = (case b of [] \<Rightarrow> None | x # _ \<Rightarrow> Some x)"

definition demo_pair :: "byte list \<Rightarrow> byte list \<Rightarrow> (string, byte list \<times> byte list) result" where
  "demo_pair c k = (if demo_pub c \<noteq> None \<and> demo_pub c = demo_pub k then Inr (c, k)
     else Inl ''tls: private key does not match public key'')"

definition demo_calls :: "((byte list, byte list \<times> byte list) transport_creds, byte list, byte list \<times> byte list, string \<Rightarrow> byte list option) dial_api" where
  "demo_calls = \<lparr>ResolveModule = (\<lambda>m w. (Inr (m, m), w)), grpc_NewClient = (\<lambda>_ creds. Inr creds), append_pem = Some,
     load_pair = (\<lambda>w p q. case (os_Read demo_os w p, os_Read demo_os w q) of (Inr c, Inr k) \<Rightarrow> demo_pair c k | _ \<Rightarrow> Inl ''missing''),
     wait_retry = (\<lambda>_ w. (False, w))\<rparr>"

lemma demo_key_laws: "key_laws demo_keys demo_lcm demo_pair byte_of_char demo_pub demo_pub demo_pub"
proof -
  have "demo_pub (bytes_of_string (c # s)) = Some (byte_of_char c)" for c s by (simp add: demo_pub_def bytes_of_string_def)
  moreover have "is_ok (demo_pair c k) \<longleftrightarrow> demo_pub c \<noteq> None \<and> demo_pub c = demo_pub k" for c k
    by (cases "demo_pub c"; cases "demo_pub k") (simp_all add: demo_pair_def)
  ultimately show ?thesis
    unfolding key_laws_def by (simp add: demo_keys_def demo_lcm_def)
qed

theorem ensured_module_dials_tls_witness:
  "\<exists>w' pool pair. dialWithMTLS demo_os demo_calls (NewModuleDialer ''x'' (ec_CertsDir demo_config)) ''b:1'' ''b'' w' =
     Inr (TLSCreds \<lparr>tl_Certificates = [pair], tl_RootCAs = pool, tl_ServerName = ''b'', tl_MinVersion = VersionTLS12\<rparr>)"
proof -
  obtain cm w' where e: "Ensure (\<lambda>_. []) [] demo_os demo_x509 demo_keys demo_lcm 5 demo_config (\<lambda>_. None) = (Inr cm, w')"
    and x: "os_Read demo_os w' (cert_path demo_config ''x'' (''x'' @ ''.crt'')) = Inl NotExist"
    using demo_ensure by auto
  have f: "pairs_from_files demo_os demo_calls demo_pair"
    by (simp add: pairs_from_files_def demo_calls_def split: sum.split)
  obtain ca where a: "os_Read demo_os w' (cm_caCertPath cm) = Inr ca"
    using Ensure_reissues[OF demo_os_laws demo_defaults demo_unhealthy e] by blast
  have c: "append_pem demo_calls b = Some b" "grpc_NewClient demo_calls ep cr = Inr cr" for b ep cr by (simp_all add: demo_calls_def)
  show ?thesis
    using ensured_module_dials_tls[OF demo_os_laws demo_defaults demo_unhealthy e f demo_key_laws x a c(1), of "''b:1''" "''b''"]
    unfolding c(2) by auto
qed

text \<open>A gateway over the example runtime with a repeated field.\<close>

definition shop_gateway :: "(bool, nat, bool \<times> string, unit, unit, unit, nat, unit, unit, string list, unit, unit, unit, unit, unit) gateway_env" where
  "shop_gateway = \<lparr>ge_proto = shop,
     ge_resp = \<lparr>protojson_Marshal = (\<lambda>_ m. map_option snd m), status_FromError = (\<lambda>c. Some (c, [], [])), rpc_Error = (\<lambda>_. []),
       json_HTTPError = (\<lambda>_ m _. m), json_RawList = (\<lambda>rs. Some (concat rs)), Code_String = FormatUint\<rparr>,
     ge_rpc = \<lparr>rpc_NewClient = (\<lambda>_ _ _. Inr ()), rpc_Invoke = (\<lambda>_ _ m msg w. (Inr msg, w @ [m])),
       rpc_Close = (\<lambda>_ w. (None, w)), rpc_State = (\<lambda>_. 2), os_Getenv = (\<lambda>_. []), os_Stat = (\<lambda>_. False),
       os_ReadFile = (\<lambda>_. None), AppendCertsFromPEM = (\<lambda>_. None), LoadX509KeyPair = (\<lambda>_ _. None), net_ParseIP = (\<lambda>_. True)\<rparr>,
     ge_auth = demo_auth, ge_keys = (\<lambda>_. []), ge_buildText = (\<lambda>_. []), ge_respText = (\<lambda>_. [])\<rparr>"

theorem panicking_parameter_audited_witness:
  "\<exists>(entry :: unit tc_AuditLogEntry) t'. Handle shop_gateway 0 1 () (shop_query ''items.name'') ''users'' ''/v1/users/7''
     (WithAuditLogWriter (\<lambda>_ e w. w @ [te_Path e]) demo_transcoder) [] = (PanicResponse, t', [te_Path entry]) \<and> te_StatusCode entry = 200"
proof -
  let ?t = "WithAuditLogWriter (\<lambda>_ e w. w @ [te_Path e]) demo_transcoder"
  let ?r = "shop_query ''items.name''"
  have c: "GetModuleConnection ?t ''users'' = GetModuleConnection demo_transcoder ''users''"
    by (simp add: WithAuditLogWriter_def GetModuleConnection_def)
  have m: "rq_Method ?r = ''GET''" by (simp add: shop_query_def demo_request_def)
  have g: "ge_proto shop_gateway = shop" by (simp add: shop_gateway_def)
  have b: "apply_body shop ?r rule msg = Inr msg" for rule msg by (simp add: apply_body_def shop_query_def demo_request_def)
  have q: "(''items.name'', ''x'') \<in> set (query_assigns ?r [''user_id'' \<mapsto> ''7''])" by (simp add: query_assigns_def shop_query_def)
  have t: "\<not> pb_TypeByName shop (mi_InputType demo_method)" by (simp add: demo_method_def)
  have w: "\<not> walkable shop (\<lambda>_. False) (pb_TypeByName shop (mi_InputType demo_method)) (Split CHR ''.'' (fst (''items.name'', ''x'')))"
    using shop_walk(2) t by simp
  have a: "tc_auditWriter ?t = Some (\<lambda>_ e w. w @ [te_Path e])" by (simp add: WithAuditLogWriter_def)
  obtain mc where mc: "GetModuleConnection ?t ''users'' = Some mc" "mc_Descriptor mc = demo_descriptor"
    using demo_transcoder_simps(1) unfolding c by simp
  have f: "FindMethodByHTTP (mc_Descriptor mc) (rq_Method ?r) ''/v1/users/7'' = Some (demo_method, [''user_id'' \<mapsto> ''7''])"
    unfolding mc(2) m by (rule demo_find)
  have s: "\<not> mi_IsClientStreaming demo_method" "\<not> mi_IsServerStreaming demo_method" by (simp_all add: demo_method_def)
  show ?thesis
    using panicking_parameter_audited[of shop_gateway, unfolded g, OF shop_laws mc(1) f s b q w a, of 0 1 "()" "[]"] by auto
qed

end
